theory Spec2Isabelle
  imports Main "HOL-Library.Sublist" "HOL-Library.Multiset"
begin

section \<open>Strings and JavaScript truthiness\<close>

text \<open>
  JavaScript strings are modelled as HOL strings. \<open>toLowerCase\<close> is modelled on the
  ASCII letters, \<open>trim\<close> on the white space characters that fit a byte.
\<close>

definition toLowerChar :: "char \<Rightarrow> char" where
  "toLowerChar c =
     (case map_of (zip ''ABCDEFGHIJKLMNOPQRSTUVWXYZ'' ''abcdefghijklmnopqrstuvwxyz'') c of
        Some l \<Rightarrow> l
      | None \<Rightarrow> c)"

definition toLowerCase :: "string \<Rightarrow> string" where
  "toLowerCase s = map toLowerChar s"

text \<open>\<open>s.includes(k)\<close>: \<open>k\<close> occurs in \<open>s\<close> as a contiguous run.\<close>

fun str_includes :: "string \<Rightarrow> string \<Rightarrow> bool" where
  "str_includes [] k = (k = [])"
| "str_includes (c # cs) k = (prefix k (c # cs) \<or> str_includes cs k)"

definition isWhiteSpace :: "char \<Rightarrow> bool" where
  "isWhiteSpace c = (of_char c \<in> {9::nat, 10, 11, 12, 13, 32, 160})"

definition trim :: "string \<Rightarrow> string" where
  "trim s = rev (dropWhile isWhiteSpace (rev (dropWhile isWhiteSpace s)))"

text \<open>\<open>s.split(d)\<close> for a one-character separator: never the empty list.\<close>

fun str_split :: "char \<Rightarrow> string \<Rightarrow> string list" where
  "str_split d [] = [[]]"
| "str_split d (c # cs) =
     (if c = d then [] # str_split d cs
      else (case str_split d cs of
              [] \<Rightarrow> [[c]]
            | p # ps \<Rightarrow> (c # p) # ps))"

text \<open>A string is truthy when it is not empty; \<open>undefined\<close> and \<open>null\<close> are \<open>None\<close>.\<close>

definition truthy :: "string option \<Rightarrow> bool" where
  "truthy v = (case v of None \<Rightarrow> False | Some s \<Rightarrow> s \<noteq> [])"

text \<open>\<open>a || b\<close> on optional strings.\<close>

definition orElse :: "string option \<Rightarrow> string option \<Rightarrow> string option" where
  "orElse a b = (if truthy a then a else b)"

section \<open>Scheduling-needed predicate\<close>

text \<open>
  A JavaScript number holding a day count is an integer or \<open>NaN\<close> (\<open>None\<close>), which is
  what \<open>computeDaysInStage\<close> produces. Every comparison with \<open>NaN\<close> is false.
\<close>

type_synonym number = "int option"

definition num_ge :: "number \<Rightarrow> int \<Rightarrow> bool" where
  "num_ge d t = (case d of None \<Rightarrow> False | Some n \<Rightarrow> t \<le> n)"

definition interviewKeywords :: "string list" where
  "interviewKeywords = [''interview'', ''onsite'', ''technical'', ''screening'', ''call'']"

definition computeNeedsScheduling :: "string option \<Rightarrow> number \<Rightarrow> int \<Rightarrow> bool" where
  "computeNeedsScheduling stageType daysInStage threshold =
     (if \<not> truthy stageType then False
      else (case stageType of
              None \<Rightarrow> False
            | Some st \<Rightarrow>
                (let isInterviewStage =
                       list_ex (\<lambda>keyword. str_includes (toLowerCase st) keyword) interviewKeywords
                 in isInterviewStage \<and> num_ge daysInStage threshold)))"

text \<open>The default value of the parameter \<open>threshold\<close>.\<close>

definition defaultThreshold :: int where
  "defaultThreshold = 7"

text \<open>
  \<open>computeDaysInStage\<close> reads the clock and parses a date; both are parameters here:
  \<open>parseDate\<close> gives the time stamp in milliseconds, or \<open>None\<close> for an invalid date.
\<close>

record env =
  now :: int
  parseDate :: "string \<Rightarrow> int option"
  queryFile :: "string option"

definition computeDaysInStage :: "env \<Rightarrow> string \<Rightarrow> number" where
  "computeDaysInStage E lastActivityAt =
     (case parseDate E lastActivityAt of
        None \<Rightarrow> None
      | Some lastMs \<Rightarrow> Some (max 0 ((now E - lastMs) div (1000 * 60 * 60 * 24))))"

section \<open>Session, remote application and effects\<close>

text \<open>\<open>AshbySession\<close> (types.ts). The cookie jar is a JavaScript object used as a dictionary.\<close>

type_synonym cookie_jar = "string \<rightharpoonup> string"

record AshbySession =
  cookies :: cookie_jar
  csrfToken :: "string option"
  orgIds :: "string list"

text \<open>
  The request headers built by \<open>createAuthHeaders\<close>: the cookie header (kept as the jar it
  is printed from) and \<open>x-csrf-token\<close>, present only when the session token is truthy.
\<close>

record auth_headers =
  h_cookie :: cookie_jar
  h_csrf :: "string option"

definition createAuthHeaders :: "AshbySession \<Rightarrow> auth_headers" where
  "createAuthHeaders s =
     \<lparr>h_cookie = cookies s,
      h_csrf = (if truthy (csrfToken s) then csrfToken s else None)\<rparr>"

definition hasAuthCookie :: "AshbySession \<Rightarrow> bool" where
  "hasAuthCookie s =
     (truthy (cookies s ''ashby_session_token'') \<or> truthy (cookies s ''authenticated''))"

text \<open>
  What \<open>fetch\<close> gives back: the promise is rejected (\<open>NetworkError\<close>) or resolves to a
  response with a status, an optional \<open>set-cookie\<close> header and a body. A body is kept
  parsed: \<open>None\<close> is a body that \<open>res.json()\<close> or \<open>JSON.parse\<close> rejects.
\<close>

datatype 'b fetched =
    NetworkError
  | Response (status: nat) (setCookie: "string option") (body: 'b)

definition ok :: "nat \<Rightarrow> bool" where
  "ok st = (200 \<le> st \<and> st \<le> 299)"

text \<open>Every place where the source throws, or where the runtime throws for it.\<close>

datatype error =
    MissingAuthCookies
  | CsrfTokenUnauthorized
  | CsrfTokenFailedAfterAttempts nat nat
  | UnreachableCode
  | FetchRejected
  | BodyNotJson
  | GraphQLRequestFailed nat
  | InvalidJsonResponse
  | GraphQLErrors "string list"
  | SwitchOrgContextFailed nat
  | CsrfRefreshAfterSwitchFailed
  | TypeError

subsection \<open>GraphQL payloads\<close>

record session_user =
  organizationId :: string
  organizationName :: "string option"

record jobs_pipeline =
  jp_jobId :: string
  jp_jobTitle :: string
  jobLocationName :: "string option"
  customRequisitionId :: "string option"
  confidential :: bool
  userFollowsOrHasRole :: bool
  applicationCount :: int

record app_job =
  aj_id :: string
  aj_title :: string

record app_candidate =
  ac_id :: string
  ac_name :: string
  ac_company :: "string option"
  isBlinded :: bool

record app_source =
  as_id :: string
  as_title :: string

record app_user =
  au_id :: string
  au_firstName :: string
  au_lastName :: string
  au_email :: string

record app_status =
  description :: string
  priority :: "int option"
  dueAt :: "string option"

record app_stage =
  stg_id :: string
  stg_title :: "string option"
  interviewPlanId :: string
  stg_stageType :: string

record ApplicationResult =
  ar_id :: string
  ar_job :: app_job
  ar_candidate :: app_candidate
  ar_source :: "app_source option"
  creditedToUser :: "app_user option"
  applicationStatus :: "app_status option"
  createdAt :: string
  currentInterviewStage :: "app_stage option"

record applications_page =
  results :: "ApplicationResult list"
  nextCursor :: "string option"
  moreDataAvailable :: bool
  opaqueFilter :: "string option"

text \<open>
  \<open>ApplicationDetailResponse\<close>, declared inside \<open>fetchApplicationDetails\<close>. The
  response is parsed JSON and is used as \<open>any\<close>, so the declaration is not checked:
  every member that holds an object or an array, and every element of an array, may
  be \<open>null\<close> or missing (\<open>None\<close>), also where the declaration has no \<open>?\<close>.
\<close>

record plan_stage =
  ps_id :: string
  ps_title :: string
  ps_stageType :: string

type_synonym stage_list = "plan_stage option list option"

record interview_plan =
  ip_id :: string
  interviewStages :: stage_list

record job_interview_plan =
  jip_id :: string
  jip_interviewStages :: stage_list

record plan_with_activities =
  pa_id :: string
  isDefault :: bool
  pa_interviewPlan :: "job_interview_plan option"

record detail_job =
  dj_id :: string
  dj_title :: string
  interviewPlansWithActivities :: "plan_with_activities option list option"

text \<open>
  A form field entry: \<open>field\<close> is \<open>None\<close> when it is missing or not a string,
  \<open>fieldValue\<close> is \<open>None\<close> when \<open>fieldValue?.value\<close> is missing or not a string.
\<close>

record field_entry =
  field :: "string option"
  fieldValue :: "string option"

record form_section =
  fs_fieldEntries :: "field_entry option list option"

record form_render =
  fieldEntries :: "field_entry option list option"
  sections :: "form_section option list option"

record scorecard =
  sc_id :: "string option"
  sc_overallRecommendation :: "string option"
  sc_submittedAt :: "string option"
  submittedFormRender :: "form_render option"

record interviewer =
  iv_id :: string
  iv_firstName :: string
  iv_lastName :: string
  iv_email :: string

record interviewer_event =
  ie_id :: string
  ie_interviewer :: "interviewer option"
  scorecardSubmission :: "scorecard option"
  ie_isFeedbackSubmitted :: bool

record detail_stage =
  ds_id :: string
  ds_title :: string
  ds_stageType :: "string option"

record detail_interview =
  di_id :: string
  di_title :: string

record detail_event =
  de_id :: string
  de_startTime :: string
  de_endTime :: string
  de_interview :: "detail_interview option"
  interviewerEvents :: "interviewer_event option list option"

record application_detail =
  ad_id :: string
  ad_applicationStatus :: "app_status option"
  ad_currentInterviewStage :: "detail_stage option"
  ad_job :: "detail_job option"
  ad_interviewPlan :: "interview_plan option"
  ad_interviewEvents :: "detail_event option list option"

text \<open>
  The \<open>data\<close> member of a GraphQL response, by shape. A use site that reads a member
  the shape does not have gets \<open>undefined\<close> and throws a \<open>TypeError\<close> on the next
  property access.
\<close>

datatype gql_data =
    SessionUserData session_user
  | JobsPipelinesData "jobs_pipeline list"
  | ApplicationsData applications_page
  | ApplicationData "application_detail option"
  | OtherData

record gql_json =
  data :: gql_data
  errors :: "string list option"

datatype query_doc =
    sessionUserQueryWithId
  | sessionUserQuery
  | openJobsQuery
  | applicationsQuery
  | QueryFromFile string

datatype gql_variables =
    NoVariables
  | OpenJobsVariables bool bool
  | ApplicationsVariables "string option" int
  | ApplicationVariables string

record gql_request =
  operationName :: string
  query :: query_doc
  variables :: gql_variables

record identity_user =
  iu_id :: string
  iu_name :: string
  iu_email :: string
  avatarUrl :: "string option"

record identity_organization =
  io_id :: string
  io_name :: string
  domainName :: string

record AvailableIdentityResponse =
  ai_user :: identity_user
  ai_organization :: identity_organization

text \<open>
  The remote application: the four endpoints the client calls, each a function of the
  request and of the application's own state \<open>'s\<close>, which it may change.
\<close>

record 's remote =
  csrf_token_endpoint :: "auth_headers \<Rightarrow> 's \<Rightarrow> string option fetched \<times> 's"
  change_user_endpoint :: "string \<Rightarrow> auth_headers \<Rightarrow> 's \<Rightarrow> unit fetched \<times> 's"
  available_identities_endpoint ::
    "auth_headers \<Rightarrow> 's \<Rightarrow> AvailableIdentityResponse list option fetched \<times> 's"
  graphql_endpoint :: "gql_request \<Rightarrow> auth_headers \<Rightarrow> 's \<Rightarrow> gql_json option fetched \<times> 's"

text \<open>
  The observable effects, in order: each request with the status of its response
  (\<open>None\<close> when \<open>fetch\<close> is rejected), and each pause.
\<close>

datatype event =
    TokenFetch "nat option" "string option"
  | ChangeUser string "nat option"
  | Identities "nat option"
  | Query string "string option" "nat option"
  | Sleep nat

record 's world =
  session :: AshbySession
  server :: 's
  trace :: "event list"

definition emit :: "event \<Rightarrow> 's world \<Rightarrow> 's world" where
  "emit e w = w\<lparr>trace := trace w @ [e]\<rparr>"

definition setCsrfToken :: "string option \<Rightarrow> 's world \<Rightarrow> 's world" where
  "setCsrfToken t w = w\<lparr>session := (session w)\<lparr>csrfToken := t\<rparr>\<rparr>"

section \<open>Token fetch and query execution (client.ts)\<close>

text \<open>
  \<open>fetchCsrfToken\<close>: the loop \<open>for (attempt = 0; attempt <= retries; attempt++)\<close>. A
  rejected \<open>fetch\<close> and a body that is not JSON throw out of the loop.
\<close>

function fetchCsrfToken_loop ::
  "'s remote \<Rightarrow> nat \<Rightarrow> nat \<Rightarrow> 's world \<Rightarrow> (error + string) \<times> 's world" where
  "fetchCsrfToken_loop R retries attempt w =
     (if attempt \<le> retries then
        (case csrf_token_endpoint R (createAuthHeaders (session w)) (server w) of
           (NetworkError, s') \<Rightarrow>
             (Inl FetchRejected, emit (TokenFetch None None) (w\<lparr>server := s'\<rparr>))
         | (Response st sc b, s') \<Rightarrow>
             if ok st then
               (case b of
                  None \<Rightarrow> (Inl BodyNotJson, emit (TokenFetch (Some st) None) (w\<lparr>server := s'\<rparr>))
                | Some token \<Rightarrow>
                    (Inr token, emit (TokenFetch (Some st) (Some token)) (w\<lparr>server := s'\<rparr>)))
             else if st = 401 then
               (Inl CsrfTokenUnauthorized, emit (TokenFetch (Some st) None) (w\<lparr>server := s'\<rparr>))
             else if attempt < retries then
               fetchCsrfToken_loop R retries (attempt + 1)
                 (emit (Sleep (500 * (attempt + 1)))
                    (emit (TokenFetch (Some st) None) (w\<lparr>server := s'\<rparr>)))
             else
               (Inl (CsrfTokenFailedAfterAttempts (retries + 1) st),
                emit (TokenFetch (Some st) None) (w\<lparr>server := s'\<rparr>)))
      else (Inl UnreachableCode, w))"
  by pat_completeness auto
termination
  by (relation "measure (\<lambda>(R, retries, attempt, w). Suc retries - attempt)") auto

declare fetchCsrfToken_loop.simps [simp del]

definition fetchCsrfToken :: "'s remote \<Rightarrow> nat \<Rightarrow> 's world \<Rightarrow> (error + string) \<times> 's world" where
  "fetchCsrfToken R retries w =
     (if \<not> hasAuthCookie (session w) then (Inl MissingAuthCookies, w)
      else fetchCsrfToken_loop R retries 0 w)"

text \<open>The default value of the parameter \<open>retries\<close>; no call site passes another.\<close>

definition defaultRetries :: nat where
  "defaultRetries = 2"

text \<open>
  \<open>graphqlQuery\<close>. The token sent is the session's, or a fresh one when the session has
  none or the caller forces a refresh; the header is set only when the token is truthy.
\<close>

definition resolveCsrfToken :: "'s remote \<Rightarrow> bool \<Rightarrow> 's world \<Rightarrow> (error + string) \<times> 's world" where
  "resolveCsrfToken R forceRefreshCsrf w =
     (if \<not> truthy (csrfToken (session w)) \<or> forceRefreshCsrf then
        (case fetchCsrfToken R defaultRetries w of
           (Inl e, w1) \<Rightarrow> (Inl e, w1)
         | (Inr t, w1) \<Rightarrow> (Inr t, setCsrfToken (Some t) w1))
      else (case csrfToken (session w) of
              Some t \<Rightarrow> (Inr t, w)
            | None \<Rightarrow> (Inr [], w)))"

definition graphqlQuery ::
  "'s remote \<Rightarrow> string \<Rightarrow> query_doc \<Rightarrow> gql_variables \<Rightarrow> bool \<Rightarrow> 's world
     \<Rightarrow> (error + gql_data) \<times> 's world" where
  "graphqlQuery R opName q vars forceRefreshCsrf w =
     (case resolveCsrfToken R forceRefreshCsrf w of
        (Inl e, w1) \<Rightarrow> (Inl e, w1)
      | (Inr csrf, w1) \<Rightarrow>
          (let headers = (if csrf \<noteq> []
                          then (createAuthHeaders (session w1))\<lparr>h_csrf := Some csrf\<rparr>
                          else createAuthHeaders (session w1))
           in case graphql_endpoint R
                     \<lparr>operationName = opName, query = q, variables = vars\<rparr> headers (server w1) of
                (NetworkError, s') \<Rightarrow>
                  (Inl FetchRejected, emit (Query opName (h_csrf headers) None) (w1\<lparr>server := s'\<rparr>))
              | (Response st sc b, s') \<Rightarrow>
                  (let w2 = emit (Query opName (h_csrf headers) (Some st)) (w1\<lparr>server := s'\<rparr>)
                   in if \<not> ok st then (Inl (GraphQLRequestFailed st), w2)
                      else (case b of
                              None \<Rightarrow> (Inl InvalidJsonResponse, w2)
                            | Some response \<Rightarrow>
                                (case errors response of
                                   Some es \<Rightarrow> (Inl (GraphQLErrors es), w2)
                                 | None \<Rightarrow> (Inr (data response), w2))))))"

section \<open>Tenant switch\<close>

text \<open>The cookie update from the \<open>set-cookie\<close> header of the switch response.\<close>

definition updateCookie :: "cookie_jar \<Rightarrow> string \<Rightarrow> cookie_jar" where
  "updateCookie jar cookie =
     (case str_split CHR '';'' cookie of
        [] \<Rightarrow> jar
      | nameValue # _ \<Rightarrow>
          (case str_split CHR ''='' nameValue of
             name # value # _ \<Rightarrow>
               if name \<noteq> [] \<and> value \<noteq> [] then jar(trim name \<mapsto> trim value) else jar
           | _ \<Rightarrow> jar))"

definition applySetCookie :: "string option \<Rightarrow> cookie_jar \<Rightarrow> cookie_jar" where
  "applySetCookie setCookieHeaders jar =
     (case setCookieHeaders of
        None \<Rightarrow> jar
      | Some h \<Rightarrow>
          if h = [] then jar
          else fold (\<lambda>cookie j. updateCookie j cookie) (map trim (str_split CHR '','' h)) jar)"

definition setCookies :: "cookie_jar \<Rightarrow> 's world \<Rightarrow> 's world" where
  "setCookies jar w = w\<lparr>session := (session w)\<lparr>cookies := jar\<rparr>\<rparr>"

text \<open>
  \<open>switchOrgContext\<close>. The verification query at the end sits in a \<open>try\<close> whose
  \<open>catch\<close> only warns ("Continue anyway"), and its answer is only printed: whatever it
  returns, the function returns normally.
\<close>

definition switchOrgContext :: "'s remote \<Rightarrow> string \<Rightarrow> 's world \<Rightarrow> (error + unit) \<times> 's world" where
  "switchOrgContext R userId w =
     (case fetchCsrfToken R defaultRetries w of
        (Inl e, w1) \<Rightarrow> (Inl e, w1)
      | (Inr csrf, w1) \<Rightarrow>
          (case change_user_endpoint R userId
                  ((createAuthHeaders (session w1))\<lparr>h_csrf := Some csrf\<rparr>) (server w1) of
             (NetworkError, s') \<Rightarrow>
               (Inl FetchRejected, emit (ChangeUser userId None) (w1\<lparr>server := s'\<rparr>))
           | (Response st sc b, s') \<Rightarrow>
               (let w2 = emit (ChangeUser userId (Some st)) (w1\<lparr>server := s'\<rparr>)
                in if \<not> ok st then (Inl (SwitchOrgContextFailed st), w2)
                   else
                     (let w3 = emit (Sleep 500) w2;
                          w4 = setCookies (applySetCookie sc (cookies (session w3))) w3
                      in case fetchCsrfToken R defaultRetries w4 of
                           (Inl e, w5) \<Rightarrow> (Inl CsrfRefreshAfterSwitchFailed, setCsrfToken None w5)
                         | (Inr newCsrfToken, w5) \<Rightarrow>
                             (case graphqlQuery R ''ApiGetSessionUser'' sessionUserQuery
                                     NoVariables False (setCsrfToken (Some newCsrfToken) w5) of
                                (verification, w6) \<Rightarrow> (Inr (), w6))))))"

section \<open>Tenant discovery\<close>

record OrgInfoWithUserId =
  org_id :: string
  org_name :: string
  userId :: string

record OrgInfo =
  oi_id :: string
  oi_name :: string

text \<open>The \<open>Map\<close> keyed by organization id keeps the first identity of each organization.\<close>

fun dedupeIdentities ::
  "OrgInfoWithUserId list \<Rightarrow> AvailableIdentityResponse list \<Rightarrow> OrgInfoWithUserId list" where
  "dedupeIdentities orgMap [] = orgMap"
| "dedupeIdentities orgMap (identity # rest) =
     dedupeIdentities
       (if io_id (ai_organization identity) \<in> set (map org_id orgMap) then orgMap
        else orgMap @ [\<lparr>org_id = io_id (ai_organization identity),
                         org_name = io_name (ai_organization identity),
                         userId = iu_id (ai_user identity)\<rparr>])
       rest"

definition fetchAllAvailableOrgs ::
  "'s remote \<Rightarrow> 's world \<Rightarrow> (error + OrgInfoWithUserId list) \<times> 's world" where
  "fetchAllAvailableOrgs R w =
     (case fetchCsrfToken R defaultRetries w of
        (Inl e, w1) \<Rightarrow> (Inl e, w1)
      | (Inr csrf, w1) \<Rightarrow>
          (let w2 = setCsrfToken (Some csrf) w1
           in case available_identities_endpoint R
                     ((createAuthHeaders (session w2))\<lparr>h_csrf := Some csrf\<rparr>) (server w2) of
                (NetworkError, s') \<Rightarrow>
                  (Inl FetchRejected, emit (Identities None) (w2\<lparr>server := s'\<rparr>))
              | (Response st sc b, s') \<Rightarrow>
                  (let w3 = emit (Identities (Some st)) (w2\<lparr>server := s'\<rparr>)
                   in if \<not> ok st then (Inr [], w3)
                      else (case b of
                              None \<Rightarrow> (Inl BodyNotJson, w3)
                            | Some identities \<Rightarrow> (Inr (dedupeIdentities [] identities), w3)))))"

text \<open>
  \<open>fetchAvailableOrgs\<close>: the list of \<open>fetchAllAvailableOrgs\<close>, or, when that list is
  empty, the organization the session-user query reports.
\<close>

definition fetchAvailableOrgs :: "'s remote \<Rightarrow> 's world \<Rightarrow> (error + OrgInfo list) \<times> 's world" where
  "fetchAvailableOrgs R w =
     (case fetchAllAvailableOrgs R w of
        (Inl e, w1) \<Rightarrow> (Inl e, w1)
      | (Inr allOrgs, w1) \<Rightarrow>
          if length allOrgs > 0 then
            (Inr (map (\<lambda>org. \<lparr>oi_id = org_id org, oi_name = org_name org\<rparr>) allOrgs), w1)
          else
            (case graphqlQuery R ''ApiGetSessionUser'' sessionUserQueryWithId NoVariables False w1 of
               (Inr (SessionUserData u), w2) \<Rightarrow>
                 if organizationId u \<noteq> [] then
                   (Inr [\<lparr>oi_id = organizationId u,
                           oi_name = (case orElse (organizationName u) (Some (organizationId u)) of
                                        Some n \<Rightarrow> n
                                      | None \<Rightarrow> organizationId u)\<rparr>], w2)
                 else (Inr [], w2)
             | (other, w2) \<Rightarrow> (Inr [], w2)))"

section \<open>Normalized records (types.ts)\<close>

record Company =
  co_id :: string
  co_name :: string

record Job =
  job_id :: string
  job_title :: string
  job_companyId :: string

record InterviewFeedback =
  fb_interviewTitle :: string
  fb_interviewer :: string
  fb_interviewerEmail :: string
  fb_submittedAt :: string
  fb_overallRecommendation :: "string option"
  feedbackText :: "string option"
  fb_isFeedbackSubmitted :: bool

record InterviewerSummary =
  is_name :: string
  is_email :: string
  is_overallRecommendation :: "string option"
  is_isFeedbackSubmitted :: bool

record InterviewEvent =
  ev_id :: string
  ev_interviewTitle :: string
  ev_startTime :: string
  ev_endTime :: string
  interviewers :: "InterviewerSummary list"

text \<open>
  \<open>Candidate\<close>. A member that is \<open>null\<close> or missing is \<open>None\<close>; the six members at the
  end are the optional ones, missing until the enrichment fills them.
\<close>

record Candidate =
  cand_id :: string
  applicationId :: string
  cand_name :: string
  email :: "string option"
  phone :: "string option"
  currentStage :: string
  pipelineStage :: "string option"
  stageType :: "string option"
  currentStageIndex :: "nat option"
  totalStages :: "nat option"
  stageProgress :: "string option"
  jobId :: string
  companyId :: string
  orgId :: string
  orgName :: "string option"
  lastActivityAt :: string
  daysInStage :: number
  needsScheduling :: bool
  creditedTo :: "string option"
  source :: "string option"
  decisionStatus :: "string option"
  statusPriority :: "int option"
  statusDueAt :: "string option"
  primaryEmailAddress :: "string option"
  phoneNumber :: "string option"
  location :: "string option"
  resumeUrl :: "string option"
  linkedInUrl :: "string option"
  githubUrl :: "string option"
  websiteUrl :: "string option"
  interviewEvents :: "InterviewEvent list option"
  allFeedback :: "InterviewFeedback list option"
  latestOverallRecommendation :: "string option"
  latestFeedbackAuthor :: "string option"
  latestFeedbackDate :: "string option"
  feedbackCount :: "nat option"

record PipelineFetchResult =
  companies :: "Company list"
  jobs :: "Job list"
  candidates :: "Candidate list"

section \<open>Normalization\<close>

text \<open>
  A JavaScript \<open>Map\<close> filled only through \<open>if (!m.has(k)) m.set(k, v)\<close>: the values in
  insertion order, a key kept once.
\<close>

definition setIfAbsent :: "('v \<Rightarrow> string) \<Rightarrow> 'v \<Rightarrow> 'v list \<Rightarrow> 'v list" where
  "setIfAbsent key v m = (if key v \<in> set (map key m) then m else m @ [v])"

definition defaultCompany :: Company where
  "defaultCompany = \<lparr>co_id = ''company-Default Company'', co_name = ''Default Company''\<rparr>"

definition addJobPipeline :: "jobs_pipeline \<Rightarrow> Company list \<times> Job list \<Rightarrow> Company list \<times> Job list" where
  "addJobPipeline jobPipeline acc =
     (case acc of (cs, js) \<Rightarrow>
        (setIfAbsent co_id defaultCompany cs,
         setIfAbsent job_id
           \<lparr>job_id = jp_jobId jobPipeline, job_title = jp_jobTitle jobPipeline,
            job_companyId = co_id defaultCompany\<rparr> js))"

definition companyNameOf :: "ApplicationResult \<Rightarrow> string" where
  "companyNameOf app =
     (let companyName = (case orElse (ac_company (ar_candidate app)) (Some ''Default Company'') of
                           Some n \<Rightarrow> n
                         | None \<Rightarrow> ''Default Company'')
      in if companyName = [] \<or> trim companyName = [] then ''Default Company'' else companyName)"

definition creditedToOf :: "ApplicationResult \<Rightarrow> string option" where
  "creditedToOf app =
     (case creditedToUser app of
        None \<Rightarrow> None
      | Some u \<Rightarrow>
          (let full = trim (au_firstName u @ '' '' @ au_lastName u)
           in Some (if full \<noteq> [] then full else au_email u)))"

definition candidateOf :: "env \<Rightarrow> string \<Rightarrow> string option \<Rightarrow> ApplicationResult \<Rightarrow> Candidate" where
  "candidateOf E orgIdArg orgNameArg app =
     (let statusDescription = map_option description (applicationStatus app);
          stageTypeRaw = map_option stg_stageType (currentInterviewStage app);
          stageTypeV = orElse stageTypeRaw None;
          daysInStageV = computeDaysInStage E (createdAt app)
      in \<lparr>cand_id = ac_id (ar_candidate app),
          applicationId = ar_id app,
          cand_name = ac_name (ar_candidate app),
          email = None,
          phone = None,
          currentStage = (case orElse statusDescription (orElse stageTypeRaw (Some ''Unknown'')) of
                            Some s \<Rightarrow> s
                          | None \<Rightarrow> ''Unknown''),
          pipelineStage = orElse (Option.bind (currentInterviewStage app) stg_title) None,
          stageType = stageTypeV,
          currentStageIndex = None,
          totalStages = None,
          stageProgress = None,
          jobId = aj_id (ar_job app),
          companyId = ''company-'' @ companyNameOf app,
          orgId = orgIdArg,
          orgName = orgNameArg,
          lastActivityAt = createdAt app,
          daysInStage = daysInStageV,
          needsScheduling = computeNeedsScheduling stageTypeV daysInStageV defaultThreshold,
          creditedTo = creditedToOf app,
          source = orElse (map_option as_title (ar_source app)) None,
          decisionStatus = orElse statusDescription None,
          statusPriority = (case Option.bind (applicationStatus app) priority of
                              Some p \<Rightarrow> if p = 0 then None else Some p
                            | None \<Rightarrow> None),
          statusDueAt = orElse (Option.bind (applicationStatus app) dueAt) None,
          primaryEmailAddress = None,
          phoneNumber = None,
          location = None,
          resumeUrl = None,
          linkedInUrl = None,
          githubUrl = None,
          websiteUrl = None,
          interviewEvents = None,
          allFeedback = None,
          latestOverallRecommendation = None,
          latestFeedbackAuthor = None,
          latestFeedbackDate = None,
          feedbackCount = None\<rparr>)"

definition addApplication ::
  "ApplicationResult \<Rightarrow> Company list \<times> Job list \<Rightarrow> Company list \<times> Job list" where
  "addApplication app acc =
     (case acc of (cs, js) \<Rightarrow>
        (setIfAbsent co_id
           \<lparr>co_id = ''company-'' @ companyNameOf app, co_name = companyNameOf app\<rparr> cs,
         setIfAbsent job_id
           \<lparr>job_id = aj_id (ar_job app), job_title = aj_title (ar_job app),
            job_companyId = ''company-'' @ companyNameOf app\<rparr> js))"

definition normalizePipelineData ::
  "env \<Rightarrow> jobs_pipeline list \<Rightarrow> ApplicationResult list \<Rightarrow> string \<Rightarrow> string option
     \<Rightarrow> PipelineFetchResult" where
  "normalizePipelineData E jobsPipelines applications orgIdArg orgNameArg =
     (case fold addApplication applications (fold addJobPipeline jobsPipelines ([], [])) of
        (cs, js) \<Rightarrow>
          \<lparr>companies = cs, jobs = js,
           candidates = map (candidateOf E orgIdArg orgNameArg) applications\<rparr>)"

section \<open>Extraction for one tenant\<close>

text \<open>
  The pagination loop \<open>while (hasMore)\<close> of \<open>fetchPipelineForOrg\<close>, entered with
  \<open>hasMore = true\<close>. Nothing bounds the number of pages, so the loop is a partial
  function: \<open>None\<close> is a loop that never ends. An error leaves the loop for the
  \<open>catch\<close> with the pages pushed so far.
\<close>

partial_function (option) fetchApplicationPages ::
  "'s remote \<Rightarrow> ApplicationResult list \<Rightarrow> string option \<Rightarrow> 's world
     \<Rightarrow> ((error + unit) \<times> ApplicationResult list \<times> 's world) option" where
  "fetchApplicationPages R allApplications cursor w =
     (case graphqlQuery R ''ApiGetActiveApplications'' applicationsQuery
             (ApplicationsVariables cursor 100) False w of
        (Inl e, w1) \<Rightarrow> Some (Inl e, allApplications, w1)
      | (Inr (ApplicationsData page), w1) \<Rightarrow>
          if moreDataAvailable page
          then fetchApplicationPages R (allApplications @ results page) (nextCursor page) w1
          else Some (Inr (), allApplications @ results page, w1)
      | (Inr other, w1) \<Rightarrow> Some (Inl TypeError, allApplications, w1))"

definition emptyResult :: PipelineFetchResult where
  "emptyResult = \<lparr>companies = [], jobs = [], candidates = []\<rparr>"

text \<open>Step 3 of \<open>fetchPipelineForOrg\<close>: the organization name, when the session user is in \<open>orgId\<close>.\<close>

definition fetchOrgName :: "'s remote \<Rightarrow> string \<Rightarrow> 's world \<Rightarrow> string option \<times> 's world" where
  "fetchOrgName R orgIdArg w =
     (case graphqlQuery R ''ApiGetSessionUser'' sessionUserQuery NoVariables False w of
        (Inr (SessionUserData u), w1) \<Rightarrow>
          (if organizationId u = orgIdArg then organizationName u else None, w1)
      | (other, w1) \<Rightarrow> (None, w1))"

definition fetchPipelineForOrg ::
  "'s remote \<Rightarrow> env \<Rightarrow> string \<Rightarrow> string option \<Rightarrow> 's world
     \<Rightarrow> ((error + PipelineFetchResult) \<times> 's world) option" where
  "fetchPipelineForOrg R E orgIdArg userIdArg w =
     (case (case userIdArg of
              Some uid \<Rightarrow>
                if uid \<noteq> [] \<and> orgIdArg \<noteq> ''default''
                then (case switchOrgContext R uid w of
                        (Inl e, w1) \<Rightarrow> (Inl e, w1)
                      | (Inr u, w1) \<Rightarrow> (Inr True, w1))
                else (Inr False, w)
            | None \<Rightarrow> (Inr False, w)) of
        (Inl e, w1) \<Rightarrow> Some (Inr emptyResult, w1)
      | (Inr switchedOrg, w1) \<Rightarrow>
          (case graphqlQuery R ''ApiOpenJobs'' openJobsQuery (OpenJobsVariables True False)
                  switchedOrg w1 of
             (Inl e, w2) \<Rightarrow> Some (Inl e, w2)
           | (Inr (JobsPipelinesData jobsPipelines), w2) \<Rightarrow>
               (case fetchApplicationPages R [] None w2 of
                  None \<Rightarrow> None
                | Some (r, allApplications, w3) \<Rightarrow>
                    (case fetchOrgName R orgIdArg w3 of
                       (orgNameV, w4) \<Rightarrow>
                         Some (Inr (normalizePipelineData E jobsPipelines allApplications
                                      orgIdArg orgNameV), w4)))
           | (Inr other, w2) \<Rightarrow> Some (Inl TypeError, w2)))"

section \<open>Enrichment\<close>

definition feedbackFieldNames :: "string list" where
  "feedbackFieldNames =
     [''overallFeedback'', ''overall_feedback'', ''feedback'', ''comments'', ''notes'',
      ''assessment'', ''evaluation'']"

text \<open>
  Reading a member of \<open>null\<close> or \<open>undefined\<close> throws a \<open>TypeError\<close>. \<open>bindE\<close> is
  sequencing with an error outcome, \<open>mapE\<close> a callback run over an array in order, up
  to the first throw.
\<close>

definition deref :: "'a option \<Rightarrow> error + 'a" where
  "deref x = (case x of None \<Rightarrow> Inl TypeError | Some v \<Rightarrow> Inr v)"

definition bindE :: "error + 'a \<Rightarrow> ('a \<Rightarrow> error + 'b) \<Rightarrow> error + 'b" where
  "bindE r f = (case r of Inl e \<Rightarrow> Inl e | Inr v \<Rightarrow> f v)"

fun mapE :: "('a \<Rightarrow> error + 'b) \<Rightarrow> 'a list \<Rightarrow> error + 'b list" where
  "mapE f [] = Inr []"
| "mapE f (x # xs) = bindE (f x) (\<lambda>y. bindE (mapE f xs) (\<lambda>ys. Inr (y # ys)))"

definition entryFeedback :: "field_entry \<Rightarrow> string option" where
  "entryFeedback entry =
     (case field entry of
        None \<Rightarrow> None
      | Some f \<Rightarrow>
          if f = [] then None
          else if list_ex (\<lambda>name. str_includes (toLowerCase f) name) feedbackFieldNames then
            (case fieldValue entry of
               Some v \<Rightarrow> if v \<noteq> [] \<and> trim v \<noteq> [] then Some (trim v) else None
             | None \<Rightarrow> None)
          else None)"

text \<open>The loop \<open>for (const entry of ...)\<close>, left by \<open>return\<close> at the first feedback text.\<close>

fun firstFeedback :: "field_entry option list \<Rightarrow> error + string option" where
  "firstFeedback [] = Inr None"
| "firstFeedback (entry # rest) =
     bindE (deref entry) (\<lambda>present.
       case entryFeedback present of
         Some v \<Rightarrow> Inr (Some v)
       | None \<Rightarrow> firstFeedback rest)"

definition orEmpty :: "'a list option \<Rightarrow> 'a list" where
  "orEmpty xs = (case xs of Some ys \<Rightarrow> ys | None \<Rightarrow> [])"

text \<open>The loop \<open>for (const section of submittedFormRender.sections)\<close>.\<close>

fun firstSectionFeedback :: "form_section option list \<Rightarrow> error + string option" where
  "firstSectionFeedback [] = Inr None"
| "firstSectionFeedback (section # rest) =
     bindE (deref section) (\<lambda>present.
     bindE (firstFeedback (orEmpty (fs_fieldEntries present))) (\<lambda>found.
       case found of
         Some v \<Rightarrow> Inr (Some v)
       | None \<Rightarrow> firstSectionFeedback rest))"

definition extractFeedbackText :: "form_render option \<Rightarrow> error + string option" where
  "extractFeedbackText submitted =
     (case submitted of
        None \<Rightarrow> Inr None
      | Some render \<Rightarrow>
          bindE (firstFeedback (orEmpty (fieldEntries render))) (\<lambda>found.
            case found of
              Some v \<Rightarrow> Inr (Some v)
            | None \<Rightarrow> firstSectionFeedback (orEmpty (sections render))))"

text \<open>What \<open>fetchApplicationDetails\<close> returns when it does not return \<open>null\<close>.\<close>

record details =
  d_interviewEvents :: "detail_event option list"
  d_applicationStatus :: "app_status option"
  d_currentInterviewStage :: "detail_stage option"
  d_interviewPlan :: "interview_plan option"
  d_job :: "detail_job option"

definition detailsOf :: "application_detail \<Rightarrow> details" where
  "detailsOf a =
     \<lparr>d_interviewEvents = orEmpty (ad_interviewEvents a),
      d_applicationStatus = ad_applicationStatus a,
      d_currentInterviewStage = ad_currentInterviewStage a,
      d_interviewPlan = ad_interviewPlan a,
      d_job = ad_job a\<rparr>"

text \<open>
  \<open>fetchApplicationDetails\<close>: the whole body is in a \<open>try\<close> whose \<open>catch\<close> returns
  \<open>null\<close>, so it never throws. The query document is read from a file
  (\<open>queryFile\<close>, \<open>None\<close> when the file cannot be read).
\<close>

definition fetchApplicationDetails ::
  "'s remote \<Rightarrow> env \<Rightarrow> string \<Rightarrow> 's world \<Rightarrow> details option \<times> 's world" where
  "fetchApplicationDetails R E appId w =
     (case queryFile E of
        None \<Rightarrow> (None, w)
      | Some q \<Rightarrow>
          (case graphqlQuery R ''ApiApplication'' (QueryFromFile q) (ApplicationVariables appId)
                  False w of
             (Inr (ApplicationData (Some a)), w1) \<Rightarrow> (Some (detailsOf a), w1)
           | (other, w1) \<Rightarrow> (None, w1)))"

section \<open>Building the enriched record\<close>

text \<open>
  The code of \<open>enrichCandidatesWithDetails\<close> between the detail fetch and the
  \<open>return\<close> of the enriched record. It is in no \<open>try\<close>: where it reads a member of
  \<open>null\<close> the \<open>TypeError\<close> rejects the promise of the record, and with it
  \<open>Promise.all\<close> and the call of \<open>enrichCandidatesWithDetails\<close>.
\<close>

definition interviewerSummaryOf :: "interviewer_event option \<Rightarrow> error + InterviewerSummary" where
  "interviewerSummaryOf entry =
     bindE (deref entry) (\<lambda>ie.
     bindE (deref (ie_interviewer ie)) (\<lambda>person.
       Inr \<lparr>is_name = iv_firstName person @ '' '' @ iv_lastName person,
            is_email = iv_email person,
            is_overallRecommendation =
              orElse (Option.bind (scorecardSubmission ie) sc_overallRecommendation) None,
            is_isFeedbackSubmitted = ie_isFeedbackSubmitted ie\<rparr>))"

definition interviewEventOf :: "detail_event option \<Rightarrow> error + InterviewEvent" where
  "interviewEventOf entry =
     bindE (deref entry) (\<lambda>event.
     bindE (deref (de_interview event)) (\<lambda>interview.
     bindE (deref (interviewerEvents event)) (\<lambda>ies.
     bindE (mapE interviewerSummaryOf ies) (\<lambda>summaries.
       Inr \<lparr>ev_id = de_id event,
            ev_interviewTitle = di_title interview,
            ev_startTime = de_startTime event,
            ev_endTime = de_endTime event,
            interviewers = summaries\<rparr>))))"

text \<open>The feedback record of one interviewer event that passed the filter.\<close>

definition feedbackEntryOf :: "detail_event \<Rightarrow> interviewer_event \<Rightarrow> error + InterviewFeedback" where
  "feedbackEntryOf event ie =
     bindE (deref (de_interview event)) (\<lambda>interview.
     bindE (deref (ie_interviewer ie)) (\<lambda>person.
     bindE (extractFeedbackText (Option.bind (scorecardSubmission ie) submittedFormRender))
       (\<lambda>feedbackTextV.
       Inr \<lparr>fb_interviewTitle = di_title interview,
            fb_interviewer = iv_firstName person @ '' '' @ iv_lastName person,
            fb_interviewerEmail = iv_email person,
            fb_submittedAt =
              (case orElse (Option.bind (scorecardSubmission ie) sc_submittedAt)
                      (Some (de_endTime event)) of
                 Some t \<Rightarrow> t
               | None \<Rightarrow> de_endTime event),
            fb_overallRecommendation =
              orElse (Option.bind (scorecardSubmission ie) sc_overallRecommendation) None,
            feedbackText = feedbackTextV,
            fb_isFeedbackSubmitted = ie_isFeedbackSubmitted ie\<rparr>)))"

text \<open>
  The callback of \<open>flatMap\<close>: the filter \<open>ie.isFeedbackSubmitted\<close> runs over all
  interviewer events (and throws on a \<open>null\<close> one), the \<open>map\<close> over those it kept.
\<close>

definition feedbackOf :: "detail_event option \<Rightarrow> error + InterviewFeedback list" where
  "feedbackOf entry =
     bindE (deref entry) (\<lambda>event.
     bindE (deref (interviewerEvents event)) (\<lambda>ies.
     bindE (mapE deref ies) (\<lambda>present.
       mapE (feedbackEntryOf event) (filter ie_isFeedbackSubmitted present))))"

text \<open>
  The comparator of the sort, \<open>new Date(b.submittedAt).getTime() - new Date(a.submittedAt).getTime()\<close>;
  a \<open>NaN\<close> difference counts as 0. \<open>Array.prototype.sort\<close> is stable; it is modelled
  as a stable insertion sort, which is the sorted order whenever the dates parse.
\<close>

definition compareFeedback :: "env \<Rightarrow> InterviewFeedback \<Rightarrow> InterviewFeedback \<Rightarrow> int" where
  "compareFeedback E a b =
     (case (parseDate E (fb_submittedAt b), parseDate E (fb_submittedAt a)) of
        (Some tb, Some ta) \<Rightarrow> tb - ta
      | other \<Rightarrow> 0)"

fun insertFeedback :: "env \<Rightarrow> InterviewFeedback \<Rightarrow> InterviewFeedback list \<Rightarrow> InterviewFeedback list" where
  "insertFeedback E a [] = [a]"
| "insertFeedback E a (b # bs) =
     (if compareFeedback E a b \<le> 0 then a # b # bs else b # insertFeedback E a bs)"

definition sortFeedback :: "env \<Rightarrow> InterviewFeedback list \<Rightarrow> InterviewFeedback list" where
  "sortFeedback E fs = foldr (insertFeedback E) fs []"

definition latestFeedbackOf :: "env \<Rightarrow> InterviewFeedback list \<Rightarrow> InterviewFeedback option" where
  "latestFeedbackOf E fs =
     (case sortFeedback E (filter (\<lambda>f. fb_submittedAt f \<noteq> []) fs) of
        [] \<Rightarrow> None
      | f # rest \<Rightarrow> Some f)"

definition digitChars :: string where
  "digitChars = ''0123456789''"

fun showNat :: "nat \<Rightarrow> string" where
  "showNat n = (if n < 10 then [digitChars ! n] else showNat (n div 10) @ [digitChars ! (n mod 10)])"

declare showNat.simps [simp del]

text \<open>
  \<open>interviewPlansWithActivities.find((p) => p.isDefault === true)\<close>: the callback
  runs up to the first default plan and throws on a \<open>null\<close> element before it.
\<close>

fun findDefaultPlan :: "plan_with_activities option list \<Rightarrow> error + plan_with_activities option" where
  "findDefaultPlan [] = Inr None"
| "findDefaultPlan (p # rest) =
     bindE (deref p) (\<lambda>present.
       if isDefault present then Inr (Some present) else findDefaultPlan rest)"

text \<open>
  The variable \<open>interviewPlan\<close> after the fallback, as the \<open>interviewStages\<close> member
  of the plan it holds (\<open>None\<close> when it holds no plan): the application's plan, or the
  job's default plan when that has a truthy \<open>interviewStages\<close>.
\<close>

definition planStagesOf :: "details \<Rightarrow> error + stage_list option" where
  "planStagesOf d =
     (case d_interviewPlan d of
        Some p \<Rightarrow> Inr (Some (interviewStages p))
      | None \<Rightarrow>
          (case Option.bind (d_job d) interviewPlansWithActivities of
             None \<Rightarrow> Inr None
           | Some plans \<Rightarrow>
               bindE (findDefaultPlan plans) (\<lambda>defaultPlanConfig.
                 case Option.bind (Option.bind defaultPlanConfig pa_interviewPlan)
                        jip_interviewStages of
                   None \<Rightarrow> Inr None
                 | Some stages \<Rightarrow> Inr (Some (Some stages)))))"

fun findIndex :: "('a \<Rightarrow> bool) \<Rightarrow> 'a list \<Rightarrow> nat option" where
  "findIndex P [] = None"
| "findIndex P (x # xs) = (if P x then Some 0 else map_option Suc (findIndex P xs))"

text \<open>
  \<open>currentStageIndex\<close>, \<open>totalStages\<close> and \<open>stageProgress\<close>. \<open>allStages.filter\<close>
  throws when \<open>interviewStages\<close> is \<open>null\<close> and when one of the stages is.
\<close>

definition stagePosition :: "details \<Rightarrow> error + (nat option \<times> nat option \<times> string option)" where
  "stagePosition d =
     bindE (planStagesOf d) (\<lambda>interviewPlan.
       case (interviewPlan, d_currentInterviewStage d) of
         (Some planStages, Some cur) \<Rightarrow>
           bindE (deref planStages) (\<lambda>entries.
           bindE (mapE deref entries) (\<lambda>allStages.
             (let stages = filter (\<lambda>s. ps_stageType s = ''Active'' \<or> ps_stageType s = ''Offer'')
                             allStages;
                  total = length stages
              in case findIndex (\<lambda>s. ps_id s = ds_id cur) stages of
                   None \<Rightarrow> Inr (None, Some total, None)
                 | Some stageIdx \<Rightarrow>
                     Inr (Some (stageIdx + 1), Some total,
                          Some (showNat (stageIdx + 1) @ ''/'' @ showNat total)))))
       | other \<Rightarrow> Inr (None, None, None))"

text \<open>
  Everything the record-building code reads from the details, in the order of the
  source: the interview events, the feedback, the stage position. This is the part
  that can throw; the sort between the feedback and the stage position cannot.
\<close>

definition readDetails ::
  "details \<Rightarrow> error + (InterviewEvent list \<times> InterviewFeedback list
                          \<times> nat option \<times> nat option \<times> string option)" where
  "readDetails d =
     bindE (mapE interviewEventOf (d_interviewEvents d)) (\<lambda>events.
     bindE (mapE feedbackOf (d_interviewEvents d)) (\<lambda>perEvent.
     bindE (stagePosition d) (\<lambda>position.
       Inr (events, concat perEvent, position))))"

definition enrichWith :: "env \<Rightarrow> details \<Rightarrow> Candidate \<Rightarrow> error + Candidate" where
  "enrichWith E d candidate =
     bindE (readDetails d) (\<lambda>(events, feedback, stageIndexV, totalStagesV, stageProgressV).
       (let latestFeedback = latestFeedbackOf E feedback
        in Inr (candidate
                 \<lparr>pipelineStage :=
                    orElse (map_option ds_title (d_currentInterviewStage d)) (pipelineStage candidate),
                  currentStageIndex := stageIndexV,
                  totalStages := totalStagesV,
                  stageProgress := stageProgressV,
                  interviewEvents := Some events,
                  allFeedback := Some feedback,
                  latestOverallRecommendation :=
                    orElse (Option.bind latestFeedback fb_overallRecommendation) None,
                  latestFeedbackAuthor := orElse (map_option fb_interviewer latestFeedback) None,
                  latestFeedbackDate := orElse (map_option fb_submittedAt latestFeedback) None,
                  feedbackCount := Some (length feedback)\<rparr>)))"

text \<open>The async function mapped over a batch: it returns a record or throws.\<close>

definition enrichOne ::
  "'s remote \<Rightarrow> env \<Rightarrow> bool \<Rightarrow> Candidate \<Rightarrow> 's world \<Rightarrow> (error + Candidate) \<times> 's world" where
  "enrichOne R E fetchAll candidate w =
     (if \<not> fetchAll \<and> \<not> needsScheduling candidate then (Inr candidate, w)
      else (case fetchApplicationDetails R E (applicationId candidate) w of
              (None, w1) \<Rightarrow> (Inr candidate, w1)
            | (Some d, w1) \<Rightarrow> (enrichWith E d candidate, w1)))"

text \<open>
  \<open>batch.map(async ...)\<close>: every request of the batch is issued, whatever becomes of
  the others, and the requests are in flight together; the model runs them one after
  the other, in the order of the batch. The results are in the order of the batch
  whatever the order of the answers.
\<close>

fun processBatch ::
  "'s remote \<Rightarrow> env \<Rightarrow> bool \<Rightarrow> Candidate list \<Rightarrow> 's world
     \<Rightarrow> (error + Candidate) list \<times> 's world" where
  "processBatch R E fetchAll [] w = ([], w)"
| "processBatch R E fetchAll (candidate # rest) w =
     (case enrichOne R E fetchAll candidate w of
        (c', w1) \<Rightarrow>
          (case processBatch R E fetchAll rest w1 of
             (cs', w2) \<Rightarrow> (c' # cs', w2)))"

text \<open>\<open>Promise.all\<close>: the array of the values, or the rejection of a promise that rejected.\<close>

definition promiseAll :: "(error + 'a) list \<Rightarrow> error + 'a list" where
  "promiseAll settled = mapE (\<lambda>r. r) settled"

text \<open>\<open>xs.slice(start, end)\<close> on integers, negative indices counting from the end.\<close>

definition js_slice :: "'a list \<Rightarrow> int \<Rightarrow> int \<Rightarrow> 'a list" where
  "js_slice xs start end =
     (let n = int (length xs);
          k = (if start < 0 then max (n + start) 0 else min start n);
          f = (if end < 0 then max (n + end) 0 else min end n)
      in take (nat (f - k)) (drop (nat k) xs))"

text \<open>
  The batch loop \<open>for (let i = 0; i < orgCandidates.length; i += maxConcurrent)\<close>. It
  ends only when \<open>i\<close> grows, so it is a partial function. A rejected \<open>Promise.all\<close>
  leaves the loop and the function.
\<close>

partial_function (option) enrichBatches ::
  "'s remote \<Rightarrow> env \<Rightarrow> bool \<Rightarrow> int \<Rightarrow> Candidate list \<Rightarrow> int \<Rightarrow> Candidate list \<Rightarrow> 's world
     \<Rightarrow> ((error + Candidate list) \<times> 's world) option" where
  "enrichBatches R E fetchAll maxConcurrent orgCandidates i enrichedCandidates w =
     (if i < int (length orgCandidates) then
        (case processBatch R E fetchAll (js_slice orgCandidates i (i + maxConcurrent)) w of
           (settled, w1) \<Rightarrow>
             (case promiseAll settled of
                Inl e \<Rightarrow> Some (Inl e, w1)
              | Inr enrichedBatch \<Rightarrow>
                  enrichBatches R E fetchAll maxConcurrent orgCandidates (i + maxConcurrent)
                    (enrichedCandidates @ enrichedBatch) w1))
      else Some (Inr enrichedCandidates, w))"

text \<open>The \<open>Map\<close> from tenant to its candidates, in the order the tenants first appear.\<close>

fun addToGroup :: "Candidate \<Rightarrow> (string \<times> Candidate list) list \<Rightarrow> (string \<times> Candidate list) list" where
  "addToGroup c [] = [(orgId c, [c])]"
| "addToGroup c ((k, cs) # gs) =
     (if k = orgId c then (k, cs @ [c]) # gs else (k, cs) # addToGroup c gs)"

definition groupByOrg :: "Candidate list \<Rightarrow> (string \<times> Candidate list) list" where
  "groupByOrg cs = fold addToGroup cs []"

text \<open>\<open>new Map(orgInfos.map(org => [org.id, org.userId]))\<close>: the last entry of a key wins.\<close>

definition orgIdToUserId :: "OrgInfoWithUserId list \<Rightarrow> string \<Rightarrow> string option" where
  "orgIdToUserId orgInfos = map_of (rev (map (\<lambda>org. (org_id org, userId org)) orgInfos))"

fun enrichGroups ::
  "'s remote \<Rightarrow> env \<Rightarrow> bool \<Rightarrow> int \<Rightarrow> OrgInfoWithUserId list \<Rightarrow> (string \<times> Candidate list) list
     \<Rightarrow> string option \<Rightarrow> Candidate list \<Rightarrow> 's world
     \<Rightarrow> ((error + Candidate list) \<times> 's world) option" where
  "enrichGroups R E fetchAll maxConcurrent orgInfos [] currentOrgContext enrichedCandidates w =
     Some (Inr enrichedCandidates, w)"
| "enrichGroups R E fetchAll maxConcurrent orgInfos ((orgIdV, orgCandidates) # rest)
       currentOrgContext enrichedCandidates w =
     (if \<not> truthy (orgIdToUserId orgInfos orgIdV) then
        enrichGroups R E fetchAll maxConcurrent orgInfos rest currentOrgContext
          (enrichedCandidates @ orgCandidates) w
      else
        (case (if currentOrgContext \<noteq> Some orgIdV
               then (case orgIdToUserId orgInfos orgIdV of
                       Some uid \<Rightarrow> switchOrgContext R uid w
                     | None \<Rightarrow> (Inr (), w))
               else (Inr (), w)) of
           (Inl e, w1) \<Rightarrow>
             enrichGroups R E fetchAll maxConcurrent orgInfos rest currentOrgContext
               (enrichedCandidates @ orgCandidates) w1
         | (Inr u, w1) \<Rightarrow>
             (case enrichBatches R E fetchAll maxConcurrent orgCandidates 0 enrichedCandidates w1 of
                None \<Rightarrow> None
              | Some (Inl e, w2) \<Rightarrow> Some (Inl e, w2)
              | Some (Inr enriched1, w2) \<Rightarrow>
                  enrichGroups R E fetchAll maxConcurrent orgInfos rest (Some orgIdV) enriched1 w2)))"

text \<open>The default value of the option \<open>maxConcurrent\<close>.\<close>

definition defaultMaxConcurrent :: int where
  "defaultMaxConcurrent = 5"

definition enrichCandidatesWithDetails ::
  "'s remote \<Rightarrow> env \<Rightarrow> Candidate list \<Rightarrow> OrgInfoWithUserId list \<Rightarrow> int \<Rightarrow> bool \<Rightarrow> 's world
     \<Rightarrow> ((error + Candidate list) \<times> 's world) option" where
  "enrichCandidatesWithDetails R E cands orgInfos maxConcurrent fetchAll w =
     enrichGroups R E fetchAll maxConcurrent orgInfos (groupByOrg cands) None [] w"

section \<open>The extraction run (api-extract.ts)\<close>

text \<open>
  \<open>ExtractOptions\<close>. A numeric option is \<open>None\<close> when it is missing or \<open>NaN\<close>
  (\<open>parseInt\<close> of the command line), both falsy.
\<close>

record ExtractOptions =
  csv :: "string option"
  json :: "string option"
  maxOrgs :: "int option"
  retries :: "int option"
  detailed :: bool
  detailedConcurrent :: "int option"
  orgFilter :: "string option"

text \<open>\<open>n || d\<close> on a number: \<open>d\<close> when \<open>n\<close> is missing, \<open>NaN\<close> or 0.\<close>

definition numOr :: "int option \<Rightarrow> int \<Rightarrow> int" where
  "numOr n d = (case n of None \<Rightarrow> d | Some k \<Rightarrow> if k = 0 then d else k)"

text \<open>The four accumulators of \<open>extractCommand\<close>.\<close>

record aggregate =
  allCompanies :: "Company list"
  allJobs :: "Job list"
  allCandidates :: "Candidate list"
  failedOrgs :: "string list"

definition orgDisplayName :: "OrgInfoWithUserId \<Rightarrow> string" where
  "orgDisplayName orgInfo = (if org_name orgInfo \<noteq> [] then org_name orgInfo else org_id orgInfo)"

text \<open>
  The retry loop \<open>for (attempt = 1; attempt <= maxRetries && !success; attempt++)\<close>:
  a returned result ends it (\<open>success = true\<close>), a thrown error is retried after a
  pause or, on the last attempt, recorded in \<open>failedOrgs\<close>.
\<close>

function extractAttempts ::
  "'s remote \<Rightarrow> env \<Rightarrow> OrgInfoWithUserId \<Rightarrow> int \<Rightarrow> int \<Rightarrow> aggregate \<Rightarrow> 's world
     \<Rightarrow> (aggregate \<times> 's world) option" where
  "extractAttempts R E orgInfo maxRetries attempt agg w =
     (if attempt \<le> maxRetries then
        (case fetchPipelineForOrg R E (org_id orgInfo) (Some (userId orgInfo)) w of
           None \<Rightarrow> None
         | Some (Inr r, w1) \<Rightarrow>
             Some (agg\<lparr>allCompanies := allCompanies agg @ companies r,
                        allJobs := allJobs agg @ jobs r,
                        allCandidates := allCandidates agg @ candidates r\<rparr>, w1)
         | Some (Inl e, w1) \<Rightarrow>
             if attempt = maxRetries
             then Some (agg\<lparr>failedOrgs := failedOrgs agg @ [orgDisplayName orgInfo]\<rparr>, w1)
             else extractAttempts R E orgInfo maxRetries (attempt + 1) agg
                    (emit (Sleep (nat (1000 * attempt))) w1))
      else Some (agg, w))"
  by pat_completeness auto
termination
  by (relation "measure (\<lambda>(R, E, orgInfo, maxRetries, attempt, agg, w). nat (maxRetries + 1 - attempt))")
     auto

declare extractAttempts.simps [simp del]

text \<open>
  The loop over \<open>orgsToProcess\<close>. A tenant without user id is recorded as failed and
  skipped (\<open>continue\<close>, which also skips the pause); after any other tenant but the
  last there is a pause of 500 ms.
\<close>

fun processOrgs ::
  "'s remote \<Rightarrow> env \<Rightarrow> int \<Rightarrow> OrgInfoWithUserId list \<Rightarrow> aggregate \<Rightarrow> 's world
     \<Rightarrow> (aggregate \<times> 's world) option" where
  "processOrgs R E maxRetries [] agg w = Some (agg, w)"
| "processOrgs R E maxRetries (orgInfo # rest) agg w =
     (if userId orgInfo = [] then
        processOrgs R E maxRetries rest
          (agg\<lparr>failedOrgs := failedOrgs agg @ [orgDisplayName orgInfo @ '' - no userId'']\<rparr>) w
      else
        (case extractAttempts R E orgInfo maxRetries 1 agg w of
           None \<Rightarrow> None
         | Some (agg1, w1) \<Rightarrow>
             processOrgs R E maxRetries rest agg1
               (if rest \<noteq> [] then emit (Sleep 500) w1 else w1)))"

text \<open>The name filter and the cap on the number of tenants, applied before the loop.\<close>

definition filterOrgs :: "string \<Rightarrow> OrgInfoWithUserId list \<Rightarrow> OrgInfoWithUserId list" where
  "filterOrgs f orgs =
     filter (\<lambda>org. str_includes (toLowerCase (org_name org)) (toLowerCase f)) orgs"

definition capOrgs :: "int option \<Rightarrow> OrgInfoWithUserId list \<Rightarrow> OrgInfoWithUserId list" where
  "capOrgs m orgs =
     (case m of
        None \<Rightarrow> orgs
      | Some k \<Rightarrow> if k = 0 then orgs else js_slice orgs 0 k)"

text \<open>
  How a run ends: one of the early \<open>return\<close>s with \<open>process.exitCode = 1\<close>, or the
  export. \<open>exported\<close> is what is handed to \<open>exportJSON\<close> and \<open>exportCSV\<close>.
\<close>

datatype stop_reason =
    NoSessionFound
  | SessionMissingAuthCookies
  | FailedToDiscoverOrgs error
  | NoOrganizationsFound
  | NoOrganizationsMatching string
  | NoCandidatesExtracted

record run_result =
  exitCode :: nat
  stopped :: "stop_reason option"
  aggregated :: aggregate
  exported :: "PipelineFetchResult option"

definition emptyAggregate :: aggregate where
  "emptyAggregate = \<lparr>allCompanies = [], allJobs = [], allCandidates = [], failedOrgs = []\<rparr>"

definition stopWith :: "stop_reason \<Rightarrow> aggregate \<Rightarrow> run_result" where
  "stopWith r agg = \<lparr>exitCode = 1, stopped = Some r, aggregated = agg, exported = None\<rparr>"

text \<open>
  The part of \<open>extractCommand\<close> after the loop: the summary, the enrichment when
  \<open>detailed\<close> is set (always with \<open>fetchAll: true\<close>), the export. The enrichment is
  in a \<open>try\<close>: when it throws, \<open>allCandidates\<close> keeps the records of the loop
  ("Continuing with basic data").
\<close>

definition finishRun ::
  "'s remote \<Rightarrow> env \<Rightarrow> ExtractOptions \<Rightarrow> OrgInfoWithUserId list \<Rightarrow> aggregate \<Rightarrow> 's world
     \<Rightarrow> (run_result \<times> 's world) option" where
  "finishRun R E options orgInfos agg w =
     (if length (allCandidates agg) = 0 then Some (stopWith NoCandidatesExtracted agg, w)
      else
        (case (if detailed options
               then (case enrichCandidatesWithDetails R E (allCandidates agg) orgInfos
                            (numOr (detailedConcurrent options) 5) True w of
                       None \<Rightarrow> None
                     | Some (Inl e, w1) \<Rightarrow> Some (allCandidates agg, w1)
                     | Some (Inr enriched, w1) \<Rightarrow> Some (enriched, w1))
               else Some (allCandidates agg, w)) of
           None \<Rightarrow> None
         | Some (cands, w1) \<Rightarrow>
             Some (\<lparr>exitCode = 0, stopped = None,
                    aggregated = agg\<lparr>allCandidates := cands\<rparr>,
                    exported =
                      (if truthy (json options) \<or> truthy (csv options)
                       then Some \<lparr>companies = allCompanies agg, jobs = allJobs agg,
                                  candidates = cands\<rparr>
                       else None)\<rparr>, w1)))"

text \<open>
  \<open>extractCommand\<close>. The stored session comes from \<open>loadSession\<close>, which is outside
  this model: \<open>None\<close> when there is no session file.
\<close>

definition extractCommand ::
  "'s remote \<Rightarrow> env \<Rightarrow> ExtractOptions \<Rightarrow> AshbySession option \<Rightarrow> 's \<Rightarrow> (run_result \<times> 's world) option" where
  "extractCommand R E options loaded s0 =
     (case loaded of
        None \<Rightarrow>
          Some (stopWith NoSessionFound emptyAggregate,
                \<lparr>session = \<lparr>cookies = Map.empty, csrfToken = None, orgIds = []\<rparr>,
                 server = s0, trace = []\<rparr>)
      | Some sess \<Rightarrow>
          (let w = \<lparr>session = sess, server = s0, trace = []\<rparr>
           in if \<not> hasAuthCookie sess then Some (stopWith SessionMissingAuthCookies emptyAggregate, w)
              else
                (case fetchAllAvailableOrgs R w of
                   (Inl e, w1) \<Rightarrow> Some (stopWith (FailedToDiscoverOrgs e) emptyAggregate, w1)
                 | (Inr orgInfos, w1) \<Rightarrow>
                     if length orgInfos = 0 then Some (stopWith NoOrganizationsFound emptyAggregate, w1)
                     else
                       (let filtered = (case orgFilter options of
                                          None \<Rightarrow> orgInfos
                                        | Some f \<Rightarrow> if f = [] then orgInfos else filterOrgs f orgInfos)
                        in if truthy (orgFilter options) \<and> length filtered = 0
                           then Some (stopWith
                                        (NoOrganizationsMatching
                                           (case orgFilter options of Some f \<Rightarrow> f | None \<Rightarrow> []))
                                        emptyAggregate, w1)
                           else
                             (case processOrgs R E (numOr (retries options) 1)
                                     (capOrgs (maxOrgs options) filtered) emptyAggregate w1 of
                                None \<Rightarrow> None
                              | Some (agg, w2) \<Rightarrow> finishRun R E options orgInfos agg w2)))))"

section \<open>Observations on the trace\<close>

fun isTokenFetch :: "event \<Rightarrow> bool" where
  "isTokenFetch (TokenFetch st tok) = True"
| "isTokenFetch e = False"

fun isQuery :: "event \<Rightarrow> bool" where
  "isQuery (Query opName hdr st) = True"
| "isQuery e = False"

fun isTokenFetchOrSleep :: "event \<Rightarrow> bool" where
  "isTokenFetchOrSleep (TokenFetch st tok) = True"
| "isTokenFetchOrSleep (Sleep ms) = True"
| "isTokenFetchOrSleep e = False"

text \<open>The tokens the token fetches of a trace brought back.\<close>

fun fetchedTokens :: "event list \<Rightarrow> string list" where
  "fetchedTokens [] = []"
| "fetchedTokens (TokenFetch st (Some tok) # es) = tok # fetchedTokens es"
| "fetchedTokens (e # es) = fetchedTokens es"

text \<open>
  In a trace of token fetches, a fetch is followed by anything (the pause and the next
  attempt) only when it was answered with a failure status other than 401.
\<close>

fun noRetryAfter401 :: "event list \<Rightarrow> bool" where
  "noRetryAfter401 [] = True"
| "noRetryAfter401 (TokenFetch st tok # es) =
     ((es = [] \<or> (case st of None \<Rightarrow> False | Some s \<Rightarrow> \<not> ok s \<and> s \<noteq> 401))
      \<and> noRetryAfter401 es)"
| "noRetryAfter401 (e # es) = noRetryAfter401 es"

text \<open>
  The tokens fetched since the last switch request that the remote accepted
  (\<open>None\<close> as long as there was none), after one more event.
\<close>

fun sinceSwitch :: "string list option \<Rightarrow> event \<Rightarrow> string list option" where
  "sinceSwitch fresh (ChangeUser uid (Some st)) = (if ok st then Some [] else fresh)"
| "sinceSwitch fresh (TokenFetch st (Some tok)) = map_option (\<lambda>toks. tok # toks) fresh"
| "sinceSwitch fresh e = fresh"

text \<open>
  A query is in order when no switch was accepted yet, or when it carries a token
  fetched since the last accepted switch; a query without the header is in order
  when the token fetched since then is the empty string, which is never sent.
\<close>

fun queryInOrder :: "string list option \<Rightarrow> event \<Rightarrow> bool" where
  "queryInOrder None e = True"
| "queryInOrder (Some toks) (Query opName (Some t) st) = (t \<in> set toks)"
| "queryInOrder (Some toks) (Query opName None st) = ([] \<in> set toks)"
| "queryInOrder (Some toks) e = True"

fun refreshedBeforeQueries :: "string list option \<Rightarrow> event list \<Rightarrow> bool" where
  "refreshedBeforeQueries fresh [] = True"
| "refreshedBeforeQueries fresh (e # es) =
     (queryInOrder fresh e \<and> refreshedBeforeQueries (sinceSwitch fresh e) es)"

section \<open>Remote applications used in examples\<close>

text \<open>A stored session with the authentication cookie and no token.\<close>

definition sampleSession :: AshbySession where
  "sampleSession =
     \<lparr>cookies = [''ashby_session_token'' \<mapsto> ''s%3Aabc''], csrfToken = None, orgIds = []\<rparr>"

definition sampleEnv :: env where
  "sampleEnv = \<lparr>now = 0, parseDate = (\<lambda>s. None), queryFile = Some ''query ApiApplication''\<rparr>"

definition startWorld :: "'s \<Rightarrow> 's world" where
  "startWorld s0 = \<lparr>session = sampleSession, server = s0, trace = []\<rparr>"

text \<open>A token endpoint that answers 500 to the first call and 401 to every later one.\<close>

definition expiringRemote :: "nat remote" where
  "expiringRemote =
     \<lparr>csrf_token_endpoint = (\<lambda>h k. (Response (if k = 0 then 500 else 401) None None, Suc k)),
      change_user_endpoint = (\<lambda>uid h k. (Response 200 None (), k)),
      available_identities_endpoint = (\<lambda>h k. (Response 200 None (Some []), k)),
      graphql_endpoint = (\<lambda>rq h k. (Response 401 None None, k))\<rparr>"

definition sampleApplication :: "string \<Rightarrow> ApplicationResult" where
  "sampleApplication i =
     \<lparr>ar_id = ''app-'' @ i,
      ar_job = \<lparr>aj_id = ''job-1'', aj_title = ''Engineer''\<rparr>,
      ar_candidate = \<lparr>ac_id = ''cand-'' @ i, ac_name = ''Candidate '' @ i,
                      ac_company = None, isBlinded = False\<rparr>,
      ar_source = None,
      creditedToUser = None,
      applicationStatus = None,
      createdAt = ''2024-01-01T00:00:00Z'',
      currentInterviewStage = None\<rparr>"

definition gqlOk :: "gql_data \<Rightarrow> 's \<Rightarrow> gql_json option fetched \<times> 's" where
  "gqlOk d s = (Response 200 None (Some \<lparr>data = d, errors = None\<rparr>), s)"

text \<open>
  A listing of 120 records served in two pages: 100 records and the cursor
  \<open>cursor-1\<close>, then 20 records and no more data.
\<close>

definition firstPage :: applications_page where
  "firstPage =
     \<lparr>results = map (\<lambda>k. sampleApplication (showNat k)) [0..<100],
      nextCursor = Some ''cursor-1'', moreDataAvailable = True, opaqueFilter = None\<rparr>"

definition secondPage :: applications_page where
  "secondPage =
     \<lparr>results = map (\<lambda>k. sampleApplication (showNat k)) [100..<120],
      nextCursor = None, moreDataAvailable = False, opaqueFilter = None\<rparr>"

definition twoPageRemote :: "unit remote" where
  "twoPageRemote =
     \<lparr>csrf_token_endpoint = (\<lambda>h s. (Response 200 None (Some ''token-1''), s)),
      change_user_endpoint = (\<lambda>uid h s. (Response 200 None (), s)),
      available_identities_endpoint = (\<lambda>h s. (Response 200 None (Some []), s)),
      graphql_endpoint =
        (\<lambda>rq h s. case variables rq of
                     ApplicationsVariables None lim \<Rightarrow> gqlOk (ApplicationsData firstPage) s
                   | ApplicationsVariables (Some c) lim \<Rightarrow>
                       if c = ''cursor-1'' then gqlOk (ApplicationsData secondPage) s
                       else gqlOk OtherData s
                   | other \<Rightarrow> gqlOk OtherData s)\<rparr>"

text \<open>
  A listing that always reports more data and always returns the same cursor.
\<close>

definition stuckPage :: applications_page where
  "stuckPage =
     \<lparr>results = [sampleApplication ''1''],
      nextCursor = Some ''cursor-1'', moreDataAvailable = True, opaqueFilter = None\<rparr>"

definition stuckRemote :: "unit remote" where
  "stuckRemote =
     \<lparr>csrf_token_endpoint = (\<lambda>h s. (Response 200 None (Some ''token-1''), s)),
      change_user_endpoint = (\<lambda>uid h s. (Response 200 None (), s)),
      available_identities_endpoint = (\<lambda>h s. (Response 200 None (Some []), s)),
      graphql_endpoint = (\<lambda>rq h s. gqlOk (ApplicationsData stuckPage) s)\<rparr>"

section \<open>Finite page sequences\<close>

text \<open>
  \<open>pageRun R c w ps r w'\<close>: asked for the listing from cursor \<open>c\<close> in world \<open>w\<close>, the
  remote serves the pages \<open>ps\<close>, each but the last reporting more data and each next
  request carrying the cursor of the page before; the sequence ends with a page that
  reports no more data (\<open>r = Inr ()\<close>) or with a failed query (\<open>r = Inl e\<close>).
\<close>

inductive pageRun ::
  "'s remote \<Rightarrow> string option \<Rightarrow> 's world \<Rightarrow> applications_page list \<Rightarrow> error + unit \<Rightarrow> 's world
     \<Rightarrow> bool" for R :: "'s remote" where
  lastPage:
    "graphqlQuery R ''ApiGetActiveApplications'' applicationsQuery
       (ApplicationsVariables c 100) False w = (Inr (ApplicationsData p), w1) \<Longrightarrow>
     \<not> moreDataAvailable p \<Longrightarrow>
     pageRun R c w [p] (Inr ()) w1"
| queryFailed:
    "graphqlQuery R ''ApiGetActiveApplications'' applicationsQuery
       (ApplicationsVariables c 100) False w = (Inl e, w1) \<Longrightarrow>
     pageRun R c w [] (Inl e) w1"
| notAPage:
    "graphqlQuery R ''ApiGetActiveApplications'' applicationsQuery
       (ApplicationsVariables c 100) False w = (Inr d, w1) \<Longrightarrow>
     (\<forall>p. d \<noteq> ApplicationsData p) \<Longrightarrow>
     pageRun R c w [] (Inl TypeError) w1"
| nextPage:
    "graphqlQuery R ''ApiGetActiveApplications'' applicationsQuery
       (ApplicationsVariables c 100) False w = (Inr (ApplicationsData p), w1) \<Longrightarrow>
     moreDataAvailable p \<Longrightarrow>
     pageRun R (nextCursor p) w1 ps r w' \<Longrightarrow>
     pageRun R c w (p # ps) r w'"

section \<open>Remote applications with tenants, used in examples\<close>

definition sampleJob :: "string \<Rightarrow> jobs_pipeline" where
  "sampleJob i =
     \<lparr>jp_jobId = ''job-'' @ i, jp_jobTitle = ''Engineer'', jobLocationName = None,
      customRequisitionId = None, confidential = False, userFollowsOrHasRole = True,
      applicationCount = 1\<rparr>"

text \<open>
  A remote whose session stays bound to the one organization \<open>org-other\<close>: it
  lists no identities, accepts every switch request without effect, and answers every
  query for \<open>org-other\<close>.
\<close>

definition singleTenantRemote :: "unit remote" where
  "singleTenantRemote =
     \<lparr>csrf_token_endpoint = (\<lambda>h s. (Response 200 None (Some ''token-1''), s)),
      change_user_endpoint = (\<lambda>uid h s. (Response 200 None (), s)),
      available_identities_endpoint = (\<lambda>h s. (Response 200 None (Some []), s)),
      graphql_endpoint =
        (\<lambda>rq h s.
           if operationName rq = ''ApiGetSessionUser''
           then gqlOk (SessionUserData \<lparr>organizationId = ''org-other'',
                                         organizationName = Some ''Other Org''\<rparr>) s
           else if operationName rq = ''ApiOpenJobs''
           then gqlOk (JobsPipelinesData [sampleJob ''other'']) s
           else if operationName rq = ''ApiGetActiveApplications''
           then gqlOk (ApplicationsData
                  \<lparr>results = [sampleApplication ''other''], nextCursor = None,
                   moreDataAvailable = False, opaqueFilter = None\<rparr>) s
           else gqlOk OtherData s)\<rparr>"

definition identityOf :: "string \<Rightarrow> string \<Rightarrow> AvailableIdentityResponse" where
  "identityOf uid oname =
     \<lparr>ai_user = \<lparr>iu_id = uid, iu_name = ''Recruiter'', iu_email = ''recruiter@example.com'',
                 avatarUrl = None\<rparr>,
      ai_organization = \<lparr>io_id = ''org-of-'' @ uid, io_name = oname,
                         domainName = ''example.com''\<rparr>\<rparr>"

text \<open>
  A remote with tenants. Its state is the user id the session is bound to; the
  organization of user \<open>u\<close> is \<open>org-of-u\<close>. \<open>switchStatus\<close> is the status
  answered to a switch request (the binding changes when it is a success status),
  \<open>queryStatus\<close> the status answered to a query under the current binding,
  \<open>apps\<close> the active applications of the bound tenant, served in one page, and
  \<open>detail\<close> the detail record of an application (\<open>None\<close> when there is none).
\<close>

definition tenantRemote ::
  "AvailableIdentityResponse list \<Rightarrow> (string \<Rightarrow> nat) \<Rightarrow> (string \<Rightarrow> nat)
     \<Rightarrow> (string \<Rightarrow> ApplicationResult list) \<Rightarrow> (string \<Rightarrow> application_detail option)
     \<Rightarrow> string remote" where
  "tenantRemote ids switchStatus queryStatus apps detail =
     \<lparr>csrf_token_endpoint = (\<lambda>h cur. (Response 200 None (Some (''token-'' @ cur)), cur)),
      change_user_endpoint =
        (\<lambda>uid h cur. (Response (switchStatus uid) None (),
                        if ok (switchStatus uid) then uid else cur)),
      available_identities_endpoint = (\<lambda>h cur. (Response 200 None (Some ids), cur)),
      graphql_endpoint =
        (\<lambda>rq h cur.
           if \<not> ok (queryStatus cur) then (Response (queryStatus cur) None None, cur)
           else if operationName rq = ''ApiGetSessionUser''
           then gqlOk (SessionUserData \<lparr>organizationId = ''org-of-'' @ cur,
                                         organizationName = None\<rparr>) cur
           else if operationName rq = ''ApiOpenJobs''
           then gqlOk (JobsPipelinesData [sampleJob cur]) cur
           else if operationName rq = ''ApiGetActiveApplications''
           then gqlOk (ApplicationsData
                  \<lparr>results = apps cur, nextCursor = None,
                   moreDataAvailable = False, opaqueFilter = None\<rparr>) cur
           else (case variables rq of
                   ApplicationVariables appId \<Rightarrow> gqlOk (ApplicationData (detail appId)) cur
                 | other \<Rightarrow> gqlOk OtherData cur))\<rparr>"

definition basicOptions :: ExtractOptions where
  "basicOptions =
     \<lparr>csv = Some ''out.csv'', json = Some ''out.json'', maxOrgs = None, retries = None,
      detailed = False, detailedConcurrent = Some 5, orgFilter = None\<rparr>"

text \<open>
  Two tenants, Acme (user \<open>user-A\<close>, three active applications) and Beta (user
  \<open>user-B\<close>); the remote answers 500 to the switch request for \<open>user-B\<close>.
\<close>

definition sampleDetail :: application_detail where
  "sampleDetail =
     \<lparr>ad_id = ''app-a1'',
      ad_applicationStatus = Some \<lparr>description = ''Scheduled'', priority = None, dueAt = None\<rparr>,
      ad_currentInterviewStage = Some \<lparr>ds_id = ''stage-2'', ds_title = ''Onsite'',
                                       ds_stageType = Some ''Active''\<rparr>,
      ad_job = None,
      ad_interviewPlan =
        Some \<lparr>ip_id = ''plan-1'',
              interviewStages =
                Some [Some \<lparr>ps_id = ''stage-0'', ps_title = ''Lead'', ps_stageType = ''Lead''\<rparr>,
                      Some \<lparr>ps_id = ''stage-1'', ps_title = ''Phone'', ps_stageType = ''Active''\<rparr>,
                      Some \<lparr>ps_id = ''stage-2'', ps_title = ''Onsite'', ps_stageType = ''Active''\<rparr>,
                      Some \<lparr>ps_id = ''stage-3'', ps_title = ''Offer'', ps_stageType = ''Offer''\<rparr>]\<rparr>,
      ad_interviewEvents = Some []\<rparr>"

definition appsOfA :: "ApplicationResult list" where
  "appsOfA = [sampleApplication ''a1'', sampleApplication ''a2'', sampleApplication ''a3'']"

definition switchFailsForB :: "string remote" where
  "switchFailsForB =
     tenantRemote [identityOf ''user-A'' ''Acme'', identityOf ''user-B'' ''Beta'']
       (\<lambda>uid. if uid = ''user-B'' then 500 else 200)
       (\<lambda>cur. 200)
       (\<lambda>cur. if cur = ''user-A'' then appsOfA else [])
       (\<lambda>appId. if appId = ''app-a1'' then Some sampleDetail else None)"



text \<open>
  The same two tenants, but Acme has an open job and no active application.
\<close>

definition acmeWithoutApplications :: "string remote" where
  "acmeWithoutApplications =
     tenantRemote [identityOf ''user-A'' ''Acme'', identityOf ''user-B'' ''Beta'']
       (\<lambda>uid. if uid = ''user-B'' then 500 else 200)
       (\<lambda>cur. 200)
       (\<lambda>cur. [])
       (\<lambda>appId. None)"

text \<open>
  Three tenants, Acme, Beta and Gamma; while the session is bound to \<open>user-B\<close> the
  remote answers 401 to every query.
\<close>

definition unauthorizedForB :: "string remote" where
  "unauthorizedForB =
     tenantRemote [identityOf ''user-A'' ''Acme'', identityOf ''user-B'' ''Beta'',
                   identityOf ''user-C'' ''Gamma'']
       (\<lambda>uid. 200)
       (\<lambda>cur. if cur = ''user-B'' then 401 else 200)
       (\<lambda>cur. if cur = ''user-A'' then appsOfA
              else if cur = ''user-C'' then [sampleApplication ''c1''] else [])
       (\<lambda>appId. None)"

text \<open>
  The remote \<open>R\<close> with a session that expires: the first \<open>n\<close> token fetches are
  answered by \<open>R\<close>, every later one with 401. The state counts the token fetches.
\<close>

definition expiringAfter :: "nat \<Rightarrow> 's remote \<Rightarrow> ('s \<times> nat) remote" where
  "expiringAfter n R =
     \<lparr>csrf_token_endpoint =
        (\<lambda>h (s, k). if k < n
                     then (case csrf_token_endpoint R h s of (r, s') \<Rightarrow> (r, (s', Suc k)))
                     else (Response 401 None None, (s, Suc k))),
      change_user_endpoint =
        (\<lambda>uid h (s, k). case change_user_endpoint R uid h s of (r, s') \<Rightarrow> (r, (s', k))),
      available_identities_endpoint =
        (\<lambda>h (s, k). case available_identities_endpoint R h s of (r, s') \<Rightarrow> (r, (s', k))),
      graphql_endpoint =
        (\<lambda>rq h (s, k). case graphql_endpoint R rq h s of (r, s') \<Rightarrow> (r, (s', k)))\<rparr>"

text \<open>
  Three tenants, Acme, Beta and Gamma, and a session that expires when the extraction
  for Acme is done: the discovery and Acme use four token fetches.
\<close>

definition expiresAfterAcme :: "(string \<times> nat) remote" where
  "expiresAfterAcme =
     expiringAfter 4
       (tenantRemote [identityOf ''user-A'' ''Acme'', identityOf ''user-B'' ''Beta'',
                      identityOf ''user-C'' ''Gamma'']
          (\<lambda>uid. 200)
          (\<lambda>cur. 200)
          (\<lambda>cur. if cur = ''user-A'' then appsOfA else [sampleApplication ''other''])
          (\<lambda>appId. None))"

definition acme :: OrgInfoWithUserId where
  "acme = \<lparr>org_id = ''org-of-user-A'', org_name = ''Acme'', userId = ''user-A''\<rparr>"

definition beta :: OrgInfoWithUserId where
  "beta = \<lparr>org_id = ''org-of-user-B'', org_name = ''Beta'', userId = ''user-B''\<rparr>"

definition gamma :: OrgInfoWithUserId where
  "gamma = \<lparr>org_id = ''org-of-user-C'', org_name = ''Gamma'', userId = ''user-C''\<rparr>"

text \<open>The world after the discovery against a remote with tenants, started as \<open>user-0\<close>.\<close>

definition discoveredWorld :: "string world" where
  "discoveredWorld =
     \<lparr>session = sampleSession\<lparr>csrfToken := Some ''token-user-0''\<rparr>, server = ''user-0'',
      trace = [TokenFetch (Some 200) (Some ''token-user-0''), Identities (Some 200)]\<rparr>"

text \<open>The events of a successful extraction for the tenant of user \<open>u\<close>, started under token \<open>t\<close>.\<close>

definition extractionEvents :: "string \<Rightarrow> string \<Rightarrow> event list" where
  "extractionEvents t u =
     [TokenFetch (Some 200) (Some t),
      ChangeUser u (Some 200), Sleep 500,
      TokenFetch (Some 200) (Some (''token-'' @ u)),
      Query ''ApiGetSessionUser'' (Some (''token-'' @ u)) (Some 200),
      TokenFetch (Some 200) (Some (''token-'' @ u)),
      Query ''ApiOpenJobs'' (Some (''token-'' @ u)) (Some 200),
      Query ''ApiGetActiveApplications'' (Some (''token-'' @ u)) (Some 200),
      Query ''ApiGetSessionUser'' (Some (''token-'' @ u)) (Some 200)]"

text \<open>The events of processing Beta while every query under \<open>user-B\<close> is answered 401.\<close>

definition rejectedEvents :: "event list" where
  "rejectedEvents =
     [TokenFetch (Some 200) (Some ''token-user-A''),
      ChangeUser ''user-B'' (Some 200), Sleep 500,
      TokenFetch (Some 200) (Some ''token-user-B''),
      Query ''ApiGetSessionUser'' (Some ''token-user-B'') (Some 401),
      TokenFetch (Some 200) (Some ''token-user-B''),
      Query ''ApiOpenJobs'' (Some ''token-user-B'') (Some 401)]"

definition engineerJob :: "string \<Rightarrow> Job" where
  "engineerJob i =
     \<lparr>job_id = i, job_title = ''Engineer'', job_companyId = ''company-Default Company''\<rparr>"

section \<open>Notions for the enrichment\<close>

text \<open>The members \<open>enrichCandidatesWithDetails\<close> writes, taken from another record.\<close>

definition withEnrichmentOf :: "Candidate \<Rightarrow> Candidate \<Rightarrow> Candidate" where
  "withEnrichmentOf c c' =
     c'\<lparr>pipelineStage := pipelineStage c,
        currentStageIndex := currentStageIndex c,
        totalStages := totalStages c,
        stageProgress := stageProgress c,
        interviewEvents := interviewEvents c,
        allFeedback := allFeedback c,
        latestOverallRecommendation := latestOverallRecommendation c,
        latestFeedbackAuthor := latestFeedbackAuthor c,
        latestFeedbackDate := latestFeedbackDate c,
        feedbackCount := feedbackCount c\<rparr>"

text \<open>
  \<open>c'\<close> is \<open>c\<close> unchanged or \<open>c\<close> with enrichment members filled in: the two agree
  on every member the enrichment does not write.
\<close>

definition sameOrEnriched :: "Candidate \<Rightarrow> Candidate \<Rightarrow> bool" where
  "sameOrEnriched c c' = (withEnrichmentOf c c' = c)"

definition candidateKey :: "Candidate \<Rightarrow> string \<times> string" where
  "candidateKey c = (cand_id c, applicationId c)"

text \<open>The input records in the order of the output: tenant by tenant, tenants in order of first appearance.\<close>

definition groupedByOrg :: "Candidate list \<Rightarrow> Candidate list" where
  "groupedByOrg cs = concat (map snd (groupByOrg cs))"

text \<open>
  What the enrichment may do to a record: leave it or fill in enrichment members, and
  leave it when its tenant has no user id in \<open>orgInfos\<close>.
\<close>

definition keptRecord :: "OrgInfoWithUserId list \<Rightarrow> Candidate \<Rightarrow> Candidate \<Rightarrow> bool" where
  "keptRecord orgInfos c c' =
     (sameOrEnriched c c' \<and> (\<not> truthy (orgIdToUserId orgInfos (orgId c)) \<longrightarrow> c' = c))"

text \<open>The only error the record-building code throws is the \<open>TypeError\<close>.\<close>

definition throwsOnlyTypeError :: "error + 'a \<Rightarrow> bool" where
  "throwsOnlyTypeError r = (case r of Inl e \<Rightarrow> e = TypeError | Inr v \<Rightarrow> True)"

text \<open>
  The remote serves no application detail on which the record-building code throws:
  whatever the request, the headers and its state, the details of an application in
  its answer are read without a \<open>TypeError\<close>.
\<close>

definition servesReadableDetails :: "'s remote \<Rightarrow> bool" where
  "servesReadableDetails R =
     (\<forall>rq h s st sc response s' a.
        graphql_endpoint R rq h s = (Response st sc (Some response), s') \<and>
        data response = ApplicationData (Some a)
        \<longrightarrow> (\<exists>v. readDetails (detailsOf a) = Inr v))"

text \<open>
  What becomes of the record \<open>c\<close> in its batch: the record unchanged or enriched, or a
  \<open>TypeError\<close>.
\<close>

definition settledFrom :: "Candidate \<Rightarrow> error + Candidate \<Rightarrow> bool" where
  "settledFrom c r = (case r of Inl e \<Rightarrow> e = TypeError | Inr c' \<Rightarrow> sameOrEnriched c c')"

text \<open>Four records: two of Acme, one of Beta, one of a tenant that is not in the list.\<close>

definition candA1 :: Candidate where
  "candA1 = candidateOf sampleEnv ''org-of-user-A'' None (sampleApplication ''a1'')"

definition candA2 :: Candidate where
  "candA2 = candidateOf sampleEnv ''org-of-user-A'' None (sampleApplication ''a2'')"

definition candB1 :: Candidate where
  "candB1 = candidateOf sampleEnv ''org-of-user-B'' None (sampleApplication ''b1'')"

definition candX1 :: Candidate where
  "candX1 = candidateOf sampleEnv ''org-unknown'' None (sampleApplication ''x1'')"

section \<open>The token invariant\<close>

text \<open>
  The state of a world is in order when its trace is (every query after an accepted
  switch carries a token fetched since that switch) and when the cached token, if the
  session has a truthy one, is itself a token fetched since the last accepted switch.
\<close>

definition tokenInv :: "'s world \<Rightarrow> bool" where
  "tokenInv w =
     (refreshedBeforeQueries None (trace w) \<and>
      (case foldl sinceSwitch None (trace w) of
         None \<Rightarrow> True
       | Some toks \<Rightarrow>
           (case csrfToken (session w) of
              None \<Rightarrow> True
            | Some t \<Rightarrow> t = [] \<or> t \<in> set toks)))"

section \<open>Properties of the scheduling-needed predicate\<close>

lemma includes_sublist: "str_includes s k = sublist k s"
  by (induction s) (auto simp: sublist_Cons_right)

lemma offer_lower: "toLowerCase ''offer'' = ''offer''"
  by (simp add: toLowerCase_def toLowerChar_def)

lemma offer_no_keyword:
  "\<not> list_ex (\<lambda>keyword. str_includes ''offer'' keyword) interviewKeywords"
  by (simp add: interviewKeywords_def)

text \<open>
  C9. A record whose stage type contains "interview" (in any letter case, as the code
  lower-cases the stage type first) is flagged when days-in-stage is 7 and not flagged
  when it is 6; a record whose stage type is "offer" is never flagged, whatever the
  days-in-stage value (\<open>NaN\<close> included).
\<close>

theorem needs_scheduling_interview_offer:
  "(\<forall>st. str_includes (toLowerCase st) ''interview'' \<longrightarrow>
      computeNeedsScheduling (Some st) (Some 7) defaultThreshold \<and>
      \<not> computeNeedsScheduling (Some st) (Some 6) defaultThreshold) \<and>
   (\<forall>d. \<not> computeNeedsScheduling (Some ''offer'') d defaultThreshold)"
proof (intro conjI allI impI)
  fix st assume h: "str_includes (toLowerCase st) ''interview''"
  then have ne: "st \<noteq> []"
    by (auto simp: toLowerCase_def)
  from h have ex: "list_ex (\<lambda>keyword. str_includes (toLowerCase st) keyword) interviewKeywords"
    by (simp add: interviewKeywords_def)
  from ne ex show "computeNeedsScheduling (Some st) (Some 7) defaultThreshold"
    by (simp add: computeNeedsScheduling_def truthy_def num_ge_def defaultThreshold_def)
  show "\<not> computeNeedsScheduling (Some st) (Some 6) defaultThreshold"
    by (simp add: computeNeedsScheduling_def truthy_def num_ge_def defaultThreshold_def)
next
  fix d
  show "\<not> computeNeedsScheduling (Some ''offer'') d defaultThreshold"
    using offer_no_keyword
    by (simp add: computeNeedsScheduling_def truthy_def offer_lower del: str_includes.simps)
qed

theorem needs_scheduling_interview_offer_witness:
  "str_includes (toLowerCase ''Technical Interview'') ''interview'' \<and>
   computeNeedsScheduling (Some ''Technical Interview'') (Some 7) defaultThreshold \<and>
   \<not> computeNeedsScheduling (Some ''Technical Interview'') (Some 6) defaultThreshold"
proof -
  have h: "str_includes (toLowerCase ''Technical Interview'') ''interview''"
    by (simp add: toLowerCase_def toLowerChar_def)
  from needs_scheduling_interview_offer h show ?thesis
    by blast
qed

section \<open>Rule sets for evaluating the examples\<close>

lemmas client_defs =
  graphqlQuery_def resolveCsrfToken_def fetchCsrfToken_def fetchCsrfToken_loop.simps
  switchOrgContext_def fetchOrgName_def fetchAllAvailableOrgs_def
  hasAuthCookie_def truthy_def defaultRetries_def ok_def createAuthHeaders_def
  emit_def setCsrfToken_def setCookies_def applySetCookie_def gqlOk_def
  sampleSession_def startWorld_def

lemmas run_defs =
  extractCommand_def processOrgs.simps extractAttempts.simps fetchPipelineForOrg_def
  fetchApplicationPages.simps finishRun_def stopWith_def emptyAggregate_def numOr_def
  capOrgs_def orgDisplayName_def basicOptions_def emptyResult_def
  tenantRemote_def identityOf_def

lemmas data_defs =
  normalizePipelineData_def addJobPipeline_def addApplication_def setIfAbsent_def
  companyNameOf_def orElse_def trim_def isWhiteSpace_def defaultCompany_def sampleJob_def
  sampleApplication_def appsOfA_def engineerJob_def
  acme_def beta_def gamma_def discoveredWorld_def extractionEvents_def rejectedEvents_def

section \<open>Facts about the token fetch\<close>

lemma emit_simps [simp]:
  "trace (emit e w) = trace w @ [e]"
  "session (emit e w) = session w"
  "server (emit e w) = server w"
  by (simp_all add: emit_def)

lemma setCsrfToken_simps [simp]:
  "trace (setCsrfToken t w) = trace w"
  "server (setCsrfToken t w) = server w"
  "csrfToken (session (setCsrfToken t w)) = t"
  "cookies (session (setCsrfToken t w)) = cookies (session w)"
  by (simp_all add: setCsrfToken_def)

lemma setCookies_simps [simp]:
  "trace (setCookies j w) = trace w"
  "server (setCookies j w) = server w"
  "csrfToken (session (setCookies j w)) = csrfToken (session w)"
  "cookies (session (setCookies j w)) = j"
  by (simp_all add: setCookies_def)

lemma fetchedTokens_append [simp]:
  "fetchedTokens (xs @ ys) = fetchedTokens xs @ fetchedTokens ys"
  by (induction xs rule: fetchedTokens.induct) auto

lemma fetchCsrfToken_loop_facts:
  "fetchCsrfToken_loop R n attempt w = (r, w') \<Longrightarrow>
   session w' = session w \<and>
   (\<exists>evs. trace w' = trace w @ evs \<and> list_all isTokenFetchOrSleep evs \<and>
      noRetryAfter401 evs \<and>
      length (filter isTokenFetch evs) \<le> Suc n - attempt \<and>
      (\<forall>tok. TokenFetch (Some 401) tok \<in> set evs \<longrightarrow> r = Inl CsrfTokenUnauthorized) \<and>
      (\<forall>t. r = Inr t \<longrightarrow> t \<in> set (fetchedTokens evs)))"
proof (induction R n attempt w arbitrary: r w' rule: fetchCsrfToken_loop.induct)
  case (1 R n attempt w)
  show ?case
  proof (cases "attempt \<le> n")
    case False
    with "1.prems" show ?thesis by (auto simp: fetchCsrfToken_loop.simps)
  next
    case le: True
    obtain resp s' where
      ep: "csrf_token_endpoint R (createAuthHeaders (session w)) (server w) = (resp, s')"
      by (cases "csrf_token_endpoint R (createAuthHeaders (session w)) (server w)")
    show ?thesis
    proof (cases resp)
      case NetworkError
      with "1.prems" le ep show ?thesis
        by (auto simp: fetchCsrfToken_loop.simps[of R n attempt w])
    next
      case (Response st sc b)
      show ?thesis
      proof (cases "\<not> ok st \<and> st \<noteq> 401 \<and> attempt < n")
        case True
        let ?w1 = "emit (Sleep (500 * (attempt + 1)))
                     (emit (TokenFetch (Some st) None) (w\<lparr>server := s'\<rparr>))"
        from "1.prems" le ep Response True
        have run: "fetchCsrfToken_loop R n (attempt + 1) ?w1 = (r, w')"
          by (simp add: fetchCsrfToken_loop.simps[of R n attempt w])
        from "1.IH"[OF le ep[symmetric] Response _ _ _ run] True
        obtain evs where a: "session w' = session ?w1" and b: "trace w' = trace ?w1 @ evs"
          and c: "noRetryAfter401 evs" "list_all isTokenFetchOrSleep evs"
          and d: "length (filter isTokenFetch evs) \<le> Suc n - (attempt + 1)"
          and e: "\<forall>tok. TokenFetch (Some 401) tok \<in> set evs \<longrightarrow> r = Inl CsrfTokenUnauthorized"
          and f: "\<forall>t. r = Inr t \<longrightarrow> t \<in> set (fetchedTokens evs)"
          by auto
        show ?thesis
          using a b c d e f True
          by (intro conjI exI[of _ "[TokenFetch (Some st) None, Sleep (500 * (attempt + 1))] @ evs"])
             auto
      next
        case False
        with "1.prems" le ep Response show ?thesis
          by (auto simp: fetchCsrfToken_loop.simps[of R n attempt w] ok_def
                   split: option.splits if_splits)
      qed
    qed
  qed
qed

lemma fetchCsrfToken_facts:
  assumes "fetchCsrfToken R n w = (r, w')"
  shows "session w' = session w"
    and "server w' = server w \<or> trace w' \<noteq> trace w"
    and "\<exists>evs. trace w' = trace w @ evs \<and> list_all isTokenFetchOrSleep evs \<and>
           noRetryAfter401 evs \<and> length (filter isTokenFetch evs) \<le> Suc n \<and>
           (\<forall>tok. TokenFetch (Some 401) tok \<in> set evs \<longrightarrow> r = Inl CsrfTokenUnauthorized) \<and>
           (\<forall>t. r = Inr t \<longrightarrow> t \<in> set (fetchedTokens evs))"
proof -
  show "session w' = session w"
    using assms fetchCsrfToken_loop_facts[of R n 0 w r w']
    by (auto simp: fetchCsrfToken_def split: if_splits)
  show "\<exists>evs. trace w' = trace w @ evs \<and> list_all isTokenFetchOrSleep evs \<and>
           noRetryAfter401 evs \<and> length (filter isTokenFetch evs) \<le> Suc n \<and>
           (\<forall>tok. TokenFetch (Some 401) tok \<in> set evs \<longrightarrow> r = Inl CsrfTokenUnauthorized) \<and>
           (\<forall>t. r = Inr t \<longrightarrow> t \<in> set (fetchedTokens evs))"
  proof (cases "hasAuthCookie (session w)")
    case True
    with assms have "fetchCsrfToken_loop R n 0 w = (r, w')"
      by (simp add: fetchCsrfToken_def)
    from fetchCsrfToken_loop_facts[OF this] show ?thesis by simp
  next
    case False
    with assms have "w' = w" "r = Inl MissingAuthCookies"
      by (auto simp: fetchCsrfToken_def)
    then show ?thesis by (intro exI[of _ "[]"]) simp
  qed
  show "server w' = server w \<or> trace w' \<noteq> trace w"
  proof (cases "hasAuthCookie (session w)")
    case False
    with assms show ?thesis by (auto simp: fetchCsrfToken_def)
  next
    case True
    with assms have run: "fetchCsrfToken_loop R n 0 w = (r, w')"
      by (simp add: fetchCsrfToken_def)
    then show ?thesis
      by (subst (asm) fetchCsrfToken_loop.simps)
         (auto split: prod.splits fetched.splits option.splits if_splits
               dest!: fetchCsrfToken_loop_facts)
  qed
qed

section \<open>C7: a 401 on the token fetch is never retried\<close>

text \<open>
  C7. Whatever the remote answers and however many retries are allowed, the events of a
  call of \<open>fetchCsrfToken\<close> are token fetches and pauses only; a token fetch answered
  with 401 makes the call fail with \<open>CsrfTokenUnauthorized\<close> (the error of the
  "session appears expired" throw) and is the last event of the call; a further
  attempt follows a fetch only when that fetch was answered with a failure status
  other than 401; and there are at most \<open>retries + 1\<close> fetches.
\<close>

theorem fetchCsrfToken_401_not_retried:
  "fetchCsrfToken R n w = (r, w') \<Longrightarrow>
   \<exists>evs. trace w' = trace w @ evs \<and>
         list_all isTokenFetchOrSleep evs \<and>
         noRetryAfter401 evs \<and>
         length (filter isTokenFetch evs) \<le> n + 1 \<and>
         (\<forall>tok. TokenFetch (Some 401) tok \<in> set evs \<longrightarrow> r = Inl CsrfTokenUnauthorized)"
  using fetchCsrfToken_facts(3)[of R n w r w'] by auto

theorem fetchCsrfToken_401_not_retried_witness:
  "fetchCsrfToken expiringRemote defaultRetries (startWorld 0)
     = (Inl CsrfTokenUnauthorized,
        \<lparr>session = sampleSession, server = 2,
         trace = [TokenFetch (Some 500) None, Sleep 500, TokenFetch (Some 401) None]\<rparr>) \<and>
   list_all isTokenFetchOrSleep [TokenFetch (Some 500) None, Sleep 500, TokenFetch (Some 401) None] \<and>
   noRetryAfter401 [TokenFetch (Some 500) None, Sleep 500, TokenFetch (Some 401) None] \<and>
   length (filter isTokenFetch [TokenFetch (Some 500) None, Sleep 500, TokenFetch (Some 401) None])
     \<le> defaultRetries + 1"
proof -
  have run: "fetchCsrfToken expiringRemote defaultRetries (startWorld 0)
     = (Inl CsrfTokenUnauthorized,
        \<lparr>session = sampleSession, server = 2,
         trace = [TokenFetch (Some 500) None, Sleep 500, TokenFetch (Some 401) None]\<rparr>)"
    by (simp add: fetchCsrfToken_def fetchCsrfToken_loop.simps hasAuthCookie_def truthy_def
          sampleSession_def startWorld_def expiringRemote_def defaultRetries_def ok_def
          createAuthHeaders_def emit_def)
  from fetchCsrfToken_401_not_retried[OF run] obtain evs where
    evs: "[TokenFetch (Some 500) None, Sleep 500, TokenFetch (Some 401) None] = evs"
    and props: "list_all isTokenFetchOrSleep evs" "noRetryAfter401 evs"
      "length (filter isTokenFetch evs) \<le> defaultRetries + 1"
    by (auto simp: startWorld_def)
  from props show ?thesis
    unfolding evs[symmetric] using run by blast
qed

section \<open>Facts about query execution\<close>

lemma resolveCsrfToken_facts:
  assumes "resolveCsrfToken R force w = (rt, wt)"
  shows "cookies (session wt) = cookies (session w)"
    and "\<exists>tevs. trace wt = trace w @ tevs \<and> list_all isTokenFetchOrSleep tevs \<and>
           (\<forall>csrf. rt = Inr csrf \<longrightarrow>
              csrfToken (session wt) = Some csrf \<and>
              (csrf \<in> set (fetchedTokens tevs) \<or>
               (tevs = [] \<and> csrf \<noteq> [] \<and> \<not> force \<and> wt = w))) \<and>
           (\<forall>e. rt = Inl e \<longrightarrow> session wt = session w)"
proof -
  obtain r0 w0 where f: "fetchCsrfToken R defaultRetries w = (r0, w0)"
    by (cases "fetchCsrfToken R defaultRetries w")
  note ff = fetchCsrfToken_facts(1,3)[OF f]
  show "cookies (session wt) = cookies (session w)"
    using assms f ff(1)
    by (auto simp: resolveCsrfToken_def split: sum.splits option.splits if_splits)
  show "\<exists>tevs. trace wt = trace w @ tevs \<and> list_all isTokenFetchOrSleep tevs \<and>
           (\<forall>csrf. rt = Inr csrf \<longrightarrow>
              csrfToken (session wt) = Some csrf \<and>
              (csrf \<in> set (fetchedTokens tevs) \<or>
               (tevs = [] \<and> csrf \<noteq> [] \<and> \<not> force \<and> wt = w))) \<and>
           (\<forall>e. rt = Inl e \<longrightarrow> session wt = session w)"
  proof (cases "\<not> truthy (csrfToken (session w)) \<or> force")
    case True
    from ff(2) obtain evs where evs: "trace w0 = trace w @ evs" "list_all isTokenFetchOrSleep evs"
      "\<forall>t. r0 = Inr t \<longrightarrow> t \<in> set (fetchedTokens evs)" by blast
    from assms f True have "(rt, wt) = (case r0 of Inl e \<Rightarrow> (Inl e, w0) | Inr t \<Rightarrow> (Inr t, setCsrfToken (Some t) w0))"
      by (auto simp: resolveCsrfToken_def split: sum.splits)
    with evs ff(1) show ?thesis
      by (intro exI[of _ evs]) (auto split: sum.splits)
  next
    case False
    with assms show ?thesis
      by (intro exI[of _ "[]"]) (auto simp: resolveCsrfToken_def truthy_def split: option.splits)
  qed
qed

lemma graphqlQuery_cases:
  assumes "graphqlQuery R opName q vars force w = (r, w1)"
  obtains (token_failed) e where "resolveCsrfToken R force w = (Inl e, w1)" "r = Inl e"
  | (queried) csrf wt st where "resolveCsrfToken R force w = (Inr csrf, wt)"
      "trace w1 = trace wt @ [Query opName (if csrf \<noteq> [] then Some csrf else None) st]"
      "session w1 = session wt"
proof -
  obtain rt wt where rc: "resolveCsrfToken R force w = (rt, wt)"
    by (cases "resolveCsrfToken R force w")
  show thesis
  proof (cases rt)
    case (Inl e)
    with assms rc have "w1 = wt" "r = Inl e" by (auto simp: graphqlQuery_def)
    with rc Inl token_failed show ?thesis by blast
  next
    case (Inr csrf)
    from resolveCsrfToken_facts(2)[OF rc] Inr have tk: "csrfToken (session wt) = Some csrf" by blast
    then have hd: "h_csrf (createAuthHeaders (session wt)) = (if csrf \<noteq> [] then Some csrf else None)"
      by (simp add: createAuthHeaders_def truthy_def)
    from assms rc Inr hd
    have "\<exists>st. trace w1 = trace wt @ [Query opName (if csrf \<noteq> [] then Some csrf else None) st] \<and> session w1 = session wt"
      by (auto simp: graphqlQuery_def Let_def split: prod.splits fetched.splits option.splits if_splits)
    with rc Inr queried show ?thesis by blast
  qed
qed

lemma graphqlQuery_Inr_events:
  assumes "graphqlQuery R opName q vars force w = (Inr d, w1)"
  shows "\<exists>evs. trace w1 = trace w @ evs \<and> length (filter isQuery evs) = 1"
  using assms
proof (cases rule: graphqlQuery_cases)
  case (token_failed e)
  then show ?thesis by simp
next
  case (queried csrf wt st)
  from resolveCsrfToken_facts(2)[OF queried(1)] obtain tevs where
    "trace wt = trace w @ tevs" "list_all isTokenFetchOrSleep tevs" by blast
  moreover have "list_all isTokenFetchOrSleep tevs \<Longrightarrow> filter isQuery tevs = []"
    by (induction tevs) (auto elim: isTokenFetchOrSleep.elims)
  ultimately show ?thesis using queried(2)
    by (intro exI[of _ "tevs @ [Query opName (if csrf \<noteq> [] then Some csrf else None) st]"]) simp
qed

section \<open>A sample run\<close>

text \<open>
  The run against \<open>switchFailsForB\<close>, step by step: the discovery, the extraction for
  Acme, the failed switch to Beta, the enrichment of Acme's records.
\<close>

lemma sample_candidates [simp]:
  "orgId candA1 = ''org-of-user-A''" "orgId candA2 = ''org-of-user-A''"
  "orgId candB1 = ''org-of-user-B''" "orgId candX1 = ''org-unknown''"
  "applicationId candA1 = ''app-a1''" "applicationId candA2 = ''app-a2''"
  by (simp_all add: candA1_def candA2_def candB1_def candX1_def candidateOf_def Let_def
        sampleApplication_def)

lemma candidateOf_keys [simp]:
  "orgId (candidateOf E orgIdArg orgNameArg app) = orgIdArg"
  "applicationId (candidateOf E orgIdArg orgNameArg app) = ar_id app"
  "cand_id (candidateOf E orgIdArg orgNameArg app) = ac_id (ar_candidate app)"
  by (simp_all add: candidateOf_def Let_def)

lemmas enrich_defs =
  enrichCandidatesWithDetails_def groupByOrg_def enrichBatches.simps enrichOne_def
  fetchApplicationDetails_def js_slice_def orgIdToUserId_def orEmpty_def
  sampleEnv_def promiseAll_def bindE_def deref_def detailsOf_def

lemmas detail_defs =
  enrichWith_def readDetails_def stagePosition_def planStagesOf_def interviewEventOf_def
  interviewerSummaryOf_def feedbackOf_def feedbackEntryOf_def latestFeedbackOf_def
  sortFeedback_def showNat.simps digitChars_def

lemma switch_to_acme:
  "switchOrgContext (tenantRemote ids (\<lambda>uid. if uid = ''user-B'' then 500 else 200) (\<lambda>cur. 200) apps detail)
       ''user-A'' discoveredWorld
     = (Inr (),
        \<lparr>session = sampleSession\<lparr>csrfToken := Some ''token-user-A''\<rparr>, server = ''user-A'',
         trace = trace discoveredWorld @
                 [TokenFetch (Some 200) (Some ''token-user-0''),
                  ChangeUser ''user-A'' (Some 200), Sleep 500,
                  TokenFetch (Some 200) (Some ''token-user-A''),
                  Query ''ApiGetSessionUser'' (Some ''token-user-A'') (Some 200)]\<rparr>)"
  by (simp add: client_defs tenantRemote_def discoveredWorld_def)

lemma two_tenants_loop:
  assumes "1 \<le> m" and "userId a \<noteq> []" and "userId b \<noteq> []" and "org_id b \<noteq> ''default''"
    and "fetchPipelineForOrg R E (org_id a) (Some (userId a)) w = Some (Inr ra, w1)"
    and "switchOrgContext R (userId b) (emit (Sleep 500) w1) = (Inl e, w2)"
  shows "processOrgs R E m [a, b] agg w
           = Some (agg\<lparr>allCompanies := allCompanies agg @ companies ra,
                       allJobs := allJobs agg @ jobs ra,
                       allCandidates := allCandidates agg @ candidates ra\<rparr>, w2)"
  using assms
  by (simp add: extractAttempts.simps[of R E a m 1] extractAttempts.simps[of R E b m 1]
        fetchPipelineForOrg_def emptyResult_def)

lemma sample_tenants:
  "userId acme \<noteq> []" "userId beta \<noteq> []" "org_id beta \<noteq> ''default''"
  by (simp_all add: acme_def beta_def)

lemma sample_discovery:
  "fetchAllAvailableOrgs (tenantRemote [identityOf ''user-A'' ''Acme'', identityOf ''user-B'' ''Beta'']
                            switchStatus queryStatus apps detail)
       \<lparr>session = sampleSession, server = ''user-0'', trace = []\<rparr>
     = (Inr [acme, beta], discoveredWorld)"
  by (simp add: client_defs tenantRemote_def identityOf_def acme_def beta_def discoveredWorld_def)

lemma sample_acme:
  "fetchPipelineForOrg switchFailsForB sampleEnv (org_id acme) (Some (userId acme)) discoveredWorld
     = Some (Inr \<lparr>companies = [defaultCompany],
                  jobs = [engineerJob ''job-user-A'', engineerJob ''job-1''],
                  candidates = map (candidateOf sampleEnv ''org-of-user-A'' None) appsOfA\<rparr>,
        \<lparr>session = sampleSession\<lparr>csrfToken := Some ''token-user-A''\<rparr>, server = ''user-A'',
         trace = trace discoveredWorld @ extractionEvents ''token-user-0'' ''user-A''\<rparr>)"
proof -
  let ?ra = "normalizePipelineData sampleEnv [sampleJob ''user-A''] appsOfA ''org-of-user-A'' None"
  have ra: "?ra = \<lparr>companies = [defaultCompany],
                     jobs = [engineerJob ''job-user-A'', engineerJob ''job-1''],
                     candidates = map (candidateOf sampleEnv ''org-of-user-A'' None) appsOfA\<rparr>"
    by (simp add: normalizePipelineData_def addJobPipeline_def addApplication_def
          setIfAbsent_def companyNameOf_def orElse_def truthy_def trim_def isWhiteSpace_def
          defaultCompany_def sampleJob_def sampleApplication_def appsOfA_def engineerJob_def)
  have "fetchPipelineForOrg switchFailsForB sampleEnv (org_id acme) (Some (userId acme))
          discoveredWorld
        = Some (Inr ?ra,
            \<lparr>session = sampleSession\<lparr>csrfToken := Some ''token-user-A''\<rparr>, server = ''user-A'',
             trace = trace discoveredWorld @ extractionEvents ''token-user-0'' ''user-A''\<rparr>)"
    by (simp add: client_defs run_defs switchFailsForB_def acme_def discoveredWorld_def
          extractionEvents_def)
  then show ?thesis unfolding ra .
qed

lemma sample_beta_switch:
  "switchOrgContext switchFailsForB (userId beta)
       (emit (Sleep 500)
          \<lparr>session = sampleSession\<lparr>csrfToken := Some ''token-user-A''\<rparr>, server = ''user-A'',
           trace = trace discoveredWorld @ extractionEvents ''token-user-0'' ''user-A''\<rparr>)
     = (Inl (SwitchOrgContextFailed 500),
        \<lparr>session = sampleSession\<lparr>csrfToken := Some ''token-user-A''\<rparr>, server = ''user-A'',
         trace = trace discoveredWorld @ extractionEvents ''token-user-0'' ''user-A'' @
                 [Sleep 500, TokenFetch (Some 200) (Some ''token-user-A''),
                  ChangeUser ''user-B'' (Some 500)]\<rparr>)"
  by (simp add: client_defs run_defs switchFailsForB_def beta_def discoveredWorld_def
        extractionEvents_def)

lemma sample_enrichment:
  "enrichCandidatesWithDetails switchFailsForB sampleEnv
       (map (candidateOf sampleEnv ''org-of-user-A'' None) appsOfA) [acme, beta] 5 True
       \<lparr>session = sampleSession\<lparr>csrfToken := Some ''token-user-A''\<rparr>, server = ''user-A'',
        trace = trace discoveredWorld @ extractionEvents ''token-user-0'' ''user-A'' @
                [Sleep 500, TokenFetch (Some 200) (Some ''token-user-A''),
                 ChangeUser ''user-B'' (Some 500)]\<rparr>
     = Some (Inr [(candidateOf sampleEnv ''org-of-user-A'' None (sampleApplication ''a1''))
                    \<lparr>pipelineStage := Some ''Onsite'', currentStageIndex := Some 2,
                     totalStages := Some 3, stageProgress := Some ''2/3'',
                     interviewEvents := Some [], allFeedback := Some [],
                     latestOverallRecommendation := None, latestFeedbackAuthor := None,
                     latestFeedbackDate := None, feedbackCount := Some 0\<rparr>,
                  candidateOf sampleEnv ''org-of-user-A'' None (sampleApplication ''a2''),
                  candidateOf sampleEnv ''org-of-user-A'' None (sampleApplication ''a3'')],
        \<lparr>session = sampleSession\<lparr>csrfToken := Some ''token-user-A''\<rparr>, server = ''user-A'',
         trace = trace discoveredWorld @ extractionEvents ''token-user-0'' ''user-A'' @
                 [Sleep 500, TokenFetch (Some 200) (Some ''token-user-A''),
                  ChangeUser ''user-B'' (Some 500),
                  TokenFetch (Some 200) (Some ''token-user-A''),
                  ChangeUser ''user-A'' (Some 200), Sleep 500,
                  TokenFetch (Some 200) (Some ''token-user-A''),
                  Query ''ApiGetSessionUser'' (Some ''token-user-A'') (Some 200),
                  Query ''ApiApplication'' (Some ''token-user-A'') (Some 200),
                  Query ''ApiApplication'' (Some ''token-user-A'') (Some 200),
                  Query ''ApiApplication'' (Some ''token-user-A'') (Some 200)]\<rparr>)"
  by (simp add: enrich_defs detail_defs client_defs switchFailsForB_def tenantRemote_def
        acme_def beta_def discoveredWorld_def extractionEvents_def sampleDetail_def
        appsOfA_def sampleApplication_def orElse_def eval_nat_numeral)

lemma sample_detailed_run:
  "extractCommand switchFailsForB sampleEnv (basicOptions\<lparr>detailed := True\<rparr>)
       (Some sampleSession) ''user-0''
     = Some (\<lparr>exitCode = 0, stopped = None,
              aggregated =
                \<lparr>allCompanies = [defaultCompany],
                 allJobs = [engineerJob ''job-user-A'', engineerJob ''job-1''],
                 allCandidates =
                   [(candidateOf sampleEnv ''org-of-user-A'' None (sampleApplication ''a1''))
                      \<lparr>pipelineStage := Some ''Onsite'', currentStageIndex := Some 2,
                       totalStages := Some 3, stageProgress := Some ''2/3'',
                       interviewEvents := Some [], allFeedback := Some [],
                       latestOverallRecommendation := None, latestFeedbackAuthor := None,
                       latestFeedbackDate := None, feedbackCount := Some 0\<rparr>,
                    candidateOf sampleEnv ''org-of-user-A'' None (sampleApplication ''a2''),
                    candidateOf sampleEnv ''org-of-user-A'' None (sampleApplication ''a3'')],
                 failedOrgs = []\<rparr>,
              exported =
                Some \<lparr>companies = [defaultCompany],
                      jobs = [engineerJob ''job-user-A'', engineerJob ''job-1''],
                      candidates =
                        [(candidateOf sampleEnv ''org-of-user-A'' None (sampleApplication ''a1''))
                           \<lparr>pipelineStage := Some ''Onsite'', currentStageIndex := Some 2,
                            totalStages := Some 3, stageProgress := Some ''2/3'',
                            interviewEvents := Some [], allFeedback := Some [],
                            latestOverallRecommendation := None, latestFeedbackAuthor := None,
                            latestFeedbackDate := None, feedbackCount := Some 0\<rparr>,
                         candidateOf sampleEnv ''org-of-user-A'' None (sampleApplication ''a2''),
                         candidateOf sampleEnv ''org-of-user-A'' None (sampleApplication ''a3'')]\<rparr>\<rparr>,
        \<lparr>session = sampleSession\<lparr>csrfToken := Some ''token-user-A''\<rparr>, server = ''user-A'',
         trace = trace discoveredWorld @ extractionEvents ''token-user-0'' ''user-A'' @
                 [Sleep 500, TokenFetch (Some 200) (Some ''token-user-A''),
                  ChangeUser ''user-B'' (Some 500),
                  TokenFetch (Some 200) (Some ''token-user-A''),
                  ChangeUser ''user-A'' (Some 200), Sleep 500,
                  TokenFetch (Some 200) (Some ''token-user-A''),
                  Query ''ApiGetSessionUser'' (Some ''token-user-A'') (Some 200),
                  Query ''ApiApplication'' (Some ''token-user-A'') (Some 200),
                  Query ''ApiApplication'' (Some ''token-user-A'') (Some 200),
                  Query ''ApiApplication'' (Some ''token-user-A'') (Some 200)]\<rparr>)"
proof -
  let ?agg = "\<lparr>allCompanies = [defaultCompany],
               allJobs = [engineerJob ''job-user-A'', engineerJob ''job-1''],
               allCandidates = map (candidateOf sampleEnv ''org-of-user-A'' None) appsOfA,
               failedOrgs = []\<rparr>"
  let ?w2 = "\<lparr>session = sampleSession\<lparr>csrfToken := Some ''token-user-A''\<rparr>, server = ''user-A'',
         trace = trace discoveredWorld @ extractionEvents ''token-user-0'' ''user-A'' @
                 [Sleep 500, TokenFetch (Some 200) (Some ''token-user-A''),
                  ChangeUser ''user-B'' (Some 500)]\<rparr>"
  have one: "(1::int) \<le> 1" by simp
  have loop: "processOrgs switchFailsForB sampleEnv 1 [acme, beta] emptyAggregate discoveredWorld
                = Some (?agg, ?w2)"
    using two_tenants_loop[OF one sample_tenants sample_acme sample_beta_switch, of emptyAggregate]
    by (simp add: emptyAggregate_def)
  have "extractCommand switchFailsForB sampleEnv (basicOptions\<lparr>detailed := True\<rparr>)
          (Some sampleSession) ''user-0''
        = finishRun switchFailsForB sampleEnv (basicOptions\<lparr>detailed := True\<rparr>) [acme, beta]
            ?agg ?w2"
    using loop sample_discovery[of "\<lambda>uid. if uid = ''user-B'' then 500 else 200" "\<lambda>cur. 200"
            "\<lambda>cur. if cur = ''user-A'' then appsOfA else []"
            "\<lambda>appId. if appId = ''app-a1'' then Some sampleDetail else None",
            folded switchFailsForB_def]
    by (simp add: extractCommand_def hasAuthCookie_def sampleSession_def basicOptions_def
          capOrgs_def numOr_def truthy_def)
  also have "\<dots> = Some (\<lparr>exitCode = 0, stopped = None,
              aggregated =
                \<lparr>allCompanies = [defaultCompany],
                 allJobs = [engineerJob ''job-user-A'', engineerJob ''job-1''],
                 allCandidates =
                   [(candidateOf sampleEnv ''org-of-user-A'' None (sampleApplication ''a1''))
                      \<lparr>pipelineStage := Some ''Onsite'', currentStageIndex := Some 2,
                       totalStages := Some 3, stageProgress := Some ''2/3'',
                       interviewEvents := Some [], allFeedback := Some [],
                       latestOverallRecommendation := None, latestFeedbackAuthor := None,
                       latestFeedbackDate := None, feedbackCount := Some 0\<rparr>,
                    candidateOf sampleEnv ''org-of-user-A'' None (sampleApplication ''a2''),
                    candidateOf sampleEnv ''org-of-user-A'' None (sampleApplication ''a3'')],
                 failedOrgs = []\<rparr>,
              exported =
                Some \<lparr>companies = [defaultCompany],
                      jobs = [engineerJob ''job-user-A'', engineerJob ''job-1''],
                      candidates =
                        [(candidateOf sampleEnv ''org-of-user-A'' None (sampleApplication ''a1''))
                           \<lparr>pipelineStage := Some ''Onsite'', currentStageIndex := Some 2,
                            totalStages := Some 3, stageProgress := Some ''2/3'',
                            interviewEvents := Some [], allFeedback := Some [],
                            latestOverallRecommendation := None, latestFeedbackAuthor := None,
                            latestFeedbackDate := None, feedbackCount := Some 0\<rparr>,
                         candidateOf sampleEnv ''org-of-user-A'' None (sampleApplication ''a2''),
                         candidateOf sampleEnv ''org-of-user-A'' None (sampleApplication ''a3'')]\<rparr>\<rparr>,
        \<lparr>session = sampleSession\<lparr>csrfToken := Some ''token-user-A''\<rparr>, server = ''user-A'',
         trace = trace discoveredWorld @ extractionEvents ''token-user-0'' ''user-A'' @
                 [Sleep 500, TokenFetch (Some 200) (Some ''token-user-A''),
                  ChangeUser ''user-B'' (Some 500),
                  TokenFetch (Some 200) (Some ''token-user-A''),
                  ChangeUser ''user-A'' (Some 200), Sleep 500,
                  TokenFetch (Some 200) (Some ''token-user-A''),
                  Query ''ApiGetSessionUser'' (Some ''token-user-A'') (Some 200),
                  Query ''ApiApplication'' (Some ''token-user-A'') (Some 200),
                  Query ''ApiApplication'' (Some ''token-user-A'') (Some 200),
                  Query ''ApiApplication'' (Some ''token-user-A'') (Some 200)]\<rparr>)"
    using sample_enrichment
    by (simp add: finishRun_def basicOptions_def numOr_def truthy_def appsOfA_def)
  finally show ?thesis .
qed

section \<open>C4: a listing served in two pages\<close>

text \<open>
  C4. When the first listing query (no cursor) returns a page of 100 records that
  reports more data, and the second one (with the cursor of the first page) returns
  a page of 20 records that reports no more data, the pagination loop returns the 120
  records in arrival order, the first page's before the second's, and has issued
  exactly two queries.
\<close>

theorem pagination_two_pages:
  assumes q1: "graphqlQuery R ''ApiGetActiveApplications'' applicationsQuery
                 (ApplicationsVariables None 100) False w = (Inr (ApplicationsData p1), w1)"
    and n1: "length (results p1) = 100" and m1: "moreDataAvailable p1"
    and q2: "graphqlQuery R ''ApiGetActiveApplications'' applicationsQuery
                 (ApplicationsVariables (nextCursor p1) 100) False w1 = (Inr (ApplicationsData p2), w2)"
    and n2: "length (results p2) = 20" and m2: "\<not> moreDataAvailable p2"
  shows "fetchApplicationPages R [] None w = Some (Inr (), results p1 @ results p2, w2) \<and>
         length (results p1 @ results p2) = 120 \<and>
         (\<exists>evs. trace w2 = trace w @ evs \<and> length (filter isQuery evs) = 2)"
proof -
  have second: "fetchApplicationPages R (results p1) (nextCursor p1) w1
                  = Some (Inr (), results p1 @ results p2, w2)"
    by (subst fetchApplicationPages.simps) (simp add: q2 m2)
  have first: "fetchApplicationPages R [] None w
                  = fetchApplicationPages R (results p1) (nextCursor p1) w1"
    by (subst fetchApplicationPages.simps) (simp add: q1 m1)
  from graphqlQuery_Inr_events[OF q1] obtain e1 where
    e1: "trace w1 = trace w @ e1" "length (filter isQuery e1) = 1" by blast
  from graphqlQuery_Inr_events[OF q2] obtain e2 where
    e2: "trace w2 = trace w1 @ e2" "length (filter isQuery e2) = 1" by blast
  from e1 e2 have "trace w2 = trace w @ (e1 @ e2) \<and> length (filter isQuery (e1 @ e2)) = 2"
    by simp
  then have "\<exists>evs. trace w2 = trace w @ evs \<and> length (filter isQuery evs) = 2" by blast
  with first second n1 n2 show ?thesis by simp
qed

lemma twoPage_q1:
  "graphqlQuery twoPageRemote ''ApiGetActiveApplications'' applicationsQuery
     (ApplicationsVariables None 100) False (startWorld ())
   = (Inr (ApplicationsData firstPage),
      \<lparr>session = sampleSession\<lparr>csrfToken := Some ''token-1''\<rparr>, server = (),
       trace = [TokenFetch (Some 200) (Some ''token-1''),
                Query ''ApiGetActiveApplications'' (Some ''token-1'') (Some 200)]\<rparr>)"
  by (simp add: graphqlQuery_def resolveCsrfToken_def fetchCsrfToken_def fetchCsrfToken_loop.simps
        hasAuthCookie_def truthy_def sampleSession_def startWorld_def twoPageRemote_def
        defaultRetries_def ok_def createAuthHeaders_def emit_def setCsrfToken_def gqlOk_def)

lemma twoPage_q2:
  "graphqlQuery twoPageRemote ''ApiGetActiveApplications'' applicationsQuery
     (ApplicationsVariables (Some ''cursor-1'') 100) False
      \<lparr>session = sampleSession\<lparr>csrfToken := Some ''token-1''\<rparr>, server = (),
       trace = [TokenFetch (Some 200) (Some ''token-1''),
                Query ''ApiGetActiveApplications'' (Some ''token-1'') (Some 200)]\<rparr>
   = (Inr (ApplicationsData secondPage),
      \<lparr>session = sampleSession\<lparr>csrfToken := Some ''token-1''\<rparr>, server = (),
       trace = [TokenFetch (Some 200) (Some ''token-1''),
                Query ''ApiGetActiveApplications'' (Some ''token-1'') (Some 200),
                Query ''ApiGetActiveApplications'' (Some ''token-1'') (Some 200)]\<rparr>)"
  by (simp add: graphqlQuery_def resolveCsrfToken_def 
        hasAuthCookie_def truthy_def sampleSession_def startWorld_def twoPageRemote_def
        defaultRetries_def ok_def createAuthHeaders_def emit_def setCsrfToken_def gqlOk_def)

theorem pagination_two_pages_witness:
  "fetchApplicationPages twoPageRemote [] None (startWorld ())
     = Some (Inr (), results firstPage @ results secondPage,
        \<lparr>session = sampleSession\<lparr>csrfToken := Some ''token-1''\<rparr>, server = (),
         trace = [TokenFetch (Some 200) (Some ''token-1''),
                  Query ''ApiGetActiveApplications'' (Some ''token-1'') (Some 200),
                  Query ''ApiGetActiveApplications'' (Some ''token-1'') (Some 200)]\<rparr>) \<and>
   length (results firstPage @ results secondPage) = 120"
proof -
  have n1: "length (results firstPage) = 100" by (simp add: firstPage_def)
  have m1: "moreDataAvailable firstPage" by (simp add: firstPage_def)
  have c1: "nextCursor firstPage = Some ''cursor-1''" by (simp add: firstPage_def)
  have n2: "length (results secondPage) = 20" by (simp add: secondPage_def)
  have m2: "\<not> moreDataAvailable secondPage" by (simp add: secondPage_def)
  from pagination_two_pages[OF twoPage_q1 n1 m1 twoPage_q2[folded c1] n2 m2]
  show ?thesis by blast
qed

section \<open>C5: the pagination loop and cursors that do not advance\<close>

lemma stuck_query:
  assumes "csrfToken (session w) = Some t" "t \<noteq> []"
  shows "graphqlQuery stuckRemote opName q vars False w
           = (Inr (ApplicationsData stuckPage), emit (Query opName (Some t) (Some 200)) w)"
  using assms
  by (simp add: graphqlQuery_def resolveCsrfToken_def stuckRemote_def gqlOk_def ok_def
        truthy_def createAuthHeaders_def)

lemma stuck_diverges_aux:
  assumes run: "fetchApplicationPages R acc c w = Some y"
  shows "R = stuckRemote \<longrightarrow> truthy (csrfToken (session w)) \<longrightarrow> False"
proof (rule fetchApplicationPages.raw_induct
         [where P = "\<lambda>R acc c w y. R = stuckRemote \<longrightarrow> truthy (csrfToken (session w)) \<longrightarrow> False",
          OF _ run])
  fix loop :: "unit remote \<Rightarrow> ApplicationResult list \<Rightarrow> string option \<Rightarrow> unit world
                 \<Rightarrow> ((error + unit) \<times> ApplicationResult list \<times> unit world) option"
  fix R acc c w y
  assume IH: "\<And>R acc c w y. loop R acc c w = Some y \<Longrightarrow>
                R = stuckRemote \<longrightarrow> truthy (csrfToken (session w)) \<longrightarrow> False"
  assume body: "(case graphqlQuery R ''ApiGetActiveApplications'' applicationsQuery
                        (ApplicationsVariables c 100) False w of
                   (Inl e, w1) \<Rightarrow> Some (Inl e, acc, w1)
                 | (Inr (ApplicationsData page), w1) \<Rightarrow>
                     if moreDataAvailable page
                     then loop R (acc @ results page) (nextCursor page) w1
                     else Some (Inr (), acc @ results page, w1)
                 | (Inr other, w1) \<Rightarrow> Some (Inl TypeError, acc, w1)) = Some y"
  show "R = stuckRemote \<longrightarrow> truthy (csrfToken (session w)) \<longrightarrow> False"
  proof (intro impI)
    assume R: "R = stuckRemote" and tr: "truthy (csrfToken (session w))"
    from tr obtain t where t: "csrfToken (session w) = Some t" "t \<noteq> []"
      by (auto simp: truthy_def split: option.splits)
    let ?w1 = "emit (Query ''ApiGetActiveApplications'' (Some t) (Some 200)) w"
    from body R stuck_query[OF t]
    have "loop R (acc @ results stuckPage) (nextCursor stuckPage) ?w1 = Some y"
      by (simp add: stuckPage_def)
    moreover have "truthy (csrfToken (session ?w1))" using tr by simp
    ultimately show False using IH R by blast
  qed
qed

text \<open>
  Against C5 as stated: a remote that always reports more data and always returns the
  same cursor. The loop neither fails with a pagination inconsistency nor ends: the
  pagination never returns.
\<close>

theorem pagination_stuck_cursor_counterexample:
  "fetchApplicationPages stuckRemote [] None (startWorld ()) = None"
proof -
  have q: "graphqlQuery stuckRemote ''ApiGetActiveApplications'' applicationsQuery
     (ApplicationsVariables None 100) False (startWorld ())
   = (Inr (ApplicationsData stuckPage),
      \<lparr>session = sampleSession\<lparr>csrfToken := Some ''token-1''\<rparr>, server = (),
       trace = [TokenFetch (Some 200) (Some ''token-1''),
                Query ''ApiGetActiveApplications'' (Some ''token-1'') (Some 200)]\<rparr>)"
    by (simp add: graphqlQuery_def resolveCsrfToken_def fetchCsrfToken_def fetchCsrfToken_loop.simps
        hasAuthCookie_def truthy_def sampleSession_def startWorld_def stuckRemote_def
        defaultRetries_def ok_def createAuthHeaders_def emit_def setCsrfToken_def gqlOk_def)
  have "fetchApplicationPages stuckRemote [] None (startWorld ()) \<noteq> Some y" for y
  proof
    assume "fetchApplicationPages stuckRemote [] None (startWorld ()) = Some y"
    then have "fetchApplicationPages stuckRemote ([] @ results stuckPage) (nextCursor stuckPage) 
      \<lparr>session = sampleSession\<lparr>csrfToken := Some ''token-1''\<rparr>, server = (),
       trace = [TokenFetch (Some 200) (Some ''token-1''),
                Query ''ApiGetActiveApplications'' (Some ''token-1'') (Some 200)]\<rparr> = Some y"
      by (subst (asm) fetchApplicationPages.simps) (simp add: q stuckPage_def)
    from stuck_diverges_aux[OF this] show False by (simp add: truthy_def sampleSession_def)
  qed
  then show ?thesis by (cases "fetchApplicationPages stuckRemote [] None (startWorld ())") auto
qed

lemma pageRun_terminates:
  "pageRun R c w ps r w' \<Longrightarrow>
   fetchApplicationPages R acc c w = Some (r, acc @ concat (map results ps), w')"
proof (induction arbitrary: acc rule: pageRun.induct)
  case (lastPage c w p w1)
  then show ?case by (subst fetchApplicationPages.simps) simp
next
  case (queryFailed c w e w1)
  then show ?case by (subst fetchApplicationPages.simps) simp
next
  case (notAPage c w d w1)
  then show ?case by (subst fetchApplicationPages.simps) (cases d; simp)
next
  case (nextPage c w p w1 ps r w')
  from nextPage.hyps(1,2) nextPage.IH[of "acc @ results p"] show ?case
    by (subst fetchApplicationPages.simps) simp
qed

lemma terminates_pageRun:
  assumes run: "fetchApplicationPages R acc c w = Some y"
  shows "\<exists>ps r w'. y = (r, acc @ concat (map results ps), w') \<and> pageRun R c w ps r w'"
proof (rule fetchApplicationPages.raw_induct
         [where P = "\<lambda>R acc c w y. \<exists>ps r w'. y = (r, acc @ concat (map results ps), w') \<and> pageRun R c w ps r w'",
          OF _ run])
  fix loop :: "'a remote \<Rightarrow> ApplicationResult list \<Rightarrow> string option \<Rightarrow> 'a world
                 \<Rightarrow> ((error + unit) \<times> ApplicationResult list \<times> 'a world) option"
  fix R acc c w y
  assume IH: "\<And>R acc c w y. loop R acc c w = Some y \<Longrightarrow>
                \<exists>ps r w'. y = (r, acc @ concat (map results ps), w') \<and> pageRun R c w ps r w'"
  assume body: "(case graphqlQuery R ''ApiGetActiveApplications'' applicationsQuery
                        (ApplicationsVariables c 100) False w of
                   (Inl e, w1) \<Rightarrow> Some (Inl e, acc, w1)
                 | (Inr (ApplicationsData page), w1) \<Rightarrow>
                     if moreDataAvailable page
                     then loop R (acc @ results page) (nextCursor page) w1
                     else Some (Inr (), acc @ results page, w1)
                 | (Inr other, w1) \<Rightarrow> Some (Inl TypeError, acc, w1)) = Some y"
  obtain r1 w1 where q: "graphqlQuery R ''ApiGetActiveApplications'' applicationsQuery
                        (ApplicationsVariables c 100) False w = (r1, w1)"
    by (cases "graphqlQuery R ''ApiGetActiveApplications'' applicationsQuery
                        (ApplicationsVariables c 100) False w")
  show "\<exists>ps r w'. y = (r, acc @ concat (map results ps), w') \<and> pageRun R c w ps r w'"
  proof (cases r1)
    case (Inl e)
    with body q have "y = (Inl e, acc @ concat (map results []), w1)" by simp
    moreover from q Inl have "pageRun R c w [] (Inl e) w1" by (auto intro: pageRun.queryFailed)
    ultimately show ?thesis by blast
  next
    case (Inr d)
    show ?thesis
    proof (cases "\<exists>p. d = ApplicationsData p")
      case False
      with body q Inr have "y = (Inl TypeError, acc @ concat (map results []), w1)"
        by (cases d) auto
      moreover from q Inr False have "pageRun R c w [] (Inl TypeError) w1"
        by (auto intro: pageRun.notAPage)
      ultimately show ?thesis by blast
    next
      case True
      then obtain p where d: "d = ApplicationsData p" by blast
      show ?thesis
      proof (cases "moreDataAvailable p")
        case False
        with body q Inr d have "y = (Inr (), acc @ concat (map results [p]), w1)" by simp
        moreover from q Inr d False have "pageRun R c w [p] (Inr ()) w1"
          by (auto intro: pageRun.lastPage)
        ultimately show ?thesis by blast
      next
        case True
        with body q Inr d have "loop R (acc @ results p) (nextCursor p) w1 = Some y" by simp
        from IH[OF this] obtain ps r w' where
          y: "y = (r, (acc @ results p) @ concat (map results ps), w')"
          and pr: "pageRun R (nextCursor p) w1 ps r w'" by blast
        from q Inr d True pr have "pageRun R c w (p # ps) r w'"
          by (auto intro: pageRun.nextPage)
        with y show ?thesis by (intro exI[of _ "p # ps"]) auto
      qed
    qed
  qed
qed

text \<open>
  C5, amended. The pagination loop ends exactly when the remote, after finitely many
  pages that report more data, serves a page that reports no more data or fails a
  query; it then returns the records of those pages in order (after a failure, the
  records fetched before it). It runs one iteration per page served, which the record
  count does not bound. It does not compare cursors: a page that reports more data
  and returns the cursor just used makes the loop issue the same request again.
\<close>

theorem pagination_ends_with_last_page:
  "(fetchApplicationPages R acc c w = Some (r, apps, w') \<longleftrightarrow>
      (\<exists>ps. pageRun R c w ps r w' \<and> apps = acc @ concat (map results ps))) \<and>
   (\<forall>p w1. graphqlQuery R ''ApiGetActiveApplications'' applicationsQuery
               (ApplicationsVariables c 100) False w = (Inr (ApplicationsData p), w1) \<and>
            moreDataAvailable p \<and> nextCursor p = c \<longrightarrow>
            fetchApplicationPages R acc c w = fetchApplicationPages R (acc @ results p) c w1)"
proof (intro conjI allI impI iffI)
  assume "fetchApplicationPages R acc c w = Some (r, apps, w')"
  from terminates_pageRun[OF this]
  show "\<exists>ps. pageRun R c w ps r w' \<and> apps = acc @ concat (map results ps)" by auto
next
  assume "\<exists>ps. pageRun R c w ps r w' \<and> apps = acc @ concat (map results ps)"
  then show "fetchApplicationPages R acc c w = Some (r, apps, w')"
    using pageRun_terminates by blast
next
  fix p w1
  assume "graphqlQuery R ''ApiGetActiveApplications'' applicationsQuery
               (ApplicationsVariables c 100) False w = (Inr (ApplicationsData p), w1) \<and>
            moreDataAvailable p \<and> nextCursor p = c"
  then show "fetchApplicationPages R acc c w = fetchApplicationPages R (acc @ results p) c w1"
    by (subst fetchApplicationPages.simps) simp
qed

theorem pagination_ends_with_last_page_witness:
  "pageRun twoPageRemote None (startWorld ()) [firstPage, secondPage] (Inr ())
      \<lparr>session = sampleSession\<lparr>csrfToken := Some ''token-1''\<rparr>, server = (),
       trace = [TokenFetch (Some 200) (Some ''token-1''),
                Query ''ApiGetActiveApplications'' (Some ''token-1'') (Some 200),
                Query ''ApiGetActiveApplications'' (Some ''token-1'') (Some 200)]\<rparr> \<and>
   fetchApplicationPages twoPageRemote [] None (startWorld ())
     = Some (Inr (), [] @ concat (map results [firstPage, secondPage]),
        \<lparr>session = sampleSession\<lparr>csrfToken := Some ''token-1''\<rparr>, server = (),
         trace = [TokenFetch (Some 200) (Some ''token-1''),
                  Query ''ApiGetActiveApplications'' (Some ''token-1'') (Some 200),
                  Query ''ApiGetActiveApplications'' (Some ''token-1'') (Some 200)]\<rparr>) \<and>
   graphqlQuery stuckRemote ''ApiGetActiveApplications'' applicationsQuery
     (ApplicationsVariables (Some ''cursor-1'') 100) False
     (setCsrfToken (Some ''token-1'') (startWorld ()))
     = (Inr (ApplicationsData stuckPage),
        emit (Query ''ApiGetActiveApplications'' (Some ''token-1'') (Some 200))
          (setCsrfToken (Some ''token-1'') (startWorld ()))) \<and>
   moreDataAvailable stuckPage \<and> nextCursor stuckPage = Some ''cursor-1'' \<and>
   fetchApplicationPages stuckRemote [] (Some ''cursor-1'')
       (setCsrfToken (Some ''token-1'') (startWorld ()))
     = fetchApplicationPages stuckRemote ([] @ results stuckPage) (Some ''cursor-1'')
         (emit (Query ''ApiGetActiveApplications'' (Some ''token-1'') (Some 200))
            (setCsrfToken (Some ''token-1'') (startWorld ())))"
proof -
  have c1: "nextCursor firstPage = Some ''cursor-1''" by (simp add: firstPage_def)
  have run: "pageRun twoPageRemote None (startWorld ()) [firstPage, secondPage] (Inr ())
      \<lparr>session = sampleSession\<lparr>csrfToken := Some ''token-1''\<rparr>, server = (),
       trace = [TokenFetch (Some 200) (Some ''token-1''),
                Query ''ApiGetActiveApplications'' (Some ''token-1'') (Some 200),
                Query ''ApiGetActiveApplications'' (Some ''token-1'') (Some 200)]\<rparr>"
    by (rule pageRun.nextPage[OF twoPage_q1 _ pageRun.lastPage[OF twoPage_q2[folded c1]]])
       (simp_all add: firstPage_def secondPage_def)
  have q: "graphqlQuery stuckRemote ''ApiGetActiveApplications'' applicationsQuery
     (ApplicationsVariables (Some ''cursor-1'') 100) False
     (setCsrfToken (Some ''token-1'') (startWorld ()))
     = (Inr (ApplicationsData stuckPage),
        emit (Query ''ApiGetActiveApplications'' (Some ''token-1'') (Some 200))
          (setCsrfToken (Some ''token-1'') (startWorld ())))"
    by (rule stuck_query) simp_all
  have m: "moreDataAvailable stuckPage" "nextCursor stuckPage = Some ''cursor-1''"
    by (simp_all add: stuckPage_def)
  note main = pagination_ends_with_last_page
  from main[THEN conjunct1, THEN iffD2, OF exI, OF conjI, OF run refl]
       main[THEN conjunct2, rule_format, OF conjI, OF q conjI, OF m]
       run q m
  show ?thesis by blast
qed

section \<open>C1: the verification query after a switch\<close>

lemma switchOrgContext_cases [consumes 1, case_names pre_failed rejected refresh_failed switched]:
  assumes run: "switchOrgContext R uid w = (r, w')"
  obtains
    (pre_failed) e where
      "fetchCsrfToken R defaultRetries w = (Inl e, w')" "r = Inl e"
  | (rejected) csrf w1 st e where
      "fetchCsrfToken R defaultRetries w = (Inr csrf, w1)"
      "trace w' = trace w1 @ [ChangeUser uid st]" "session w' = session w1"
      "r = Inl e" "\<forall>s. st = Some s \<longrightarrow> \<not> ok s"
  | (refresh_failed) csrf w1 st w4 e w5 where
      "fetchCsrfToken R defaultRetries w = (Inr csrf, w1)"
      "ok st" "trace w4 = trace w1 @ [ChangeUser uid (Some st), Sleep 500]"
      "csrfToken (session w4) = csrfToken (session w1)"
      "fetchCsrfToken R defaultRetries w4 = (Inl e, w5)"
      "w' = setCsrfToken None w5" "r = Inl CsrfRefreshAfterSwitchFailed"
  | (switched) csrf w1 st w4 tok w5 verification where
      "fetchCsrfToken R defaultRetries w = (Inr csrf, w1)"
      "ok st" "trace w4 = trace w1 @ [ChangeUser uid (Some st), Sleep 500]"
      "csrfToken (session w4) = csrfToken (session w1)"
      "fetchCsrfToken R defaultRetries w4 = (Inr tok, w5)"
      "graphqlQuery R ''ApiGetSessionUser'' sessionUserQuery NoVariables False
         (setCsrfToken (Some tok) w5) = (verification, w')"
      "r = Inr ()"
proof -
  obtain r0 w1 where f0: "fetchCsrfToken R defaultRetries w = (r0, w1)"
    by (cases "fetchCsrfToken R defaultRetries w")
  show thesis
  proof (cases r0)
    case (Inl e)
    with run f0 have "w' = w1" "r = Inl e" by (auto simp: switchOrgContext_def)
    with f0 Inl pre_failed show ?thesis by blast
  next
    case (Inr csrf)
    obtain resp s' where cu: "change_user_endpoint R uid
        ((createAuthHeaders (session w1))\<lparr>h_csrf := Some csrf\<rparr>) (server w1) = (resp, s')"
      by (cases "change_user_endpoint R uid
        ((createAuthHeaders (session w1))\<lparr>h_csrf := Some csrf\<rparr>) (server w1)")
    show ?thesis
    proof (cases resp)
      case NetworkError
      with run f0 Inr cu
      have "trace w' = trace w1 @ [ChangeUser uid None]" "session w' = session w1"
           "r = Inl FetchRejected"
        by (auto simp: switchOrgContext_def)
      with f0 Inr rejected[of csrf w1 None FetchRejected] show ?thesis by simp
    next
      case (Response st sc b)
      show ?thesis
      proof (cases "ok st")
        case False
        with run f0 Inr cu Response
        have "trace w' = trace w1 @ [ChangeUser uid (Some st)]" "session w' = session w1"
             "r = Inl (SwitchOrgContextFailed st)"
          by (auto simp: switchOrgContext_def Let_def)
        with f0 Inr False rejected[of csrf w1 "Some st" "SwitchOrgContextFailed st"]
        show ?thesis by simp
      next
        case True
        define w4 where "w4 = setCookies (applySetCookie sc
             (cookies (session (emit (Sleep 500) (emit (ChangeUser uid (Some st)) (w1\<lparr>server := s'\<rparr>))))))
             (emit (Sleep 500) (emit (ChangeUser uid (Some st)) (w1\<lparr>server := s'\<rparr>)))"
        have t4: "trace w4 = trace w1 @ [ChangeUser uid (Some st), Sleep 500]"
          and c4: "csrfToken (session w4) = csrfToken (session w1)"
          by (simp_all add: w4_def)
        obtain r5 w5 where f5: "fetchCsrfToken R defaultRetries w4 = (r5, w5)"
          by (cases "fetchCsrfToken R defaultRetries w4")
        show ?thesis
        proof (cases r5)
          case (Inl e)
          with run f0 Inr cu Response True f5
          have "w' = setCsrfToken None w5" "r = Inl CsrfRefreshAfterSwitchFailed"
            by (auto simp: switchOrgContext_def Let_def w4_def)
          with f0 Inr True t4 c4 f5 Inl refresh_failed[of csrf w1 st w4 e w5]
          show ?thesis by simp
        next
          case (Inr tok)
          obtain v w6 where q: "graphqlQuery R ''ApiGetSessionUser'' sessionUserQuery NoVariables
              False (setCsrfToken (Some tok) w5) = (v, w6)"
            by (cases "graphqlQuery R ''ApiGetSessionUser'' sessionUserQuery NoVariables
              False (setCsrfToken (Some tok) w5)")
          with run f0 \<open>r0 = Inr csrf\<close> cu Response True f5 Inr
          have "w' = w6" "r = Inr ()"
            by (auto simp: switchOrgContext_def Let_def w4_def)
          with f0 \<open>r0 = Inr csrf\<close> True t4 c4 f5 Inr q switched[of csrf w1 st w4 tok w5 v]
          show ?thesis by simp
        qed
      qed
    qed
  qed
qed

lemma tokenEvents_no_query: "list_all isTokenFetchOrSleep evs \<Longrightarrow> \<forall>e\<in>set evs. \<not> isQuery e"
  by (induction evs) (auto elim: isTokenFetchOrSleep.elims)

lemma switch_failed_no_query:
  assumes "switchOrgContext R uid w = (Inl e, w')"
  shows "\<exists>evs. trace w' = trace w @ evs \<and> (\<forall>ev\<in>set evs. \<not> isQuery ev)"
  using assms
proof (cases rule: switchOrgContext_cases)
  case (pre_failed e)
  from fetchCsrfToken_facts(3)[OF pre_failed(1)] tokenEvents_no_query show ?thesis by blast
next
  case (rejected csrf w1 st e)
  from fetchCsrfToken_facts(3)[OF rejected(1)] obtain evs where
    "trace w1 = trace w @ evs" "list_all isTokenFetchOrSleep evs" by blast
  with rejected(2) tokenEvents_no_query[of evs] show ?thesis
    by (intro exI[of _ "evs @ [ChangeUser uid st]"]) auto
next
  case (refresh_failed csrf w1 st w4 e w5)
  from fetchCsrfToken_facts(3)[OF refresh_failed(1)] obtain evs where
    a: "trace w1 = trace w @ evs" "list_all isTokenFetchOrSleep evs" by blast
  from fetchCsrfToken_facts(3)[OF refresh_failed(5)] obtain evs' where
    b: "trace w5 = trace w4 @ evs'" "list_all isTokenFetchOrSleep evs'" by blast
  from a b refresh_failed(3,6) tokenEvents_no_query[of evs] tokenEvents_no_query[of evs']
  show ?thesis
    by (intro exI[of _ "evs @ [ChangeUser uid (Some st), Sleep 500] @ evs'"]) auto
next
  case (switched csrf w1 st w4 tok w5 verification)
  then show ?thesis by simp
qed

text \<open>
  Against C1 as stated: a remote that accepts the switch request for \<open>user-T\<close> while
  its session stays in \<open>org-other\<close>. The verification query reports \<open>org-other\<close>,
  \<open>switchOrgContext\<close> returns normally all the same, and \<open>fetchPipelineForOrg\<close> goes
  on to run the extraction queries and files the records of \<open>org-other\<close> under
  \<open>org-T\<close>.
\<close>

theorem verification_mismatch_counterexample:
  "graphqlQuery singleTenantRemote ''ApiGetSessionUser'' sessionUserQuery NoVariables False
     \<lparr>session = sampleSession\<lparr>csrfToken := Some ''token-1''\<rparr>, server = (),
      trace = [TokenFetch (Some 200) (Some ''token-1''), ChangeUser ''user-T'' (Some 200),
               Sleep 500, TokenFetch (Some 200) (Some ''token-1'')]\<rparr>
   = (Inr (SessionUserData \<lparr>organizationId = ''org-other'', organizationName = Some ''Other Org''\<rparr>),
      \<lparr>session = sampleSession\<lparr>csrfToken := Some ''token-1''\<rparr>, server = (),
       trace = [TokenFetch (Some 200) (Some ''token-1''), ChangeUser ''user-T'' (Some 200),
                Sleep 500, TokenFetch (Some 200) (Some ''token-1''),
                Query ''ApiGetSessionUser'' (Some ''token-1'') (Some 200)]\<rparr>) \<and>
   switchOrgContext singleTenantRemote ''user-T'' (startWorld ())
   = (Inr (),
      \<lparr>session = sampleSession\<lparr>csrfToken := Some ''token-1''\<rparr>, server = (),
       trace = [TokenFetch (Some 200) (Some ''token-1''), ChangeUser ''user-T'' (Some 200),
                Sleep 500, TokenFetch (Some 200) (Some ''token-1''),
                Query ''ApiGetSessionUser'' (Some ''token-1'') (Some 200)]\<rparr>) \<and>
   fetchPipelineForOrg singleTenantRemote sampleEnv ''org-T'' (Some ''user-T'') (startWorld ())
   = Some (Inr (normalizePipelineData sampleEnv [sampleJob ''other'']
                  [sampleApplication ''other''] ''org-T'' None),
      \<lparr>session = sampleSession\<lparr>csrfToken := Some ''token-1''\<rparr>, server = (),
       trace = [TokenFetch (Some 200) (Some ''token-1''), ChangeUser ''user-T'' (Some 200),
                Sleep 500, TokenFetch (Some 200) (Some ''token-1''),
                Query ''ApiGetSessionUser'' (Some ''token-1'') (Some 200),
                TokenFetch (Some 200) (Some ''token-1''),
                Query ''ApiOpenJobs'' (Some ''token-1'') (Some 200),
                Query ''ApiGetActiveApplications'' (Some ''token-1'') (Some 200),
                Query ''ApiGetSessionUser'' (Some ''token-1'') (Some 200)]\<rparr>)"
  by (simp add: client_defs singleTenantRemote_def fetchPipelineForOrg_def
        fetchApplicationPages.simps)

text \<open>
  C1, amended. The verification query never decides the outcome of a switch: once
  \<open>switchOrgContext\<close> has issued it, the switch has succeeded, whatever tenant the
  query reports and also when the query fails. The switch fails only before that
  query (token fetch, switch request or token refresh failed); then
  \<open>fetchPipelineForOrg\<close> returns the empty result in the state the failed switch
  left, so that no extraction query is run for the tenant.
\<close>

theorem switch_outcome_ignores_verification:
  assumes "switchOrgContext R uid w = (r, w')"
  shows "\<exists>evs. trace w' = trace w @ evs \<and>
           ((\<exists>ev\<in>set evs. isQuery ev) \<longrightarrow> r = Inr ()) \<and>
           (\<forall>e. r = Inl e \<and> uid \<noteq> [] \<and> orgIdV \<noteq> ''default'' \<longrightarrow>
              fetchPipelineForOrg R E orgIdV (Some uid) w = Some (Inr emptyResult, w'))"
proof (cases r)
  case (Inl e)
  with assms switch_failed_no_query[of R uid w e w'] obtain evs where
    "trace w' = trace w @ evs" "\<forall>ev\<in>set evs. \<not> isQuery ev" by blast
  moreover from assms Inl have "uid \<noteq> [] \<and> orgIdV \<noteq> ''default'' \<longrightarrow>
       fetchPipelineForOrg R E orgIdV (Some uid) w = Some (Inr emptyResult, w')"
    by (simp add: fetchPipelineForOrg_def)
  ultimately show ?thesis using Inl by blast
next
  case (Inr u)
  from assms have "\<exists>evs. trace w' = trace w @ evs"
  proof (cases rule: switchOrgContext_cases)
    case (switched csrf w1 st w4 tok w5 verification)
    from fetchCsrfToken_facts(3)[OF switched(1)] obtain e1 where "trace w1 = trace w @ e1" by blast
    moreover from fetchCsrfToken_facts(3)[OF switched(5)] obtain e2 where "trace w5 = trace w4 @ e2" by blast
    moreover from switched(6) obtain e3 where "trace w' = trace (setCsrfToken (Some tok) w5) @ e3"
      by (cases rule: graphqlQuery_cases) (auto dest!: resolveCsrfToken_facts(2))
    ultimately show ?thesis using switched(3) by simp
  qed (use Inr in simp_all)
  with Inr show ?thesis by auto
qed

theorem switch_outcome_ignores_verification_witness:
  "switchOrgContext switchFailsForB ''user-B'' (startWorld ''user-0'')
     = (Inl (SwitchOrgContextFailed 500),
        \<lparr>session = sampleSession, server = ''user-0'',
         trace = [TokenFetch (Some 200) (Some ''token-user-0''),
                  ChangeUser ''user-B'' (Some 500)]\<rparr>) \<and>
   fetchPipelineForOrg switchFailsForB sampleEnv ''org-of-user-B'' (Some ''user-B'')
       (startWorld ''user-0'')
     = Some (Inr emptyResult,
        \<lparr>session = sampleSession, server = ''user-0'',
         trace = [TokenFetch (Some 200) (Some ''token-user-0''),
                  ChangeUser ''user-B'' (Some 500)]\<rparr>)"
proof -
  have run: "switchOrgContext switchFailsForB ''user-B'' (startWorld ''user-0'')
     = (Inl (SwitchOrgContextFailed 500),
        \<lparr>session = sampleSession, server = ''user-0'',
         trace = [TokenFetch (Some 200) (Some ''token-user-0''),
                  ChangeUser ''user-B'' (Some 500)]\<rparr>)"
    by (simp add: client_defs run_defs switchFailsForB_def)
  from switch_outcome_ignores_verification[OF run, of "''org-of-user-B''" sampleEnv]
  have "fetchPipelineForOrg switchFailsForB sampleEnv ''org-of-user-B'' (Some ''user-B'')
       (startWorld ''user-0'')
     = Some (Inr emptyResult,
        \<lparr>session = sampleSession, server = ''user-0'',
         trace = [TokenFetch (Some 200) (Some ''token-user-0''),
                  ChangeUser ''user-B'' (Some 500)]\<rparr>)"
    by auto
  with run show ?thesis by simp
qed

section \<open>C8: discovery with an empty remote list\<close>

text \<open>
  Against C8 as stated: the remote lists no identities and the session is valid (the
  token fetch succeeds and the session user is in \<open>org-other\<close>).
  \<open>fetchAvailableOrgs\<close> returns the synthetic descriptor, but the run does not call
  it: \<open>extractCommand\<close> reports that no organizations were found and stops with
  exit code 1.
\<close>

theorem empty_discovery_stops_run_counterexample:
  "fetchAvailableOrgs singleTenantRemote (startWorld ())
   = (Inr [\<lparr>oi_id = ''org-other'', oi_name = ''Other Org''\<rparr>],
      \<lparr>session = sampleSession\<lparr>csrfToken := Some ''token-1''\<rparr>, server = (),
       trace = [TokenFetch (Some 200) (Some ''token-1''), Identities (Some 200),
                Query ''ApiGetSessionUser'' (Some ''token-1'') (Some 200)]\<rparr>) \<and>
   extractCommand singleTenantRemote sampleEnv basicOptions (Some sampleSession) ()
   = Some (\<lparr>exitCode = 1, stopped = Some NoOrganizationsFound,
            aggregated = emptyAggregate, exported = None\<rparr>,
      \<lparr>session = sampleSession\<lparr>csrfToken := Some ''token-1''\<rparr>, server = (),
       trace = [TokenFetch (Some 200) (Some ''token-1''), Identities (Some 200)]\<rparr>)"
  by (simp add: client_defs singleTenantRemote_def fetchAvailableOrgs_def extractCommand_def
        stopWith_def orElse_def)

text \<open>
  C8, amended. When the remote list is empty and the session-user query succeeds with
  a non-empty organization id, \<open>fetchAvailableOrgs\<close> returns the single synthetic
  descriptor of that organization, named by its name or, without one, by its id. The
  run does not use this fallback: \<open>extractCommand\<close> calls
  \<open>fetchAllAvailableOrgs\<close>, and on an empty list it reports that no organizations
  were found and stops with exit code 1.
\<close>

theorem discovery_fallback_not_used_by_run:
  "(fetchAllAvailableOrgs R w = (Inr [], w1) \<and>
    graphqlQuery R ''ApiGetSessionUser'' sessionUserQueryWithId NoVariables False w1
      = (Inr (SessionUserData u), w2) \<and>
    organizationId u \<noteq> [] \<longrightarrow>
      fetchAvailableOrgs R w
        = (Inr [\<lparr>oi_id = organizationId u,
                 oi_name = (case organizationName u of
                              None \<Rightarrow> organizationId u
                            | Some n \<Rightarrow> if n = [] then organizationId u else n)\<rparr>], w2)) \<and>
   (hasAuthCookie sess \<and>
    fetchAllAvailableOrgs R \<lparr>session = sess, server = s0, trace = []\<rparr> = (Inr [], w1) \<longrightarrow>
      extractCommand R E options (Some sess) s0
        = Some (\<lparr>exitCode = 1, stopped = Some NoOrganizationsFound,
                 aggregated = emptyAggregate, exported = None\<rparr>, w1))"
  by (auto simp: fetchAvailableOrgs_def extractCommand_def stopWith_def orElse_def truthy_def
           split: option.splits)

theorem discovery_fallback_not_used_by_run_witness:
  "fetchAvailableOrgs singleTenantRemote (startWorld ())
     = (Inr [\<lparr>oi_id = ''org-other'', oi_name = ''Other Org''\<rparr>],
        \<lparr>session = sampleSession\<lparr>csrfToken := Some ''token-1''\<rparr>, server = (),
         trace = [TokenFetch (Some 200) (Some ''token-1''), Identities (Some 200),
                  Query ''ApiGetSessionUser'' (Some ''token-1'') (Some 200)]\<rparr>) \<and>
   extractCommand singleTenantRemote sampleEnv basicOptions (Some sampleSession) ()
     = Some (\<lparr>exitCode = 1, stopped = Some NoOrganizationsFound,
              aggregated = emptyAggregate, exported = None\<rparr>,
        \<lparr>session = sampleSession\<lparr>csrfToken := Some ''token-1''\<rparr>, server = (),
         trace = [TokenFetch (Some 200) (Some ''token-1''), Identities (Some 200)]\<rparr>)"
proof -
  let ?w1 = "\<lparr>session = sampleSession\<lparr>csrfToken := Some ''token-1''\<rparr>, server = (),
         trace = [TokenFetch (Some 200) (Some ''token-1''), Identities (Some 200)]\<rparr>"
  let ?u = "\<lparr>organizationId = ''org-other'', organizationName = Some ''Other Org''\<rparr>"
  have d: "fetchAllAvailableOrgs singleTenantRemote (startWorld ()) = (Inr [], ?w1)"
    by (simp add: client_defs singleTenantRemote_def)
  have d': "fetchAllAvailableOrgs singleTenantRemote
              \<lparr>session = sampleSession, server = (), trace = []\<rparr> = (Inr [], ?w1)"
    using d by (simp add: startWorld_def)
  have q: "graphqlQuery singleTenantRemote ''ApiGetSessionUser'' sessionUserQueryWithId
             NoVariables False ?w1
           = (Inr (SessionUserData ?u),
              \<lparr>session = sampleSession\<lparr>csrfToken := Some ''token-1''\<rparr>, server = (),
               trace = [TokenFetch (Some 200) (Some ''token-1''), Identities (Some 200),
                        Query ''ApiGetSessionUser'' (Some ''token-1'') (Some 200)]\<rparr>)"
    by (simp add: client_defs singleTenantRemote_def)
  have n: "organizationId ?u \<noteq> []" by simp
  have c: "hasAuthCookie sampleSession" by (simp add: client_defs)
  note main = discovery_fallback_not_used_by_run
  from main[THEN conjunct1, rule_format, OF conjI, OF d conjI, OF q n]
       main[THEN conjunct2, rule_format, OF conjI, OF c d', of sampleEnv basicOptions]
  show ?thesis by simp
qed

section \<open>C2: an authorization rejection during the run\<close>

text \<open>
  Against C2 as stated: three tenants; while the session is bound to Beta's user every
  query is answered 401, so the extraction for Beta fails with an authorization
  rejection. The run records Beta as failed and goes on to Gamma, whose record is in
  the output after Acme's three.
\<close>

theorem session_invalid_run_continues_counterexample:
  "extractCommand unauthorizedForB sampleEnv basicOptions (Some sampleSession) ''user-0''
   = Some (\<lparr>exitCode = 0, stopped = None,
            aggregated =
              \<lparr>allCompanies = [defaultCompany, defaultCompany],
               allJobs = [engineerJob ''job-user-A'', engineerJob ''job-1'',
                          engineerJob ''job-user-C'', engineerJob ''job-1''],
               allCandidates =
                 map (candidateOf sampleEnv ''org-of-user-A'' None) appsOfA @
                 [candidateOf sampleEnv ''org-of-user-C'' None (sampleApplication ''c1'')],
               failedOrgs = [''Beta'']\<rparr>,
            exported =
              Some \<lparr>companies = [defaultCompany, defaultCompany],
                    jobs = [engineerJob ''job-user-A'', engineerJob ''job-1'',
                            engineerJob ''job-user-C'', engineerJob ''job-1''],
                    candidates =
                      map (candidateOf sampleEnv ''org-of-user-A'' None) appsOfA @
                      [candidateOf sampleEnv ''org-of-user-C'' None (sampleApplication ''c1'')]\<rparr>\<rparr>,
      \<lparr>session = sampleSession\<lparr>csrfToken := Some ''token-user-C''\<rparr>, server = ''user-C'',
       trace = trace discoveredWorld @ extractionEvents ''token-user-0'' ''user-A'' @ [Sleep 500] @
               rejectedEvents @ [Sleep 500] @ extractionEvents ''token-user-B'' ''user-C''\<rparr>)"
  by (simp add: client_defs run_defs unauthorizedForB_def data_defs)

lemma extractAttempts_extends:
  "extractAttempts R E orgInfo m attempt agg w = Some (agg', w') \<Longrightarrow>
   prefix (allCompanies agg) (allCompanies agg') \<and> prefix (allJobs agg) (allJobs agg') \<and>
   prefix (allCandidates agg) (allCandidates agg') \<and> prefix (failedOrgs agg) (failedOrgs agg')"
proof (induction R E orgInfo m attempt agg w rule: extractAttempts.induct)
  case (1 R E orgInfo m attempt agg w)
  show ?case
  proof (cases "attempt \<le> m")
    case False
    with "1.prems" show ?thesis by (simp add: extractAttempts.simps)
  next
    case le: True
    show ?thesis
    proof (cases "fetchPipelineForOrg R E (org_id orgInfo) (Some (userId orgInfo)) w")
      case None
      with "1.prems" le show ?thesis by (simp add: extractAttempts.simps)
    next
      case (Some res)
      obtain r w1 where res: "res = (r, w1)" by (cases res)
      show ?thesis
      proof (cases r)
        case (Inr pr)
        with "1.prems" le Some res show ?thesis
          by (subst (asm) extractAttempts.simps) auto
      next
        case (Inl e)
        show ?thesis
        proof (cases "attempt = m")
          case True
          with "1.prems" le Some res Inl show ?thesis
            by (subst (asm) extractAttempts.simps) auto
        next
          case False
          with "1.prems" le Some res Inl
          have "extractAttempts R E orgInfo m (attempt + 1) agg
                  (emit (Sleep (nat (1000 * attempt))) w1) = Some (agg', w')"
            by (subst (asm) extractAttempts.simps) simp
          from "1.IH"[OF le Some res[symmetric] Inl False this] show ?thesis .
        qed
      qed
    qed
  qed
qed

lemma processOrgs_extends:
  "processOrgs R E m orgs agg w = Some (agg', w') \<Longrightarrow>
   prefix (allCompanies agg) (allCompanies agg') \<and> prefix (allJobs agg) (allJobs agg') \<and>
   prefix (allCandidates agg) (allCandidates agg') \<and> prefix (failedOrgs agg) (failedOrgs agg')"
proof (induction orgs arbitrary: agg w)
  case Nil
  then show ?case by simp
next
  case (Cons orgInfo rest)
  show ?case
  proof (cases "userId orgInfo = []")
    case True
    with Cons.prems Cons.IH[of "agg\<lparr>failedOrgs := failedOrgs agg @ [orgDisplayName orgInfo @ '' - no userId'']\<rparr>" w]
    show ?thesis by (auto dest: append_prefixD)
  next
    case False
    with Cons.prems obtain agg1 w1 where
      a: "extractAttempts R E orgInfo m 1 agg w = Some (agg1, w1)"
      and b: "processOrgs R E m rest agg1 (if rest \<noteq> [] then emit (Sleep 500) w1 else w1) = Some (agg', w')"
      by (auto split: option.splits)
    from extractAttempts_extends[OF a] Cons.IH[OF b] show ?thesis
      by (meson prefix_order.trans)
  qed
qed

lemma processOrgs_append:
  "processOrgs R E m (pre @ post) agg w
     = (case processOrgs R E m pre agg w of
          None \<Rightarrow> None
        | Some (agg1, w1) \<Rightarrow>
            processOrgs R E m post agg1
              (if pre \<noteq> [] \<and> post \<noteq> [] \<and> userId (last pre) \<noteq> []
               then emit (Sleep 500) w1 else w1))"
proof (induction pre arbitrary: agg w)
  case Nil
  then show ?case by simp
next
  case (Cons x pre)
  show ?case
  proof (cases "pre = []")
    case True
    then show ?thesis by (auto split: option.splits)
  next
    case False
    then have c: "(x # pre \<noteq> [] \<and> post \<noteq> [] \<and> userId (last (x # pre)) \<noteq> [])
                    = (pre \<noteq> [] \<and> post \<noteq> [] \<and> userId (last pre) \<noteq> [])"
      and ne: "pre @ post \<noteq> []" by simp_all
    show ?thesis
    proof (cases "userId x = []")
      case True
      let ?agg = "agg\<lparr>failedOrgs := failedOrgs agg @ [orgDisplayName x @ '' - no userId'']\<rparr>"
      from True have lhs: "processOrgs R E m ((x # pre) @ post) agg w
                             = processOrgs R E m (pre @ post) ?agg w" by simp
      from True have mid: "processOrgs R E m (x # pre) agg w = processOrgs R E m pre ?agg w"
        by simp
      show ?thesis unfolding lhs mid c by (rule Cons.IH)
    next
      case uid: False
      show ?thesis
      proof (cases "extractAttempts R E x m 1 agg w")
        case None
        with uid show ?thesis by simp
      next
        case (Some r)
        obtain agg1 w1 where r: "r = (agg1, w1)" by (cases r)
        from uid Some r ne have lhs: "processOrgs R E m ((x # pre) @ post) agg w
                        = processOrgs R E m (pre @ post) agg1 (emit (Sleep 500) w1)" by simp
        from uid Some r False
        have mid: "processOrgs R E m (x # pre) agg w
                     = processOrgs R E m pre agg1 (emit (Sleep 500) w1)"
          by simp
        show ?thesis unfolding lhs mid c by (rule Cons.IH)
      qed
    qed
  qed
qed

text \<open>
  C2, amended. No failure stops the run, an authorization rejection included.

  \<^item> What is aggregated is never discarded: the companies, jobs, candidates and
    failure entries held before the loop over the tenants are a prefix of those held
    after it.
  \<^item> When the extraction for tenant \<open>a\<close> throws any error \<open>e\<close> (with the default of
    one attempt per tenant), the loop records \<open>a\<close> in the failure list and goes on
    with the tenants after \<open>a\<close>.
  \<^item> When the error arises inside the switch to tenant \<open>b\<close> (a 401 answered to the
    token fetch of \<open>switchOrgContext\<close>, for one), \<open>fetchPipelineForOrg\<close> catches it:
    the loop goes on with the tenants after \<open>b\<close> and \<open>b\<close> adds nothing to the
    aggregate, no failure entry either.
  \<^item> This holds at every position of the tenant list: the loop over \<open>pre @ post\<close> is
    the loop over \<open>pre\<close> followed by the loop over \<open>post\<close> from the aggregate and the
    state reached (after the pause between two tenants).
\<close>

theorem failed_tenant_does_not_stop_run:
  "(processOrgs R E m orgs agg w = Some (agg', w') \<longrightarrow>
      prefix (allCompanies agg) (allCompanies agg') \<and> prefix (allJobs agg) (allJobs agg') \<and>
      prefix (allCandidates agg) (allCandidates agg') \<and> prefix (failedOrgs agg) (failedOrgs agg')) \<and>
   (userId a \<noteq> [] \<and>
    fetchPipelineForOrg R E (org_id a) (Some (userId a)) w = Some (Inl e, w1) \<longrightarrow>
      processOrgs R E 1 (a # rest) agg w
        = processOrgs R E 1 rest (agg\<lparr>failedOrgs := failedOrgs agg @ [orgDisplayName a]\<rparr>)
            (if rest \<noteq> [] then emit (Sleep 500) w1 else w1)) \<and>
   (userId b \<noteq> [] \<and> org_id b \<noteq> ''default'' \<and> 1 \<le> n \<and>
    switchOrgContext R (userId b) v = (Inl e', vB) \<longrightarrow>
      processOrgs R E n (b # others) aggB v
        = processOrgs R E n others aggB (if others \<noteq> [] then emit (Sleep 500) vB else vB)) \<and>
   processOrgs R E k (pre @ post) aggP u
     = (case processOrgs R E k pre aggP u of
          None \<Rightarrow> None
        | Some (agg3, u1) \<Rightarrow>
            processOrgs R E k post agg3
              (if pre \<noteq> [] \<and> post \<noteq> [] \<and> userId (last pre) \<noteq> []
               then emit (Sleep 500) u1 else u1))"
proof (intro conjI impI)
  assume "processOrgs R E m orgs agg w = Some (agg', w')"
  from processOrgs_extends[OF this]
  show "prefix (allCompanies agg) (allCompanies agg')" "prefix (allJobs agg) (allJobs agg')"
    "prefix (allCandidates agg) (allCandidates agg')" "prefix (failedOrgs agg) (failedOrgs agg')"
    by simp_all
next
  assume "userId a \<noteq> [] \<and>
          fetchPipelineForOrg R E (org_id a) (Some (userId a)) w = Some (Inl e, w1)"
  then show "processOrgs R E 1 (a # rest) agg w
        = processOrgs R E 1 rest (agg\<lparr>failedOrgs := failedOrgs agg @ [orgDisplayName a]\<rparr>)
            (if rest \<noteq> [] then emit (Sleep 500) w1 else w1)"
    by (auto simp: extractAttempts.simps[of R E a 1 1 agg w])
next
  assume "userId b \<noteq> [] \<and> org_id b \<noteq> ''default'' \<and> 1 \<le> n \<and>
          switchOrgContext R (userId b) v = (Inl e', vB)"
  then show "processOrgs R E n (b # others) aggB v
        = processOrgs R E n others aggB (if others \<noteq> [] then emit (Sleep 500) vB else vB)"
    by (simp add: extractAttempts.simps[of R E b n 1] fetchPipelineForOrg_def emptyResult_def)
next
  show "processOrgs R E k (pre @ post) aggP u
     = (case processOrgs R E k pre aggP u of
          None \<Rightarrow> None
        | Some (agg3, u1) \<Rightarrow>
            processOrgs R E k post agg3
              (if pre \<noteq> [] \<and> post \<noteq> [] \<and> userId (last pre) \<noteq> []
               then emit (Sleep 500) u1 else u1))"
    by (rule processOrgs_append)
qed

theorem failed_tenant_does_not_stop_run_witness:
  "fetchPipelineForOrg unauthorizedForB sampleEnv (org_id beta) (Some (userId beta)) discoveredWorld
     = Some (Inl (GraphQLRequestFailed 401),
        \<lparr>session = sampleSession\<lparr>csrfToken := Some ''token-user-B''\<rparr>, server = ''user-B'',
         trace = trace discoveredWorld @
                 [TokenFetch (Some 200) (Some ''token-user-0''),
                  ChangeUser ''user-B'' (Some 200), Sleep 500,
                  TokenFetch (Some 200) (Some ''token-user-B''),
                  Query ''ApiGetSessionUser'' (Some ''token-user-B'') (Some 401),
                  TokenFetch (Some 200) (Some ''token-user-B''),
                  Query ''ApiOpenJobs'' (Some ''token-user-B'') (Some 401)]\<rparr>) \<and>
   processOrgs unauthorizedForB sampleEnv 1 [beta, gamma] emptyAggregate discoveredWorld
     = Some (\<lparr>allCompanies = [defaultCompany],
              allJobs = [engineerJob ''job-user-C'', engineerJob ''job-1''],
              allCandidates = [candidateOf sampleEnv ''org-of-user-C'' None (sampleApplication ''c1'')],
              failedOrgs = [''Beta'']\<rparr>,
        \<lparr>session = sampleSession\<lparr>csrfToken := Some ''token-user-C''\<rparr>, server = ''user-C'',
         trace = trace discoveredWorld @
                 [TokenFetch (Some 200) (Some ''token-user-0''),
                  ChangeUser ''user-B'' (Some 200), Sleep 500,
                  TokenFetch (Some 200) (Some ''token-user-B''),
                  Query ''ApiGetSessionUser'' (Some ''token-user-B'') (Some 401),
                  TokenFetch (Some 200) (Some ''token-user-B''),
                  Query ''ApiOpenJobs'' (Some ''token-user-B'') (Some 401), Sleep 500] @
                 extractionEvents ''token-user-B'' ''user-C''\<rparr>) \<and>
   prefix (failedOrgs emptyAggregate) [''Beta''] \<and>
   switchOrgContext expiresAfterAcme (userId beta)
       (emit (Sleep 500)
          \<lparr>session = sampleSession\<lparr>csrfToken := Some ''token-user-A''\<rparr>,
           server = (''user-A'', 4),
           trace = trace discoveredWorld @ extractionEvents ''token-user-0'' ''user-A''\<rparr>)
     = (Inl CsrfTokenUnauthorized,
        \<lparr>session = sampleSession\<lparr>csrfToken := Some ''token-user-A''\<rparr>,
         server = (''user-A'', 5),
         trace = trace discoveredWorld @ extractionEvents ''token-user-0'' ''user-A'' @
                 [Sleep 500, TokenFetch (Some 401) None]\<rparr>) \<and>
   processOrgs expiresAfterAcme sampleEnv 1 ([acme] @ [beta, gamma]) emptyAggregate
       \<lparr>session = sampleSession\<lparr>csrfToken := Some ''token-user-0''\<rparr>,
        server = (''user-0'', 1), trace = trace discoveredWorld\<rparr>
     = Some (\<lparr>allCompanies = [defaultCompany],
              allJobs = [engineerJob ''job-user-A'', engineerJob ''job-1''],
              allCandidates = map (candidateOf sampleEnv ''org-of-user-A'' None) appsOfA,
              failedOrgs = []\<rparr>,
        \<lparr>session = sampleSession\<lparr>csrfToken := Some ''token-user-A''\<rparr>,
         server = (''user-A'', 6),
         trace = trace discoveredWorld @ extractionEvents ''token-user-0'' ''user-A'' @
                 [Sleep 500, TokenFetch (Some 401) None,
                  Sleep 500, TokenFetch (Some 401) None]\<rparr>)"
proof -
  let ?w1 = "\<lparr>session = sampleSession\<lparr>csrfToken := Some ''token-user-B''\<rparr>, server = ''user-B'',
         trace = trace discoveredWorld @
                 [TokenFetch (Some 200) (Some ''token-user-0''),
                  ChangeUser ''user-B'' (Some 200), Sleep 500,
                  TokenFetch (Some 200) (Some ''token-user-B''),
                  Query ''ApiGetSessionUser'' (Some ''token-user-B'') (Some 401),
                  TokenFetch (Some 200) (Some ''token-user-B''),
                  Query ''ApiOpenJobs'' (Some ''token-user-B'') (Some 401)]\<rparr>"
  have u: "userId beta \<noteq> []" by (simp add: beta_def)
  have f: "fetchPipelineForOrg unauthorizedForB sampleEnv (org_id beta) (Some (userId beta))
             discoveredWorld = Some (Inl (GraphQLRequestFailed 401), ?w1)"
    by (simp add: client_defs run_defs unauthorizedForB_def data_defs)
  have rest: "processOrgs unauthorizedForB sampleEnv 1 [gamma]
                (emptyAggregate\<lparr>failedOrgs := failedOrgs emptyAggregate @ [orgDisplayName beta]\<rparr>)
                (if [gamma] \<noteq> [] then emit (Sleep 500) ?w1 else ?w1)
     = Some (\<lparr>allCompanies = [defaultCompany],
              allJobs = [engineerJob ''job-user-C'', engineerJob ''job-1''],
              allCandidates = [candidateOf sampleEnv ''org-of-user-C'' None (sampleApplication ''c1'')],
              failedOrgs = [''Beta'']\<rparr>,
        \<lparr>session = sampleSession\<lparr>csrfToken := Some ''token-user-C''\<rparr>, server = ''user-C'',
         trace = trace discoveredWorld @
                 [TokenFetch (Some 200) (Some ''token-user-0''),
                  ChangeUser ''user-B'' (Some 200), Sleep 500,
                  TokenFetch (Some 200) (Some ''token-user-B''),
                  Query ''ApiGetSessionUser'' (Some ''token-user-B'') (Some 401),
                  TokenFetch (Some 200) (Some ''token-user-B''),
                  Query ''ApiOpenJobs'' (Some ''token-user-B'') (Some 401), Sleep 500] @
                 extractionEvents ''token-user-B'' ''user-C''\<rparr>)"
    by (simp add: client_defs run_defs unauthorizedForB_def data_defs)
  note main = failed_tenant_does_not_stop_run
  from main[THEN conjunct2, THEN conjunct1, rule_format, OF conjI, OF u f, of "[gamma]" emptyAggregate]
  have step: "processOrgs unauthorizedForB sampleEnv 1 [beta, gamma] emptyAggregate discoveredWorld
     = processOrgs unauthorizedForB sampleEnv 1 [gamma]
         (emptyAggregate\<lparr>failedOrgs := failedOrgs emptyAggregate @ [orgDisplayName beta]\<rparr>)
         (if [gamma] \<noteq> [] then emit (Sleep 500) ?w1 else ?w1)" .
  from main[THEN conjunct1, rule_format, OF step[unfolded rest]]
  have pre: "prefix (failedOrgs emptyAggregate) [''Beta'']" by simp

  let ?d = "\<lparr>session = sampleSession\<lparr>csrfToken := Some ''token-user-0''\<rparr>,
             server = (''user-0'', 1::nat), trace = trace discoveredWorld\<rparr>"
  let ?aggA = "\<lparr>allCompanies = [defaultCompany],
              allJobs = [engineerJob ''job-user-A'', engineerJob ''job-1''],
              allCandidates = map (candidateOf sampleEnv ''org-of-user-A'' None) appsOfA,
              failedOrgs = []\<rparr>"
  let ?wA = "\<lparr>session = sampleSession\<lparr>csrfToken := Some ''token-user-A''\<rparr>,
           server = (''user-A'', 4::nat),
           trace = trace discoveredWorld @ extractionEvents ''token-user-0'' ''user-A''\<rparr>"
  let ?v1 = "\<lparr>session = sampleSession\<lparr>csrfToken := Some ''token-user-A''\<rparr>,
         server = (''user-A'', 5::nat),
         trace = trace discoveredWorld @ extractionEvents ''token-user-0'' ''user-A'' @
                 [Sleep 500, TokenFetch (Some 401) None]\<rparr>"
  let ?v2 = "\<lparr>session = sampleSession\<lparr>csrfToken := Some ''token-user-A''\<rparr>,
         server = (''user-A'', 6::nat),
         trace = trace discoveredWorld @ extractionEvents ''token-user-0'' ''user-A'' @
                 [Sleep 500, TokenFetch (Some 401) None,
                  Sleep 500, TokenFetch (Some 401) None]\<rparr>"
  have first: "processOrgs expiresAfterAcme sampleEnv 1 [acme] emptyAggregate ?d = Some (?aggA, ?wA)"
    by (simp add: client_defs run_defs expiresAfterAcme_def expiringAfter_def data_defs)
  have sb: "switchOrgContext expiresAfterAcme (userId beta) (emit (Sleep 500) ?wA)
              = (Inl CsrfTokenUnauthorized, ?v1)"
    by (simp add: client_defs expiresAfterAcme_def expiringAfter_def tenantRemote_def beta_def
          discoveredWorld_def extractionEvents_def)
  have sg: "switchOrgContext expiresAfterAcme (userId gamma) (emit (Sleep 500) ?v1)
              = (Inl CsrfTokenUnauthorized, ?v2)"
    by (simp add: client_defs expiresAfterAcme_def expiringAfter_def tenantRemote_def gamma_def
          discoveredWorld_def extractionEvents_def)
  have hb: "userId beta \<noteq> [] \<and> org_id beta \<noteq> ''default'' \<and> (1::int) \<le> 1 \<and>
            switchOrgContext expiresAfterAcme (userId beta) (emit (Sleep 500) ?wA)
              = (Inl CsrfTokenUnauthorized, ?v1)"
    using sb by (simp add: beta_def)
  have hg: "userId gamma \<noteq> [] \<and> org_id gamma \<noteq> ''default'' \<and> (1::int) \<le> 1 \<and>
            switchOrgContext expiresAfterAcme (userId gamma) (emit (Sleep 500) ?v1)
              = (Inl CsrfTokenUnauthorized, ?v2)"
    using sg by (simp add: gamma_def)
  note swallowed = main[THEN conjunct2, THEN conjunct2, THEN conjunct1, rule_format]
  from swallowed[OF hb, where E = sampleEnv and others = "[gamma]" and aggB = ?aggA]
  have step_b: "processOrgs expiresAfterAcme sampleEnv 1 [beta, gamma] ?aggA (emit (Sleep 500) ?wA)
                  = processOrgs expiresAfterAcme sampleEnv 1 [gamma] ?aggA (emit (Sleep 500) ?v1)"
    by simp
  from swallowed[OF hg, where E = sampleEnv and others = "[]" and aggB = ?aggA]
  have step_g: "processOrgs expiresAfterAcme sampleEnv 1 [gamma] ?aggA (emit (Sleep 500) ?v1)
                  = Some (?aggA, ?v2)"
    by simp
  from main[where R = expiresAfterAcme and E = sampleEnv and k = 1 and pre = "[acme]"
              and post = "[beta, gamma]" and aggP = emptyAggregate and u = ?d,
            THEN conjunct2, THEN conjunct2, THEN conjunct2]
  have "processOrgs expiresAfterAcme sampleEnv 1 ([acme] @ [beta, gamma]) emptyAggregate ?d
          = processOrgs expiresAfterAcme sampleEnv 1 [beta, gamma] ?aggA (emit (Sleep 500) ?wA)"
    unfolding first by (simp add: acme_def)
  with step_b step_g
  have whole: "processOrgs expiresAfterAcme sampleEnv 1 ([acme] @ [beta, gamma]) emptyAggregate ?d
                 = Some (?aggA, ?v2)" by simp
  from f step rest pre sb whole show ?thesis by simp
qed

section \<open>C10: what the enrichment does to the records\<close>

lemma sameOrEnriched_refl: "sameOrEnriched c c"
  by (simp add: sameOrEnriched_def withEnrichmentOf_def)

lemma sameOrEnriched_enrichWith: "enrichWith E d c = Inr c' \<Longrightarrow> sameOrEnriched c c'"
  by (auto simp: sameOrEnriched_def withEnrichmentOf_def enrichWith_def bindE_def Let_def
           split: sum.splits prod.splits)

lemma sameOrEnriched_key:
  assumes "sameOrEnriched c c'"
  shows "candidateKey c' = candidateKey c" and "orgId c' = orgId c"
proof -
  from assms have e: "withEnrichmentOf c c' = c" by (simp add: sameOrEnriched_def)
  from arg_cong[OF e, of cand_id] arg_cong[OF e, of applicationId]
  show "candidateKey c' = candidateKey c"
    by (simp add: withEnrichmentOf_def candidateKey_def)
  from arg_cong[OF e, of orgId] show "orgId c' = orgId c"
    by (simp add: withEnrichmentOf_def)
qed

subsection \<open>The record-building code throws nothing but a TypeError\<close>

lemma only_Inr [simp]: "throwsOnlyTypeError (Inr v)"
  by (simp add: throwsOnlyTypeError_def)

lemma only_deref [simp]: "throwsOnlyTypeError (deref x)"
  by (simp add: throwsOnlyTypeError_def deref_def split: option.splits)

lemma only_bindE:
  "throwsOnlyTypeError r \<Longrightarrow> (\<And>v. throwsOnlyTypeError (f v)) \<Longrightarrow> throwsOnlyTypeError (bindE r f)"
  by (cases r) (simp_all add: bindE_def throwsOnlyTypeError_def)

lemma only_mapE:
  "(\<And>x. throwsOnlyTypeError (f x)) \<Longrightarrow> throwsOnlyTypeError (mapE f xs)"
  by (induction xs) (auto intro!: only_bindE)

lemma only_firstFeedback: "throwsOnlyTypeError (firstFeedback es)"
  by (induction es) (auto intro!: only_bindE split: option.splits)

lemma only_firstSectionFeedback: "throwsOnlyTypeError (firstSectionFeedback ss)"
  by (induction ss) (auto intro!: only_bindE only_firstFeedback split: option.splits)

lemma only_extractFeedbackText: "throwsOnlyTypeError (extractFeedbackText f)"
  by (auto simp: extractFeedbackText_def
           intro!: only_bindE only_firstFeedback only_firstSectionFeedback
           split: option.splits)

lemma only_interviewEventOf: "throwsOnlyTypeError (interviewEventOf ev)"
  by (auto simp: interviewEventOf_def interviewerSummaryOf_def intro!: only_bindE only_mapE)

lemma only_feedbackOf: "throwsOnlyTypeError (feedbackOf ev)"
  by (auto simp: feedbackOf_def feedbackEntryOf_def
           intro!: only_bindE only_mapE only_extractFeedbackText)

lemma only_findDefaultPlan: "throwsOnlyTypeError (findDefaultPlan ps)"
  by (induction ps) (auto intro!: only_bindE)

lemma only_stagePosition: "throwsOnlyTypeError (stagePosition d)"
  by (auto simp: stagePosition_def planStagesOf_def Let_def
           intro!: only_bindE only_mapE only_findDefaultPlan
           split: option.splits prod.splits)

lemma only_readDetails: "throwsOnlyTypeError (readDetails d)"
  by (auto simp: readDetails_def
           intro!: only_bindE only_mapE only_interviewEventOf only_feedbackOf only_stagePosition)

lemma only_enrichWith: "throwsOnlyTypeError (enrichWith E d c)"
  by (auto simp: enrichWith_def Let_def intro!: only_bindE only_readDetails split: prod.splits)

lemma enrichWith_settled: "settledFrom c (enrichWith E d c)"
  using only_enrichWith[of E d c] sameOrEnriched_enrichWith[of E d c]
  by (cases "enrichWith E d c") (simp_all add: settledFrom_def throwsOnlyTypeError_def)

lemma enrichWith_readable:
  "readDetails d = Inr v \<Longrightarrow> \<exists>c'. enrichWith E d c = Inr c'"
  by (cases v) (simp add: enrichWith_def bindE_def Let_def)

subsection \<open>One record, one batch\<close>

lemma graphqlQuery_served:
  assumes "graphqlQuery R opName q vars force w = (Inr d, w1)"
  shows "\<exists>rq h s st sc response s'.
           graphql_endpoint R rq h s = (Response st sc (Some response), s') \<and> data response = d"
proof -
  obtain rt wt where rc: "resolveCsrfToken R force w = (rt, wt)"
    by (cases "resolveCsrfToken R force w")
  with assms obtain csrf where rt: "rt = Inr csrf"
    by (cases rt) (auto simp: graphqlQuery_def)
  let ?h = "if csrf \<noteq> [] then (createAuthHeaders (session wt))\<lparr>h_csrf := Some csrf\<rparr>
            else createAuthHeaders (session wt)"
  let ?rq = "\<lparr>operationName = opName, query = q, variables = vars\<rparr>"
  obtain resp s' where ep: "graphql_endpoint R ?rq ?h (server wt) = (resp, s')"
    by (cases "graphql_endpoint R ?rq ?h (server wt)")
  from assms rc rt ep obtain st sc response where
    "resp = Response st sc (Some response)" "data response = d"
    by (auto simp: graphqlQuery_def Let_def split: fetched.splits option.splits if_splits)
  with ep show ?thesis by blast
qed

lemma fetchApplicationDetails_readable:
  assumes "servesReadableDetails R" and "fetchApplicationDetails R E appId w = (Some d, w1)"
  shows "\<exists>v. readDetails d = Inr v"
proof -
  from assms(2) obtain q a where
    g: "graphqlQuery R ''ApiApplication'' (QueryFromFile q) (ApplicationVariables appId) False w
          = (Inr (ApplicationData (Some a)), w1)" and d: "d = detailsOf a"
    by (auto simp: fetchApplicationDetails_def
             split: option.splits prod.splits sum.splits gql_data.splits)
  from graphqlQuery_served[OF g] assms(1) d show ?thesis
    unfolding servesReadableDetails_def by blast
qed

lemma enrichOne_settled:
  "enrichOne R E fetchAll c w = (r, w') \<Longrightarrow> settledFrom c r"
  using enrichWith_settled
  by (auto simp: enrichOne_def settledFrom_def sameOrEnriched_refl
           split: if_splits prod.splits option.splits)

lemma enrichOne_readable:
  assumes "servesReadableDetails R" and "enrichOne R E fetchAll c w = (r, w')"
  shows "\<exists>c'. r = Inr c'"
proof (cases "\<not> fetchAll \<and> \<not> needsScheduling c")
  case True
  with assms(2) show ?thesis by (auto simp: enrichOne_def)
next
  case False
  obtain dopt w1 where f: "fetchApplicationDetails R E (applicationId c) w = (dopt, w1)"
    by (cases "fetchApplicationDetails R E (applicationId c) w")
  show ?thesis
  proof (cases dopt)
    case None
    with assms(2) False f show ?thesis by (auto simp: enrichOne_def)
  next
    case (Some d)
    from fetchApplicationDetails_readable[OF assms(1) f[unfolded Some]]
    obtain v where "readDetails d = Inr v" by blast
    from enrichWith_readable[OF this, of E c] assms(2) False f Some show ?thesis
      by (auto simp: enrichOne_def)
  qed
qed

lemma processBatch_settled:
  "processBatch R E fetchAll cs w = (settled, w') \<Longrightarrow> list_all2 settledFrom cs settled"
proof (induction cs arbitrary: w settled w')
  case Nil
  then show ?case by simp
next
  case (Cons c cs)
  obtain r w1 where a: "enrichOne R E fetchAll c w = (r, w1)"
    by (cases "enrichOne R E fetchAll c w")
  obtain rs w2 where b: "processBatch R E fetchAll cs w1 = (rs, w2)"
    by (cases "processBatch R E fetchAll cs w1")
  from Cons.prems a b have "settled = r # rs" by simp
  with enrichOne_settled[OF a] Cons.IH[OF b] show ?case by simp
qed

lemma processBatch_readable:
  assumes "servesReadableDetails R"
  shows "processBatch R E fetchAll cs w = (settled, w') \<Longrightarrow> list_all (\<lambda>r. \<not> isl r) settled"
proof (induction cs arbitrary: w settled w')
  case Nil
  then show ?case by simp
next
  case (Cons c cs)
  obtain r w1 where a: "enrichOne R E fetchAll c w = (r, w1)"
    by (cases "enrichOne R E fetchAll c w")
  obtain rs w2 where b: "processBatch R E fetchAll cs w1 = (rs, w2)"
    by (cases "processBatch R E fetchAll cs w1")
  from Cons.prems a b have "settled = r # rs" by simp
  with enrichOne_readable[OF assms a] Cons.IH[OF b] show ?case by auto
qed

lemma promiseAll_settled:
  "list_all2 settledFrom cs settled \<Longrightarrow>
   (case promiseAll settled of
      Inl e \<Rightarrow> e = TypeError \<and> \<not> list_all (\<lambda>r. \<not> isl r) settled
    | Inr out \<Rightarrow> list_all2 sameOrEnriched cs out)"
  unfolding promiseAll_def
  by (induction rule: list_all2_induct)
     (auto simp: settledFrom_def bindE_def split: sum.splits)

subsection \<open>The batch loop and the loop over the tenants\<close>

lemma js_slice_batch:
  assumes "0 \<le> i" "i < int (length cs)" "0 < mc"
  shows "js_slice cs i (i + mc) = take (nat mc) (drop (nat i) cs)"
proof -
  have unf: "js_slice cs i (i + mc)
               = take (nat (min (i + mc) (int (length cs)) - i)) (drop (nat i) cs)"
    using assms by (simp add: js_slice_def Let_def min_def[of i] del: drop_take take_drop)
  show ?thesis
  proof (cases "i + mc \<le> int (length cs)")
    case True
    then show ?thesis unfolding unf by (simp add: min_def del: drop_take take_drop)
  next
    case False
    with assms have "length (drop (nat i) cs) \<le> nat (min (i + mc) (int (length cs)) - i)"
      and "length (drop (nat i) cs) \<le> nat mc"
      by (auto simp: min_def)
    then show ?thesis unfolding unf by (simp only: take_all)
  qed
qed

text \<open>
  What a run of the enrichment over the records \<open>cs\<close> may end with, \<open>acc\<close> being the
  records pushed before: the \<open>TypeError\<close>, and then the remote served a detail the
  record-building code cannot read, or \<open>acc\<close> followed by one record for each of \<open>cs\<close>.
\<close>

lemma enrichBatches_total:
  assumes mc: "0 < mc"
  shows "0 \<le> i \<Longrightarrow>
         \<exists>r w'. enrichBatches R E fetchAll mc cs i acc w = Some (r, w') \<and>
           (case r of
              Inl e \<Rightarrow> e = TypeError \<and> \<not> servesReadableDetails R
            | Inr res \<Rightarrow> \<exists>out. res = acc @ out \<and>
                          list_all2 sameOrEnriched (drop (nat i) cs) out)"
proof (induction "length cs - nat i" arbitrary: i acc w rule: less_induct)
  case less
  show ?case
  proof (cases "i < int (length cs)")
    case False
    then have "drop (nat i) cs = []" by simp
    with False show ?thesis
      by (subst enrichBatches.simps) simp
  next
    case True
    let ?batch = "take (nat mc) (drop (nat i) cs)"
    obtain settled w1 where pb: "processBatch R E fetchAll ?batch w = (settled, w1)"
      by (cases "processBatch R E fetchAll ?batch w")
    note st = promiseAll_settled[OF processBatch_settled[OF pb]]
    show ?thesis
    proof (cases "promiseAll settled")
      case (Inl e)
      with st have e: "e = TypeError" and bad: "\<not> list_all (\<lambda>r. \<not> isl r) settled" by simp_all
      from bad processBatch_readable[OF _ pb] have "\<not> servesReadableDetails R" by blast
      moreover have "enrichBatches R E fetchAll mc cs i acc w = Some (Inl e, w1)"
        using True pb Inl js_slice_batch[OF less.prems True mc]
        by (subst enrichBatches.simps) simp
      ultimately show ?thesis using e by simp
    next
      case (Inr eb)
      with st have ebl: "list_all2 sameOrEnriched ?batch eb" by simp
      have smaller: "length cs - nat (i + mc) < length cs - nat i"
        using True less.prems mc by linarith
      have nonneg: "0 \<le> i + mc" using less.prems mc by simp
      from less.hyps[OF smaller nonneg, of "acc @ eb" w1]
      obtain r w' where
        rec: "enrichBatches R E fetchAll mc cs (i + mc) (acc @ eb) w1 = Some (r, w')"
        and rr: "case r of
                   Inl e \<Rightarrow> e = TypeError \<and> \<not> servesReadableDetails R
                 | Inr res \<Rightarrow> \<exists>out. res = (acc @ eb) @ out \<and>
                               list_all2 sameOrEnriched (drop (nat (i + mc)) cs) out"
        by blast
      have step: "enrichBatches R E fetchAll mc cs i acc w = Some (r, w')"
        using True rec pb Inr js_slice_batch[OF less.prems True mc]
        by (subst enrichBatches.simps) simp
      show ?thesis
      proof (cases r)
        case (Inl e)
        with rr step show ?thesis by simp
      next
        case (Inr res)
        with rr obtain out where res: "res = (acc @ eb) @ out"
          and rel: "list_all2 sameOrEnriched (drop (nat (i + mc)) cs) out" by auto
        have d: "drop (nat (i + mc)) cs = drop (nat mc) (drop (nat i) cs)"
          using less.prems mc by (simp add: nat_add_distrib add.commute)
        have "list_all2 sameOrEnriched (?batch @ drop (nat mc) (drop (nat i) cs)) (eb @ out)"
          using ebl rel unfolding d by (rule list_all2_appendI)
        then have "list_all2 sameOrEnriched (drop (nat i) cs) (eb @ out)"
          by (simp only: append_take_drop_id)
        with step Inr res show ?thesis by simp
      qed
    qed
  qed
qed

lemma addToGroup_mset:
  "mset (concat (map snd (addToGroup c gs))) = mset (concat (map snd gs)) + {#c#}"
  by (induction c gs rule: addToGroup.induct) auto

lemma fold_addToGroup_mset:
  "mset (concat (map snd (fold addToGroup cs gs))) = mset (concat (map snd gs)) + mset cs"
  by (induction cs arbitrary: gs) (auto simp: addToGroup_mset)

lemma addToGroup_keys:
  "\<forall>(k, xs)\<in>set gs. \<forall>x\<in>set xs. orgId x = k \<Longrightarrow>
   \<forall>(k, xs)\<in>set (addToGroup c gs). \<forall>x\<in>set xs. orgId x = k"
  by (induction c gs rule: addToGroup.induct) auto

lemma fold_addToGroup_keys:
  "\<forall>(k, xs)\<in>set gs. \<forall>x\<in>set xs. orgId x = k \<Longrightarrow>
   \<forall>(k, xs)\<in>set (fold addToGroup cs gs). \<forall>x\<in>set xs. orgId x = k"
proof (induction cs arbitrary: gs)
  case Nil
  then show ?case by simp
next
  case (Cons c cs)
  from Cons.IH[OF addToGroup_keys[OF Cons.prems, of c]] show ?case by simp
qed

lemma groupedByOrg_mset: "mset (groupedByOrg cs) = mset cs"
  by (simp add: groupedByOrg_def groupByOrg_def fold_addToGroup_mset)

lemma groupByOrg_keys: "\<forall>(k, xs)\<in>set (groupByOrg cs). \<forall>x\<in>set xs. orgId x = k"
  unfolding groupByOrg_def by (rule fold_addToGroup_keys) simp

lemma list_all2_same: "(\<And>x. x \<in> set xs \<Longrightarrow> P x x) \<Longrightarrow> list_all2 P xs xs"
  by (induction xs) auto

lemma enrichGroups_total:
  assumes mc: "0 < mc"
  shows "\<forall>(k, xs)\<in>set gs. \<forall>x\<in>set xs. orgId x = k \<Longrightarrow>
         \<exists>r w'. enrichGroups R E fetchAll mc orgInfos gs ctx acc w = Some (r, w') \<and>
           (case r of
              Inl e \<Rightarrow> e = TypeError \<and> \<not> servesReadableDetails R
            | Inr res \<Rightarrow> \<exists>out. res = acc @ out \<and>
                          list_all2 (keptRecord orgInfos) (concat (map snd gs)) out)"
proof (induction gs arbitrary: ctx acc w)
  case Nil
  then show ?case by simp
next
  case (Cons g gs)
  obtain k cs where g: "g = (k, cs)" by (cases g)
  from Cons.prems g have keys: "\<forall>x\<in>set cs. orgId x = k"
    and rest: "\<forall>(k, xs)\<in>set gs. \<forall>x\<in>set xs. orgId x = k" by auto
  have unchanged: "list_all2 (keptRecord orgInfos) cs cs"
    by (rule list_all2_same) (simp add: keptRecord_def sameOrEnriched_refl)
  have skip: ?case
    if eq: "\<And>acc'. enrichGroups R E fetchAll mc orgInfos (g # gs) ctx acc w
                 = enrichGroups R E fetchAll mc orgInfos gs ctx' (acc @ cs) w1"
    for ctx' w1
  proof -
    from Cons.IH[OF rest, of ctx' "acc @ cs" w1] obtain r w' where
      r: "enrichGroups R E fetchAll mc orgInfos gs ctx' (acc @ cs) w1 = Some (r, w')"
      and rr: "case r of
                 Inl e \<Rightarrow> e = TypeError \<and> \<not> servesReadableDetails R
               | Inr res \<Rightarrow> \<exists>out. res = (acc @ cs) @ out \<and>
                             list_all2 (keptRecord orgInfos) (concat (map snd gs)) out"
      by blast
    show ?thesis
    proof (cases r)
      case (Inl e)
      with r rr eq show ?thesis by simp
    next
      case (Inr res)
      with rr obtain out where res: "res = (acc @ cs) @ out"
        and l: "list_all2 (keptRecord orgInfos) (concat (map snd gs)) out" by auto
      from unchanged l g
      have "list_all2 (keptRecord orgInfos) (concat (map snd (g # gs))) (cs @ out)"
        by (simp add: list_all2_appendI)
      with r eq Inr res show ?thesis by simp
    qed
  qed
  show ?case
  proof (cases "truthy (orgIdToUserId orgInfos k)")
    case False
    with g show ?thesis by (intro skip[of ctx w]) simp
  next
    case True
    then obtain uid where uid: "orgIdToUserId orgInfos k = Some uid"
      by (auto simp: truthy_def split: option.splits)
    obtain sr w1 where sw: "(if ctx \<noteq> Some k then switchOrgContext R uid w else (Inr (), w)) = (sr, w1)"
      by (cases "if ctx \<noteq> Some k then switchOrgContext R uid w else (Inr (), w)")
    show ?thesis
    proof (cases sr)
      case (Inl e)
      with True uid sw g show ?thesis by (intro skip[of ctx w1]) (auto split: if_splits)
    next
      case (Inr u)
      have "\<exists>rb w2. enrichBatches R E fetchAll mc cs 0 acc w1 = Some (rb, w2) \<and>
              (case rb of
                 Inl e \<Rightarrow> e = TypeError \<and> \<not> servesReadableDetails R
               | Inr res \<Rightarrow> \<exists>out. res = acc @ out \<and> list_all2 sameOrEnriched cs out)"
        using enrichBatches_total[OF mc order_refl, of R E fetchAll cs acc w1, unfolded nat_0 drop_0]
        by blast
      then obtain rb w2 where
        b: "enrichBatches R E fetchAll mc cs 0 acc w1 = Some (rb, w2)"
        and rbr: "case rb of
                    Inl e \<Rightarrow> e = TypeError \<and> \<not> servesReadableDetails R
                  | Inr res \<Rightarrow> \<exists>out. res = acc @ out \<and> list_all2 sameOrEnriched cs out"
        by blast
      show ?thesis
      proof (cases rb)
        case (Inl e)
        with True uid sw Inr b rbr g show ?thesis by (auto split: if_splits)
      next
        case rbres: (Inr res)
        with rbr obtain eb where res: "res = acc @ eb" and bl: "list_all2 sameOrEnriched cs eb"
          by auto
        from Cons.IH[OF rest, of "Some k" "acc @ eb" w2] obtain r w' where
          r: "enrichGroups R E fetchAll mc orgInfos gs (Some k) (acc @ eb) w2 = Some (r, w')"
          and rr: "case r of
                     Inl e \<Rightarrow> e = TypeError \<and> \<not> servesReadableDetails R
                   | Inr res \<Rightarrow> \<exists>out. res = (acc @ eb) @ out \<and>
                                 list_all2 (keptRecord orgInfos) (concat (map snd gs)) out"
          by blast
        from True uid sw Inr b rbres res r g
        have step: "enrichGroups R E fetchAll mc orgInfos (g # gs) ctx acc w = Some (r, w')"
          by (auto split: if_splits)
        show ?thesis
        proof (cases r)
          case (Inl e)
          with rr step show ?thesis by simp
        next
          case rres: (Inr res')
          with rr obtain out where res': "res' = (acc @ eb) @ out"
            and l: "list_all2 (keptRecord orgInfos) (concat (map snd gs)) out" by auto
          have "list_all2 (keptRecord orgInfos) cs eb"
            using bl keys True
            by (auto simp: keptRecord_def list_all2_conv_all_nth)
          with l g have "list_all2 (keptRecord orgInfos) (concat (map snd (g # gs))) (eb @ out)"
            by (simp add: list_all2_appendI)
          with step rres res' show ?thesis by simp
        qed
      qed
    qed
  qed
qed

lemma keptRecord_keys:
  "list_all2 (keptRecord orgInfos) xs ys \<Longrightarrow> map candidateKey ys = map candidateKey xs"
  by (induction rule: list_all2_induct) (auto simp: keptRecord_def sameOrEnriched_key)

lemma enrichment_outcome:
  assumes mc: "0 < maxConcurrent"
  shows "\<exists>r w'. enrichCandidatesWithDetails R E cands orgInfos maxConcurrent fetchAll w = Some (r, w') \<and>
           (case r of
              Inl e \<Rightarrow> e = TypeError \<and> \<not> servesReadableDetails R
            | Inr out \<Rightarrow> length out = length cands \<and>
                          mset (map candidateKey out) = mset (map candidateKey cands) \<and>
                          list_all2 (keptRecord orgInfos) (groupedByOrg cands) out)"
proof -
  from enrichGroups_total[OF mc groupByOrg_keys, of R E fetchAll orgInfos cands None "[]" w]
  obtain r w' where
    run: "enrichGroups R E fetchAll maxConcurrent orgInfos (groupByOrg cands) None [] w = Some (r, w')"
    and rr: "case r of
               Inl e \<Rightarrow> e = TypeError \<and> \<not> servesReadableDetails R
             | Inr res \<Rightarrow> \<exists>out. res = [] @ out \<and>
                           list_all2 (keptRecord orgInfos) (concat (map snd (groupByOrg cands))) out"
    by blast
  show ?thesis
  proof (cases r)
    case (Inl e)
    with run rr show ?thesis by (simp add: enrichCandidatesWithDetails_def)
  next
    case (Inr out)
    with rr have rel: "list_all2 (keptRecord orgInfos) (groupedByOrg cands) out"
      by (simp add: groupedByOrg_def)
    from keptRecord_keys[OF rel]
    have keys: "map candidateKey out = map candidateKey (groupedByOrg cands)" .
    have "mset (map candidateKey out) = mset (map candidateKey cands)"
      unfolding keys by (simp add: groupedByOrg_mset)
    moreover have "length out = length cands"
      using list_all2_lengthD[OF rel] mset_eq_length[OF groupedByOrg_mset[of cands]] by simp
    ultimately show ?thesis using run rel Inr by (simp add: enrichCandidatesWithDetails_def)
  qed
qed

subsection \<open>Two runs that do not return records\<close>




subsection \<open>The claim\<close>





section \<open>C6: a token refresh after every switch\<close>

lemma refreshed_append:
  "refreshedBeforeQueries f (xs @ ys)
     = (refreshedBeforeQueries f xs \<and> refreshedBeforeQueries (foldl sinceSwitch f xs) ys)"
  by (induction xs arbitrary: f) auto

lemma tokenEvent_step:
  assumes "isTokenFetchOrSleep e"
  shows "queryInOrder f e"
    and "sinceSwitch f e = map_option (\<lambda>toks. rev (fetchedTokens [e]) @ toks) f"
proof -
  show "queryInOrder f e" using assms by (cases e; cases f) auto
  show "sinceSwitch f e = map_option (\<lambda>toks. rev (fetchedTokens [e]) @ toks) f"
  proof (cases e)
    case (TokenFetch st tok)
    then show ?thesis by (cases tok; cases f) auto
  next
    case (Sleep ms)
    then show ?thesis by (cases f) auto
  qed (use assms in auto)
qed

lemma tokenEvents_run:
  "list_all isTokenFetchOrSleep evs \<Longrightarrow>
   refreshedBeforeQueries f evs \<and>
   foldl sinceSwitch f evs = map_option (\<lambda>toks. rev (fetchedTokens evs) @ toks) f"
proof (induction evs arbitrary: f)
  case Nil
  show ?case by (cases f) auto
next
  case (Cons e evs)
  from Cons.prems have e: "isTokenFetchOrSleep e" and r: "list_all isTokenFetchOrSleep evs" by auto
  have app: "fetchedTokens (e # evs) = fetchedTokens [e] @ fetchedTokens evs"
    using fetchedTokens_append[of "[e]" evs] by simp
  from tokenEvent_step[OF e, of f] Cons.IH[OF r, of "sinceSwitch f e"] show ?case
    by (cases f) (auto simp: app)
qed

text \<open>The invariant in terms of the state reached by the trace.\<close>

lemma tokenInv_alt:
  "tokenInv w \<longleftrightarrow>
     refreshedBeforeQueries None (trace w) \<and>
     (\<forall>toks t. foldl sinceSwitch None (trace w) = Some toks \<and> csrfToken (session w) = Some t
         \<longrightarrow> t = [] \<or> t \<in> set toks)"
  by (auto simp: tokenInv_def split: option.splits)

lemma tokenInv_tokenEvents:
  assumes inv: "tokenInv w"
    and tr: "trace w' = trace w @ evs" "list_all isTokenFetchOrSleep evs"
    and tok: "csrfToken (session w') = csrfToken (session w) \<or>
              (\<exists>t. csrfToken (session w') = Some t \<and> t \<in> set (fetchedTokens evs)) \<or>
              csrfToken (session w') = None"
  shows "tokenInv w'"
proof -
  note run = tokenEvents_run[OF tr(2), of "foldl sinceSwitch None (trace w)"]
  have st: "foldl sinceSwitch None (trace w')
              = map_option (\<lambda>toks. rev (fetchedTokens evs) @ toks) (foldl sinceSwitch None (trace w))"
    using run by (simp add: tr(1))
  have "refreshedBeforeQueries None (trace w')"
    using inv run by (simp add: tr(1) refreshed_append tokenInv_alt)
  moreover have "\<forall>toks t. foldl sinceSwitch None (trace w') = Some toks \<and>
                    csrfToken (session w') = Some t \<longrightarrow> t = [] \<or> t \<in> set toks"
    using inv tok unfolding st tokenInv_alt by auto
  ultimately show ?thesis unfolding tokenInv_alt by blast
qed

lemma tokenInv_other_event:
  assumes inv: "tokenInv w"
    and tr: "trace w' = trace w @ [e]" "sinceSwitch (foldl sinceSwitch None (trace w)) e
                                          = foldl sinceSwitch None (trace w)"
      "queryInOrder (foldl sinceSwitch None (trace w)) e"
    and tok: "csrfToken (session w') = csrfToken (session w)"
  shows "tokenInv w'"
  using inv tr tok unfolding tokenInv_alt by (simp add: refreshed_append)

lemma fetchCsrfToken_inv:
  assumes "fetchCsrfToken R n w = (r, w')" "tokenInv w"
  shows "tokenInv w'"
proof -
  from fetchCsrfToken_facts(3)[OF assms(1)] obtain evs where
    "trace w' = trace w @ evs" "list_all isTokenFetchOrSleep evs" by blast
  with assms(2) fetchCsrfToken_facts(1)[OF assms(1)] show ?thesis
    by (intro tokenInv_tokenEvents[of w w' evs]) auto
qed

lemma resolveCsrfToken_inv:
  assumes run: "resolveCsrfToken R force w = (rt, wt)" and inv: "tokenInv w"
  shows "tokenInv wt"
    and "\<And>csrf toks. rt = Inr csrf \<Longrightarrow> foldl sinceSwitch None (trace wt) = Some toks
           \<Longrightarrow> csrf \<in> set toks"
proof -
  from resolveCsrfToken_facts(2)[OF run] obtain tevs where
    tr: "trace wt = trace w @ tevs" "list_all isTokenFetchOrSleep tevs"
    and ok: "\<forall>csrf. rt = Inr csrf \<longrightarrow> csrfToken (session wt) = Some csrf \<and>
              (csrf \<in> set (fetchedTokens tevs) \<or> (tevs = [] \<and> csrf \<noteq> [] \<and> \<not> force \<and> wt = w))"
    and bad: "\<forall>e. rt = Inl e \<longrightarrow> session wt = session w" by blast
  show inv': "tokenInv wt"
  proof (cases rt)
    case (Inl e)
    with bad have "csrfToken (session wt) = csrfToken (session w)" by simp
    with inv tr show ?thesis by (intro tokenInv_tokenEvents[of w wt tevs]) auto
  next
    case (Inr csrf)
    with ok have "csrfToken (session wt) = csrfToken (session w) \<or>
              (\<exists>t. csrfToken (session wt) = Some t \<and> t \<in> set (fetchedTokens tevs))"
      by auto
    with inv tr show ?thesis by (intro tokenInv_tokenEvents[of w wt tevs]) auto
  qed
  fix csrf toks
  assume r: "rt = Inr csrf" and st: "foldl sinceSwitch None (trace wt) = Some toks"
  from ok r have c: "csrfToken (session wt) = Some csrf"
    and d: "csrf \<in> set (fetchedTokens tevs) \<or> csrf \<noteq> []" by auto
  note run' = tokenEvents_run[OF tr(2), of "foldl sinceSwitch None (trace w)"]
  from d show "csrf \<in> set toks"
  proof
    assume "csrf \<in> set (fetchedTokens tevs)"
    with run' st tr(1) show ?thesis by auto
  next
    assume "csrf \<noteq> []"
    with inv' c st show ?thesis unfolding tokenInv_alt by auto
  qed
qed

lemma graphqlQuery_inv:
  assumes run: "graphqlQuery R opName q vars force w = (r, w1)" and inv: "tokenInv w"
  shows "tokenInv w1"
  using run
proof (cases rule: graphqlQuery_cases)
  case (token_failed e)
  from resolveCsrfToken_inv(1)[OF token_failed(1) inv] show ?thesis .
next
  case (queried csrf wt st)
  note i = resolveCsrfToken_inv[OF queried(1) inv]
  let ?e = "Query opName (if csrf \<noteq> [] then Some csrf else None) st"
  have "queryInOrder (foldl sinceSwitch None (trace wt)) ?e"
  proof (cases "foldl sinceSwitch None (trace wt)")
    case None
    then show ?thesis by simp
  next
    case (Some toks)
    from i(2)[OF refl Some] Some show ?thesis by auto
  qed
  moreover have "sinceSwitch (foldl sinceSwitch None (trace wt)) ?e = foldl sinceSwitch None (trace wt)"
    by simp
  ultimately show ?thesis
    using i(1) queried(2,3) by (intro tokenInv_other_event[of wt w1 ?e]) auto
qed

lemma switchOrgContext_inv:
  assumes run: "switchOrgContext R uid w = (r, w')" and inv: "tokenInv w"
  shows "tokenInv w'"
  using run
proof (cases rule: switchOrgContext_cases)
  case (pre_failed e)
  from fetchCsrfToken_inv[OF pre_failed(1) inv] show ?thesis .
next
  case (rejected csrf w1 st e)
  note i = fetchCsrfToken_inv[OF rejected(1) inv]
  have "sinceSwitch (foldl sinceSwitch None (trace w1)) (ChangeUser uid st)
          = foldl sinceSwitch None (trace w1)"
    using rejected(5) by (cases st) auto
  moreover have "queryInOrder (foldl sinceSwitch None (trace w1)) (ChangeUser uid st)"
    by (cases "foldl sinceSwitch None (trace w1)") auto
  ultimately show ?thesis
    using i rejected(2,3) by (intro tokenInv_other_event[of w1 w' "ChangeUser uid st"]) auto
next
  case (refresh_failed csrf w1 st w4 e w5)
  note i = fetchCsrfToken_inv[OF refresh_failed(1) inv]
  from fetchCsrfToken_facts(3)[OF refresh_failed(5)] obtain evs where
    tr: "trace w5 = trace w4 @ evs" "list_all isTokenFetchOrSleep evs" by blast
  have q1: "queryInOrder f (ChangeUser uid (Some st))" "queryInOrder f (Sleep 500)" for f
    by (cases f; simp)+
  have "refreshedBeforeQueries None (trace w')"
    using i tr refresh_failed(2,3,6) tokenEvents_run[OF tr(2)] q1
    by (simp add: tokenInv_alt refreshed_append)
  then show ?thesis
    using refresh_failed(6) by (simp add: tokenInv_alt)
next
  case (switched csrf w1 st w4 tok w5 verification)
  note i = fetchCsrfToken_inv[OF switched(1) inv]
  from fetchCsrfToken_facts(3)[OF switched(5)] obtain evs where
    tr: "trace w5 = trace w4 @ evs" "list_all isTokenFetchOrSleep evs"
    and tk: "tok \<in> set (fetchedTokens evs)" by blast
  have q1: "queryInOrder f (ChangeUser uid (Some st))" "queryInOrder f (Sleep 500)" for f
    by (cases f; simp)+
  have a: "refreshedBeforeQueries None (trace w5)"
    using i tr switched(2,3) tokenEvents_run[OF tr(2)] q1
    by (simp add: tokenInv_alt refreshed_append)
  have b: "foldl sinceSwitch None (trace w5) = Some (rev (fetchedTokens evs))"
    using tr switched(2,3) tokenEvents_run[OF tr(2), of "Some []"] by simp
  have "tokenInv (setCsrfToken (Some tok) w5)"
    using a b tk by (simp add: tokenInv_alt)
  from graphqlQuery_inv[OF switched(6) this] show ?thesis .
qed

lemma emit_Sleep_inv: "tokenInv w \<Longrightarrow> tokenInv (emit (Sleep ms) w)"
  by (rule tokenInv_tokenEvents[of w _ "[Sleep ms]"]) simp_all

lemma fetchOrgName_inv:
  "fetchOrgName R oid w = (n, w') \<Longrightarrow> tokenInv w \<Longrightarrow> tokenInv w'"
  by (auto simp: fetchOrgName_def split: prod.splits sum.splits gql_data.splits if_splits
           dest: graphqlQuery_inv)

lemma fetchApplicationPages_inv:
  assumes run: "fetchApplicationPages R acc c w = Some y"
  shows "tokenInv w \<longrightarrow> tokenInv (snd (snd y))"
proof (rule fetchApplicationPages.raw_induct
         [where P = "\<lambda>R acc c w y. tokenInv w \<longrightarrow> tokenInv (snd (snd y))", OF _ run])
  fix loop :: "'a remote \<Rightarrow> ApplicationResult list \<Rightarrow> string option \<Rightarrow> 'a world
                 \<Rightarrow> ((error + unit) \<times> ApplicationResult list \<times> 'a world) option"
  fix R acc c w y
  assume IH: "\<And>R acc c w y. loop R acc c w = Some y \<Longrightarrow> tokenInv w \<longrightarrow> tokenInv (snd (snd y))"
  assume body: "(case graphqlQuery R ''ApiGetActiveApplications'' applicationsQuery
                        (ApplicationsVariables c 100) False w of
                   (Inl e, w1) \<Rightarrow> Some (Inl e, acc, w1)
                 | (Inr (ApplicationsData page), w1) \<Rightarrow>
                     if moreDataAvailable page
                     then loop R (acc @ results page) (nextCursor page) w1
                     else Some (Inr (), acc @ results page, w1)
                 | (Inr other, w1) \<Rightarrow> Some (Inl TypeError, acc, w1)) = Some y"
  show "tokenInv w \<longrightarrow> tokenInv (snd (snd y))"
  proof
    assume inv: "tokenInv w"
    obtain r1 w1 where q: "graphqlQuery R ''ApiGetActiveApplications'' applicationsQuery
                        (ApplicationsVariables c 100) False w = (r1, w1)"
      by (cases "graphqlQuery R ''ApiGetActiveApplications'' applicationsQuery
                        (ApplicationsVariables c 100) False w")
    note i1 = graphqlQuery_inv[OF q inv]
    from body q i1 IH show "tokenInv (snd (snd y))"
      by (auto split: sum.splits gql_data.splits if_splits)
  qed
qed

lemma fetchPipelineForOrg_inv:
  assumes run: "fetchPipelineForOrg R E oid u w = Some (r, w')" and inv: "tokenInv w"
  shows "tokenInv w'"
proof -
  obtain sr w1 where sw: "(case u of
              Some uid \<Rightarrow>
                if uid \<noteq> [] \<and> oid \<noteq> ''default''
                then (case switchOrgContext R uid w of
                        (Inl e, w1) \<Rightarrow> (Inl e, w1)
                      | (Inr u, w1) \<Rightarrow> (Inr True, w1))
                else (Inr False, w)
            | None \<Rightarrow> (Inr False, w)) = (sr, w1)"
    by (cases "(case u of
              Some uid \<Rightarrow>
                if uid \<noteq> [] \<and> oid \<noteq> ''default''
                then (case switchOrgContext R uid w of
                        (Inl e, w1) \<Rightarrow> (Inl e, w1)
                      | (Inr u, w1) \<Rightarrow> (Inr True, w1))
                else (Inr False, w)
            | None \<Rightarrow> (Inr False, w))")
  have i1: "tokenInv w1"
    using sw inv by (auto split: option.splits if_splits prod.splits sum.splits
                           dest: switchOrgContext_inv)
  show ?thesis
  proof (cases sr)
    case (Inl e)
    with run sw i1 show ?thesis by (simp add: fetchPipelineForOrg_def)
  next
    case (Inr switchedOrg)
    obtain jr w2 where q: "graphqlQuery R ''ApiOpenJobs'' openJobsQuery
                             (OpenJobsVariables True False) switchedOrg w1 = (jr, w2)"
      by (cases "graphqlQuery R ''ApiOpenJobs'' openJobsQuery
                             (OpenJobsVariables True False) switchedOrg w1")
    note i2 = graphqlQuery_inv[OF q i1]
    from run sw Inr q
    have "w' = w2 \<or> (\<exists>y acc w3 n. fetchApplicationPages R [] None w2 = Some (y, acc, w3) \<and>
                        fetchOrgName R oid w3 = (n, w'))"
      by (auto simp: fetchPipelineForOrg_def split: sum.splits gql_data.splits option.splits
                     prod.splits)
    then show ?thesis
    proof
      assume "w' = w2" with i2 show ?thesis by simp
    next
      assume "\<exists>y acc w3 n. fetchApplicationPages R [] None w2 = Some (y, acc, w3) \<and>
                        fetchOrgName R oid w3 = (n, w')"
      then obtain y acc w3 n where p: "fetchApplicationPages R [] None w2 = Some (y, acc, w3)"
        and o: "fetchOrgName R oid w3 = (n, w')" by blast
      from fetchApplicationPages_inv[OF p] i2 have "tokenInv w3" by simp
      from fetchOrgName_inv[OF o this] show ?thesis .
    qed
  qed
qed

lemma extractAttempts_inv:
  "extractAttempts R E orgInfo m attempt agg w = Some (agg', w') \<Longrightarrow> tokenInv w \<Longrightarrow> tokenInv w'"
proof (induction R E orgInfo m attempt agg w rule: extractAttempts.induct)
  case (1 R E orgInfo m attempt agg w)
  show ?case
  proof (cases "attempt \<le> m")
    case False
    with "1.prems" show ?thesis by (simp add: extractAttempts.simps)
  next
    case le: True
    show ?thesis
    proof (cases "fetchPipelineForOrg R E (org_id orgInfo) (Some (userId orgInfo)) w")
      case None
      with "1.prems" le show ?thesis by (simp add: extractAttempts.simps)
    next
      case (Some res)
      obtain r w1 where res: "res = (r, w1)" by (cases res)
      from fetchPipelineForOrg_inv[OF Some[unfolded res] "1.prems"(2)] have i1: "tokenInv w1" .
      show ?thesis
      proof (cases r)
        case (Inr pr)
        with "1.prems"(1) le Some res i1 show ?thesis
          by (subst (asm) extractAttempts.simps) auto
      next
        case (Inl e)
        show ?thesis
        proof (cases "attempt = m")
          case True
          with "1.prems"(1) le Some res Inl i1 show ?thesis
            by (subst (asm) extractAttempts.simps) auto
        next
          case False
          with "1.prems"(1) le Some res Inl
          have "extractAttempts R E orgInfo m (attempt + 1) agg
                  (emit (Sleep (nat (1000 * attempt))) w1) = Some (agg', w')"
            by (subst (asm) extractAttempts.simps) simp
          from "1.IH"[OF le Some res[symmetric] Inl False this emit_Sleep_inv[OF i1]]
          show ?thesis .
        qed
      qed
    qed
  qed
qed

lemma processOrgs_inv:
  "processOrgs R E m orgs agg w = Some (agg', w') \<Longrightarrow> tokenInv w \<Longrightarrow> tokenInv w'"
proof (induction orgs arbitrary: agg w)
  case Nil
  then show ?case by simp
next
  case (Cons orgInfo rest)
  show ?case
  proof (cases "userId orgInfo = []")
    case True
    with Cons.prems Cons.IH show ?thesis by auto
  next
    case False
    with Cons.prems(1) obtain agg1 w1 where
      a: "extractAttempts R E orgInfo m 1 agg w = Some (agg1, w1)"
      and b: "processOrgs R E m rest agg1 (if rest \<noteq> [] then emit (Sleep 500) w1 else w1)
                = Some (agg', w')"
      by (auto split: option.splits)
    from extractAttempts_inv[OF a Cons.prems(2)] have "tokenInv w1" .
    then have "tokenInv (if rest \<noteq> [] then emit (Sleep 500) w1 else w1)"
      by (simp add: emit_Sleep_inv)
    from Cons.IH[OF b this] show ?thesis .
  qed
qed

lemma enrichOne_inv:
  "enrichOne R E fetchAll c w = (c', w') \<Longrightarrow> tokenInv w \<Longrightarrow> tokenInv w'"
  by (auto simp: enrichOne_def fetchApplicationDetails_def
           split: if_splits prod.splits option.splits sum.splits gql_data.splits
           dest: graphqlQuery_inv)

lemma processBatch_inv:
  "processBatch R E fetchAll cs w = (out, w') \<Longrightarrow> tokenInv w \<Longrightarrow> tokenInv w'"
proof (induction cs arbitrary: w out w')
  case Nil
  then show ?case by simp
next
  case (Cons c cs)
  obtain c' w1 where a: "enrichOne R E fetchAll c w = (c', w1)"
    by (cases "enrichOne R E fetchAll c w")
  obtain cs' w2 where b: "processBatch R E fetchAll cs w1 = (cs', w2)"
    by (cases "processBatch R E fetchAll cs w1")
  from Cons.prems(1) a b have "w' = w2" by simp
  with Cons.IH[OF b enrichOne_inv[OF a Cons.prems(2)]] show ?case by simp
qed

lemma enrichBatches_inv:
  assumes run: "enrichBatches R E fetchAll mc cs i acc w = Some y"
  shows "tokenInv w \<longrightarrow> tokenInv (snd y)"
proof (rule enrichBatches.raw_induct
         [where P = "\<lambda>R E fetchAll mc cs i acc w y. tokenInv w \<longrightarrow> tokenInv (snd y)", OF _ run])
  fix loop :: "'a remote \<Rightarrow> env \<Rightarrow> bool \<Rightarrow> int \<Rightarrow> Candidate list \<Rightarrow> int \<Rightarrow> Candidate list
                 \<Rightarrow> 'a world \<Rightarrow> ((error + Candidate list) \<times> 'a world) option"
  fix R E fetchAll mc cs i acc w y
  assume IH: "\<And>R E fetchAll mc cs i acc w y. loop R E fetchAll mc cs i acc w = Some y
                \<Longrightarrow> tokenInv w \<longrightarrow> tokenInv (snd y)"
  assume body: "(if i < int (length cs) then
        (case processBatch R E fetchAll (js_slice cs i (i + mc)) w of
           (settled, w1) \<Rightarrow>
             (case promiseAll settled of
                Inl e \<Rightarrow> Some (Inl e, w1)
              | Inr enrichedBatch \<Rightarrow>
                  loop R E fetchAll mc cs (i + mc) (acc @ enrichedBatch) w1))
      else Some (Inr acc, w)) = Some y"
  show "tokenInv w \<longrightarrow> tokenInv (snd y)"
  proof
    assume inv: "tokenInv w"
    obtain eb w1 where pb: "processBatch R E fetchAll (js_slice cs i (i + mc)) w = (eb, w1)"
      by (cases "processBatch R E fetchAll (js_slice cs i (i + mc)) w")
    from processBatch_inv[OF pb inv] body pb IH inv show "tokenInv (snd y)"
      by (auto split: if_splits sum.splits)
  qed
qed

lemma enrichGroups_inv:
  "enrichGroups R E fetchAll mc orgInfos gs ctx acc w = Some (out, w') \<Longrightarrow> tokenInv w
     \<Longrightarrow> tokenInv w'"
proof (induction gs arbitrary: ctx acc w)
  case Nil
  then show ?case by simp
next
  case (Cons g gs)
  obtain k cs where g: "g = (k, cs)" by (cases g)
  show ?case
  proof (cases "truthy (orgIdToUserId orgInfos k)")
    case False
    with Cons.prems g Cons.IH show ?thesis by auto
  next
    case True
    obtain sr w1 where sw: "(if ctx \<noteq> Some k
               then (case orgIdToUserId orgInfos k of
                       Some uid \<Rightarrow> switchOrgContext R uid w
                     | None \<Rightarrow> (Inr (), w))
               else (Inr (), w)) = (sr, w1)"
      by (cases "(if ctx \<noteq> Some k
               then (case orgIdToUserId orgInfos k of
                       Some uid \<Rightarrow> switchOrgContext R uid w
                     | None \<Rightarrow> (Inr (), w))
               else (Inr (), w))")
    have i1: "tokenInv w1"
      using sw Cons.prems(2)
      by (auto split: if_splits option.splits dest: switchOrgContext_inv)
    show ?thesis
    proof (cases sr)
      case (Inl e)
      with Cons.prems(1) g True sw
      have "enrichGroups R E fetchAll mc orgInfos gs ctx (acc @ cs) w1 = Some (out, w')"
        by simp
      from Cons.IH[OF this i1] show ?thesis .
    next
      case (Inr u)
      with Cons.prems(1) g True sw obtain rb w2 where
        b: "enrichBatches R E fetchAll mc cs 0 acc w1 = Some (rb, w2)"
        and r: "(case rb of
                   Inl e \<Rightarrow> Some (Inl e, w2)
                 | Inr e1 \<Rightarrow> enrichGroups R E fetchAll mc orgInfos gs (Some k) e1 w2)
                = Some (out, w')"
        by (auto split: option.splits sum.splits)
      from enrichBatches_inv[OF b] i1 have i2: "tokenInv w2" by simp
      show ?thesis
      proof (cases rb)
        case (Inl e)
        with r i2 show ?thesis by simp
      next
        case (Inr e1)
        with r have "enrichGroups R E fetchAll mc orgInfos gs (Some k) e1 w2 = Some (out, w')"
          by simp
        from Cons.IH[OF this i2] show ?thesis .
      qed
    qed
  qed
qed

lemma fetchAllAvailableOrgs_inv:
  assumes run: "fetchAllAvailableOrgs R w = (r, w')" and inv: "tokenInv w"
  shows "tokenInv w'"
proof -
  obtain r0 w1 where f: "fetchCsrfToken R defaultRetries w = (r0, w1)"
    by (cases "fetchCsrfToken R defaultRetries w")
  from fetchCsrfToken_facts(3)[OF f] obtain evs where
    tr: "trace w1 = trace w @ evs" "list_all isTokenFetchOrSleep evs"
    and tk: "\<forall>t. r0 = Inr t \<longrightarrow> t \<in> set (fetchedTokens evs)" by blast
  show ?thesis
  proof (cases r0)
    case (Inl e)
    with run f fetchCsrfToken_inv[OF f inv] show ?thesis
      by (simp add: fetchAllAvailableOrgs_def)
  next
    case (Inr csrf)
    have i2: "tokenInv (setCsrfToken (Some csrf) w1)"
      using inv tr tk Inr by (intro tokenInv_tokenEvents[of w "setCsrfToken (Some csrf) w1" evs]) auto
    let ?w2 = "setCsrfToken (Some csrf) w1"
    obtain resp s' where ep: "available_identities_endpoint R
        ((createAuthHeaders (session ?w2))\<lparr>h_csrf := Some csrf\<rparr>) (server ?w2) = (resp, s')"
      by (cases "available_identities_endpoint R
        ((createAuthHeaders (session ?w2))\<lparr>h_csrf := Some csrf\<rparr>) (server ?w2)")
    have unf: "(r, w') = (case resp of
                NetworkError \<Rightarrow> (Inl FetchRejected, emit (Identities None) (?w2\<lparr>server := s'\<rparr>))
              | Response st sc b \<Rightarrow>
                  (let w3 = emit (Identities (Some st)) (?w2\<lparr>server := s'\<rparr>)
                   in if \<not> ok st then (Inr [], w3)
                      else (case b of
                              None \<Rightarrow> (Inl BodyNotJson, w3)
                            | Some identities \<Rightarrow> (Inr (dedupeIdentities [] identities), w3))))"
      using run[symmetric] ep f[unfolded Inr]
      by (simp add: fetchAllAvailableOrgs_def Let_def)
    have "\<exists>st. trace w' = trace ?w2 @ [Identities st] \<and>
               csrfToken (session w') = csrfToken (session ?w2)"
    proof (cases resp)
      case NetworkError
      with unf show ?thesis by simp
    next
      case (Response st sc b)
      with unf show ?thesis by (cases "ok st"; cases b) (simp_all add: Let_def)
    qed
    then obtain st where
      "trace w' = trace (setCsrfToken (Some csrf) w1) @ [Identities st]"
      "csrfToken (session w') = csrfToken (session (setCsrfToken (Some csrf) w1))"
      by blast
    moreover have "queryInOrder f (Identities st)" for f st by (cases f) auto
    ultimately show ?thesis
      using i2 by (intro tokenInv_other_event[of "setCsrfToken (Some csrf) w1" w' "Identities st"]) auto
  qed
qed

text \<open>
  A switch that succeeds: the switch request, the pause, then token fetches, at
  least one of which brought back a token, then at most the verification query. The
  token the session holds at the end was fetched after the switch request, and the
  verification query carries such a token.
\<close>

lemma switched_refreshes:
  assumes "switchOrgContext R uid w0 = (Inr (), w1)"
  shows "\<exists>before st fetches after.
           trace w1 = trace w0 @ before @ [ChangeUser uid (Some st), Sleep 500] @ fetches @ after \<and>
           ok st \<and> list_all isTokenFetchOrSleep before \<and> list_all isTokenFetchOrSleep fetches \<and>
           (\<exists>t. csrfToken (session w1) = Some t \<and> t \<in> set (fetchedTokens fetches)) \<and>
           (after = [] \<or>
            (\<exists>hdr qst. after = [Query ''ApiGetSessionUser'' hdr qst] \<and>
               queryInOrder (Some (fetchedTokens fetches)) (Query ''ApiGetSessionUser'' hdr qst)))"
  using assms
proof (cases rule: switchOrgContext_cases)
  case (switched csrf wa st w4 tok w5 verification)
  from fetchCsrfToken_facts(3)[OF switched(1)] obtain evs0 where
    e0: "trace wa = trace w0 @ evs0" "list_all isTokenFetchOrSleep evs0" by blast
  from fetchCsrfToken_facts(3)[OF switched(5)] obtain evs1 where
    e1: "trace w5 = trace w4 @ evs1" "list_all isTokenFetchOrSleep evs1"
    and t1: "tok \<in> set (fetchedTokens evs1)" by blast
  let ?w6 = "setCsrfToken (Some tok) w5"
  from switched(6) show ?thesis
  proof (cases rule: graphqlQuery_cases)
    case (token_failed e)
    from resolveCsrfToken_facts(2)[OF token_failed(1)] obtain tevs where
      tv: "trace w1 = trace ?w6 @ tevs" "list_all isTokenFetchOrSleep tevs"
      and ss: "session w1 = session ?w6" by blast
    have "trace w1 = trace w0 @ evs0 @ [ChangeUser uid (Some st), Sleep 500] @ (evs1 @ tevs) @ []"
      using tv(1) e1(1) switched(3) e0(1) by simp
    moreover have "\<exists>t. csrfToken (session w1) = Some t \<and> t \<in> set (fetchedTokens (evs1 @ tevs))"
      using ss t1 by simp
    moreover have "list_all isTokenFetchOrSleep (evs1 @ tevs)" using e1(2) tv(2) by simp
    ultimately show ?thesis using switched(2) e0(2) by blast
  next
    case (queried c wt qst)
    from resolveCsrfToken_facts(2)[OF queried(1)] obtain tevs where
      tv: "trace wt = trace ?w6 @ tevs" "list_all isTokenFetchOrSleep tevs"
      and ck: "csrfToken (session wt) = Some c"
      and cs: "c \<in> set (fetchedTokens tevs) \<or> (tevs = [] \<and> c \<noteq> [] \<and> wt = ?w6)" by blast
    from cs ck t1 have cin: "c \<in> set (fetchedTokens (evs1 @ tevs))" by auto
    let ?q = "Query ''ApiGetSessionUser'' (if c \<noteq> [] then Some c else None) qst"
    have "trace w1 = trace w0 @ evs0 @ [ChangeUser uid (Some st), Sleep 500] @ (evs1 @ tevs) @ [?q]"
      using queried(2) tv(1) e1(1) switched(3) e0(1) by simp
    moreover have "\<exists>t. csrfToken (session w1) = Some t \<and> t \<in> set (fetchedTokens (evs1 @ tevs))"
      using queried(3) ck cin by simp
    moreover have "list_all isTokenFetchOrSleep (evs1 @ tevs)" using e1(2) tv(2) by simp
    moreover have "queryInOrder (Some (fetchedTokens (evs1 @ tevs))) ?q" using cin by auto
    ultimately show ?thesis using switched(2) e0(2) by blast
  qed
qed simp_all

text \<open>
  C6. First, in every run of \<open>extractCommand\<close>, whatever the remote answers and
  whatever the options: once the remote has accepted a switch request, every later
  query carries a token that a token fetch brought back after that switch. So no
  query is executed against a tenant before a token fetched after the switch has
  replaced the cached one. The trace is that of a run that has ended, with the
  requests of an enrichment batch in the order of the batch.

  Second, every switch that succeeds makes that token fetch itself: its trace is the
  switch request, the pause of 500 ms, then token fetches one of which brought back
  the token the session holds when \<open>switchOrgContext\<close> returns, and only then the
  verification query, which carries a token fetched after the switch. (When the
  fetch after the switch fails, the switch fails: the cached token is cleared and no
  query follows.) After the switch, the job listing query of \<open>fetchPipelineForOrg\<close>
  forces one more fetch.
\<close>

theorem token_refreshed_after_every_switch:
  "(extractCommand R E options loaded s0 = Some (res, w) \<longrightarrow>
      refreshedBeforeQueries None (trace w)) \<and>
   (switchOrgContext R uid w0 = (Inr (), w1) \<longrightarrow>
      (\<exists>before st fetches after.
         trace w1 = trace w0 @ before @ [ChangeUser uid (Some st), Sleep 500] @ fetches @ after \<and>
         ok st \<and> list_all isTokenFetchOrSleep before \<and> list_all isTokenFetchOrSleep fetches \<and>
         (\<exists>t. csrfToken (session w1) = Some t \<and> t \<in> set (fetchedTokens fetches)) \<and>
         (after = [] \<or>
          (\<exists>hdr qst. after = [Query ''ApiGetSessionUser'' hdr qst] \<and>
             queryInOrder (Some (fetchedTokens fetches)) (Query ''ApiGetSessionUser'' hdr qst)))))"
proof (intro conjI impI)
  assume run: "extractCommand R E options loaded s0 = Some (res, w)"
  have "tokenInv w"
  proof (cases loaded)
    case None
    with run show ?thesis by (auto simp: extractCommand_def tokenInv_def)
  next
    case (Some sess)
    let ?w0 = "\<lparr>session = sess, server = s0, trace = []\<rparr>"
    have i0: "tokenInv ?w0" by (simp add: tokenInv_def)
    obtain dr wd where d: "fetchAllAvailableOrgs R ?w0 = (dr, wd)"
      by (cases "fetchAllAvailableOrgs R ?w0")
    note i1 = fetchAllAvailableOrgs_inv[OF d i0]
    from run Some d
    have "w = ?w0 \<or> w = wd \<or>
          (\<exists>m orgs agg w2 orgInfos. processOrgs R E m orgs emptyAggregate wd = Some (agg, w2) \<and>
             finishRun R E options orgInfos agg w2 = Some (res, w))"
      by (auto simp: extractCommand_def Let_def split: if_splits sum.splits option.splits)
    then show ?thesis
    proof (elim disjE exE conjE)
      fix m orgs agg w2 orgInfos
      assume p: "processOrgs R E m orgs emptyAggregate wd = Some (agg, w2)"
        and f: "finishRun R E options orgInfos agg w2 = Some (res, w)"
      from processOrgs_inv[OF p i1] have i2: "tokenInv w2" .
      from f have "w = w2 \<or> (\<exists>mc r. enrichGroups R E True mc orgInfos
                      (groupByOrg (allCandidates agg)) None [] w2 = Some (r, w))"
        by (auto simp: finishRun_def enrichCandidatesWithDetails_def
                 split: if_splits option.splits sum.splits)
      with i2 show ?thesis by (auto dest: enrichGroups_inv)
    qed (use i0 i1 in auto)
  qed
  then show "refreshedBeforeQueries None (trace w)" by (simp add: tokenInv_def)
next
  assume "switchOrgContext R uid w0 = (Inr (), w1)"
  from switched_refreshes[OF this]
  show "\<exists>before st fetches after.
         trace w1 = trace w0 @ before @ [ChangeUser uid (Some st), Sleep 500] @ fetches @ after \<and>
         ok st \<and> list_all isTokenFetchOrSleep before \<and> list_all isTokenFetchOrSleep fetches \<and>
         (\<exists>t. csrfToken (session w1) = Some t \<and> t \<in> set (fetchedTokens fetches)) \<and>
         (after = [] \<or>
          (\<exists>hdr qst. after = [Query ''ApiGetSessionUser'' hdr qst] \<and>
             queryInOrder (Some (fetchedTokens fetches)) (Query ''ApiGetSessionUser'' hdr qst)))" .
qed

theorem token_refreshed_after_every_switch_witness:
  "extractCommand switchFailsForB sampleEnv (basicOptions\<lparr>detailed := True\<rparr>)
       (Some sampleSession) ''user-0''
     = Some (\<lparr>exitCode = 0, stopped = None,
              aggregated =
                \<lparr>allCompanies = [defaultCompany],
                 allJobs = [engineerJob ''job-user-A'', engineerJob ''job-1''],
                 allCandidates =
                   [(candidateOf sampleEnv ''org-of-user-A'' None (sampleApplication ''a1''))
                      \<lparr>pipelineStage := Some ''Onsite'', currentStageIndex := Some 2,
                       totalStages := Some 3, stageProgress := Some ''2/3'',
                       interviewEvents := Some [], allFeedback := Some [],
                       latestOverallRecommendation := None, latestFeedbackAuthor := None,
                       latestFeedbackDate := None, feedbackCount := Some 0\<rparr>,
                    candidateOf sampleEnv ''org-of-user-A'' None (sampleApplication ''a2''),
                    candidateOf sampleEnv ''org-of-user-A'' None (sampleApplication ''a3'')],
                 failedOrgs = []\<rparr>,
              exported =
                Some \<lparr>companies = [defaultCompany],
                      jobs = [engineerJob ''job-user-A'', engineerJob ''job-1''],
                      candidates =
                        [(candidateOf sampleEnv ''org-of-user-A'' None (sampleApplication ''a1''))
                           \<lparr>pipelineStage := Some ''Onsite'', currentStageIndex := Some 2,
                            totalStages := Some 3, stageProgress := Some ''2/3'',
                            interviewEvents := Some [], allFeedback := Some [],
                            latestOverallRecommendation := None, latestFeedbackAuthor := None,
                            latestFeedbackDate := None, feedbackCount := Some 0\<rparr>,
                         candidateOf sampleEnv ''org-of-user-A'' None (sampleApplication ''a2''),
                         candidateOf sampleEnv ''org-of-user-A'' None (sampleApplication ''a3'')]\<rparr>\<rparr>,
        \<lparr>session = sampleSession\<lparr>csrfToken := Some ''token-user-A''\<rparr>, server = ''user-A'',
         trace = [TokenFetch (Some 200) (Some ''token-user-0''), Identities (Some 200),
                  TokenFetch (Some 200) (Some ''token-user-0''),
                  ChangeUser ''user-A'' (Some 200), Sleep 500,
                  TokenFetch (Some 200) (Some ''token-user-A''),
                  Query ''ApiGetSessionUser'' (Some ''token-user-A'') (Some 200),
                  TokenFetch (Some 200) (Some ''token-user-A''),
                  Query ''ApiOpenJobs'' (Some ''token-user-A'') (Some 200),
                  Query ''ApiGetActiveApplications'' (Some ''token-user-A'') (Some 200),
                  Query ''ApiGetSessionUser'' (Some ''token-user-A'') (Some 200),
                  Sleep 500,
                  TokenFetch (Some 200) (Some ''token-user-A''),
                  ChangeUser ''user-B'' (Some 500),
                  TokenFetch (Some 200) (Some ''token-user-A''),
                  ChangeUser ''user-A'' (Some 200), Sleep 500,
                  TokenFetch (Some 200) (Some ''token-user-A''),
                  Query ''ApiGetSessionUser'' (Some ''token-user-A'') (Some 200),
                  Query ''ApiApplication'' (Some ''token-user-A'') (Some 200),
                  Query ''ApiApplication'' (Some ''token-user-A'') (Some 200),
                  Query ''ApiApplication'' (Some ''token-user-A'') (Some 200)]\<rparr>) \<and>
   refreshedBeforeQueries None
     [TokenFetch (Some 200) (Some ''token-user-0''), Identities (Some 200),
      TokenFetch (Some 200) (Some ''token-user-0''),
      ChangeUser ''user-A'' (Some 200), Sleep 500,
      TokenFetch (Some 200) (Some ''token-user-A''),
      Query ''ApiGetSessionUser'' (Some ''token-user-A'') (Some 200),
      TokenFetch (Some 200) (Some ''token-user-A''),
      Query ''ApiOpenJobs'' (Some ''token-user-A'') (Some 200),
      Query ''ApiGetActiveApplications'' (Some ''token-user-A'') (Some 200),
      Query ''ApiGetSessionUser'' (Some ''token-user-A'') (Some 200),
      Sleep 500,
      TokenFetch (Some 200) (Some ''token-user-A''),
      ChangeUser ''user-B'' (Some 500),
      TokenFetch (Some 200) (Some ''token-user-A''),
      ChangeUser ''user-A'' (Some 200), Sleep 500,
      TokenFetch (Some 200) (Some ''token-user-A''),
      Query ''ApiGetSessionUser'' (Some ''token-user-A'') (Some 200),
      Query ''ApiApplication'' (Some ''token-user-A'') (Some 200),
      Query ''ApiApplication'' (Some ''token-user-A'') (Some 200),
      Query ''ApiApplication'' (Some ''token-user-A'') (Some 200)] \<and>
   switchOrgContext switchFailsForB ''user-A'' discoveredWorld
     = (Inr (),
        \<lparr>session = sampleSession\<lparr>csrfToken := Some ''token-user-A''\<rparr>, server = ''user-A'',
         trace = trace discoveredWorld @
                 [TokenFetch (Some 200) (Some ''token-user-0''),
                  ChangeUser ''user-A'' (Some 200), Sleep 500,
                  TokenFetch (Some 200) (Some ''token-user-A''),
                  Query ''ApiGetSessionUser'' (Some ''token-user-A'') (Some 200)]\<rparr>) \<and>
   (\<exists>before st fetches after.
      [TokenFetch (Some 200) (Some ''token-user-0''),
       ChangeUser ''user-A'' (Some 200), Sleep 500,
       TokenFetch (Some 200) (Some ''token-user-A''),
       Query ''ApiGetSessionUser'' (Some ''token-user-A'') (Some 200)]
        = before @ [ChangeUser ''user-A'' (Some st), Sleep 500] @ fetches @ after \<and>
      ok st \<and> list_all isTokenFetchOrSleep before \<and> list_all isTokenFetchOrSleep fetches \<and>
      ''token-user-A'' \<in> set (fetchedTokens fetches) \<and>
      (after = [] \<or>
       (\<exists>hdr qst. after = [Query ''ApiGetSessionUser'' hdr qst] \<and>
          queryInOrder (Some (fetchedTokens fetches)) (Query ''ApiGetSessionUser'' hdr qst))))"
  (is "?run = Some (?res, ?w) \<and> ?ordered \<and> ?switch = (Inr (), ?w1) \<and> ?refreshed")
proof -
  have run: "?run = Some (?res, ?w)"
    using sample_detailed_run by (simp add: discoveredWorld_def extractionEvents_def)
  note main = token_refreshed_after_every_switch
  from main[THEN conjunct1, rule_format, OF run] have ordered: ?ordered by simp
  have sw: "?switch = (Inr (), ?w1)"
    unfolding switchFailsForB_def by (rule switch_to_acme)
  from main[THEN conjunct2, rule_format, OF sw] have ?refreshed by simp
  with run ordered sw show ?thesis by simp
qed

section \<open>C3: a tenant whose switch fails\<close>

text \<open>
  Against C3 as stated: Acme succeeds with three records and the switch request for
  Beta is answered 500. The output has Acme's three records, and the failure list is
  empty: nothing identifies Beta as failed.
\<close>

theorem switch_failure_not_recorded_counterexample:
  "extractCommand switchFailsForB sampleEnv basicOptions (Some sampleSession) ''user-0''
   = Some (\<lparr>exitCode = 0, stopped = None,
            aggregated =
              \<lparr>allCompanies = [defaultCompany],
               allJobs = [engineerJob ''job-user-A'', engineerJob ''job-1''],
               allCandidates = map (candidateOf sampleEnv ''org-of-user-A'' None) appsOfA,
               failedOrgs = []\<rparr>,
            exported =
              Some \<lparr>companies = [defaultCompany],
                    jobs = [engineerJob ''job-user-A'', engineerJob ''job-1''],
                    candidates = map (candidateOf sampleEnv ''org-of-user-A'' None) appsOfA\<rparr>\<rparr>,
      \<lparr>session = sampleSession\<lparr>csrfToken := Some ''token-user-A''\<rparr>, server = ''user-A'',
       trace = trace discoveredWorld @ extractionEvents ''token-user-0'' ''user-A'' @
               [Sleep 500, TokenFetch (Some 200) (Some ''token-user-A''),
                ChangeUser ''user-B'' (Some 500)]\<rparr>)"
  by (simp add: client_defs run_defs switchFailsForB_def data_defs)

subsection \<open>The loop over the two tenants, and what follows it\<close>

lemma fetchPipelineForOrg_orgId:
  assumes "fetchPipelineForOrg R E oid uid w = Some (Inr r, w')"
  shows "\<forall>c\<in>set (candidates r). orgId c = oid"
proof -
  from assms have "r = emptyResult \<or> (\<exists>jp apps nm. r = normalizePipelineData E jp apps oid nm)"
    by (auto simp: fetchPipelineForOrg_def
             split: prod.splits sum.splits option.splits gql_data.splits if_splits)
  moreover have "candidates (normalizePipelineData E jp apps oid nm)
                   = map (candidateOf E oid nm) apps" for jp apps nm
    by (simp add: normalizePipelineData_def split: prod.splits)
  moreover have "orgId (candidateOf E oid nm app) = oid" for nm app
    by (simp add: candidateOf_def Let_def)
  ultimately show ?thesis by (auto simp: emptyResult_def)
qed

lemma fold_addToGroup_single:
  "\<forall>c\<in>set cs. orgId c = k \<Longrightarrow> fold addToGroup cs [(k, xs)] = [(k, xs @ cs)]"
  by (induction cs arbitrary: xs) auto

lemma groupedByOrg_single:
  assumes "\<forall>c\<in>set cs. orgId c = k"
  shows "groupedByOrg cs = cs"
proof (cases cs)
  case Nil
  then show ?thesis by (simp add: groupedByOrg_def groupByOrg_def)
next
  case (Cons c rest)
  with assms have "fold addToGroup rest [(k, [c])] = [(k, [c] @ rest)]"
    by (intro fold_addToGroup_single) simp
  with Cons assms show ?thesis by (simp add: groupedByOrg_def groupByOrg_def)
qed

lemma keptRecord_sameOrEnriched:
  "list_all2 (keptRecord orgInfos) xs ys \<Longrightarrow> list_all2 sameOrEnriched xs ys"
  by (erule list_all2_mono) (simp add: keptRecord_def)

text \<open>
  What \<open>finishRun\<close> makes of an aggregate whose candidates are all of one tenant,
  with a positive batch size when the enrichment is asked for.
\<close>

lemma finishRun_one_tenant:
  assumes org: "\<forall>c\<in>set (allCandidates agg). orgId c = k"
    and mc: "detailed options \<longrightarrow> 0 < numOr (detailedConcurrent options) 5"
  shows "\<exists>res w'. finishRun R E options orgInfos agg w = Some (res, w') \<and>
           allCompanies (aggregated res) = allCompanies agg \<and>
           allJobs (aggregated res) = allJobs agg \<and>
           failedOrgs (aggregated res) = failedOrgs agg \<and>
           list_all2 sameOrEnriched (allCandidates agg) (allCandidates (aggregated res)) \<and>
           (\<not> detailed options \<longrightarrow> allCandidates (aggregated res) = allCandidates agg \<and> w' = w) \<and>
           (if allCandidates agg = []
            then exitCode res = 1 \<and> stopped res = Some NoCandidatesExtracted \<and> exported res = None
            else exitCode res = 0 \<and> stopped res = None \<and>
                 exported res =
                   (if truthy (json options) \<or> truthy (csv options)
                    then Some \<lparr>companies = allCompanies agg, jobs = allJobs agg,
                               candidates = allCandidates (aggregated res)\<rparr>
                    else None))"
proof -
  have same: "list_all2 sameOrEnriched (allCandidates agg) (allCandidates agg)"
    by (rule list_all2_same) (rule sameOrEnriched_refl)
  show ?thesis
  proof (cases "allCandidates agg = []")
    case True
    then show ?thesis by (simp add: finishRun_def stopWith_def)
  next
    case ne: False
    show ?thesis
    proof (cases "detailed options")
      case False
      with ne same show ?thesis by (simp add: finishRun_def)
    next
      case True
      with mc have pos: "0 < numOr (detailedConcurrent options) 5" by simp
      from enrichment_outcome[OF pos, of R E "allCandidates agg" orgInfos True w]
      obtain r w' where
        run: "enrichCandidatesWithDetails R E (allCandidates agg) orgInfos
                (numOr (detailedConcurrent options) 5) True w = Some (r, w')"
        and rr: "case r of
                   Inl e \<Rightarrow> e = TypeError \<and> \<not> servesReadableDetails R
                 | Inr out \<Rightarrow>
                     length out = length (allCandidates agg) \<and>
                     mset (map candidateKey out) = mset (map candidateKey (allCandidates agg)) \<and>
                     list_all2 (keptRecord orgInfos) (groupedByOrg (allCandidates agg)) out"
        by blast
      show ?thesis
      proof (cases r)
        case (Inl e)
        with ne True run same show ?thesis by (simp add: finishRun_def)
      next
        case (Inr out)
        with rr have "list_all2 (keptRecord orgInfos) (groupedByOrg (allCandidates agg)) out"
          by simp
        then have "list_all2 sameOrEnriched (allCandidates agg) out"
          unfolding groupedByOrg_single[OF org] by (rule keptRecord_sameOrEnriched)
        with ne True run Inr show ?thesis by (simp add: finishRun_def)
      qed
    qed
  qed
qed

text \<open>
  C3, amended. A run over the two tenants A and B that the discovery returned (both
  with a user id, no name filter and no cap on the number of tenants, at least one
  attempt per tenant, a positive batch size when \<open>detailed\<close> is set) where the
  extraction for A returns the records \<open>ra\<close> and the switch to B fails. The run ends.

  \<^item> \<open>fetchPipelineForOrg\<close> catches B's switch failure and returns the empty result:
    B adds no records and no failure entry, the failure list stays empty.
  \<^item> When A returned at least one candidate, the run ends with exit code 0 and its
    output, the aggregate and what is handed to the export, has all of A's
    companies, jobs and candidates: the candidates in A's order, unchanged or, with
    \<open>detailed\<close>, with enrichment members filled in. B's failure removes none.
  \<^item> When A returned no candidate, the run stops with exit code 1 (no candidates
    were extracted) and nothing is exported, whatever companies and jobs A returned.
\<close>

theorem switch_failure_keeps_records:
  assumes "hasAuthCookie sess"
    and "fetchAllAvailableOrgs R \<lparr>session = sess, server = s0, trace = []\<rparr> = (Inr [a, b], w)"
    and "orgFilter options = None" and "maxOrgs options = None"
    and "1 \<le> numOr (retries options) 1"
    and "userId a \<noteq> []" and "userId b \<noteq> []" and "org_id b \<noteq> ''default''"
    and "fetchPipelineForOrg R E (org_id a) (Some (userId a)) w = Some (Inr ra, w1)"
    and "switchOrgContext R (userId b) (emit (Sleep 500) w1) = (Inl e, w2)"
    and "detailed options \<longrightarrow> 0 < numOr (detailedConcurrent options) 5"
  shows "\<exists>res w'. extractCommand R E options (Some sess) s0 = Some (res, w') \<and>
           allCompanies (aggregated res) = companies ra \<and>
           allJobs (aggregated res) = jobs ra \<and>
           failedOrgs (aggregated res) = [] \<and>
           list_all2 sameOrEnriched (candidates ra) (allCandidates (aggregated res)) \<and>
           (\<not> detailed options \<longrightarrow> allCandidates (aggregated res) = candidates ra \<and> w' = w2) \<and>
           (if candidates ra = []
            then exitCode res = 1 \<and> stopped res = Some NoCandidatesExtracted \<and> exported res = None
            else exitCode res = 0 \<and> stopped res = None \<and>
                 exported res =
                   (if truthy (json options) \<or> truthy (csv options)
                    then Some \<lparr>companies = companies ra, jobs = jobs ra,
                               candidates = allCandidates (aggregated res)\<rparr>
                    else None))"
proof -
  let ?agg = "\<lparr>allCompanies = companies ra, allJobs = jobs ra, allCandidates = candidates ra,
               failedOrgs = []\<rparr>"
  have loop: "processOrgs R E (numOr (retries options) 1) [a, b] emptyAggregate w = Some (?agg, w2)"
    using two_tenants_loop[OF assms(5-10), of emptyAggregate] by (simp add: emptyAggregate_def)
  have run: "extractCommand R E options (Some sess) s0 = finishRun R E options [a, b] ?agg w2"
    using assms(1-4) loop by (simp add: extractCommand_def capOrgs_def truthy_def)
  have org: "\<forall>c\<in>set (allCandidates ?agg). orgId c = org_id a"
    using fetchPipelineForOrg_orgId[OF assms(9)] by simp
  from finishRun_one_tenant[OF org assms(11), of R E "[a, b]" w2, unfolded aggregate.select_convs]
  show ?thesis unfolding run .
qed

theorem switch_failure_keeps_records_witness:
  "fetchPipelineForOrg switchFailsForB sampleEnv (org_id acme) (Some (userId acme)) discoveredWorld
     = Some (Inr \<lparr>companies = [defaultCompany],
                  jobs = [engineerJob ''job-user-A'', engineerJob ''job-1''],
                  candidates = map (candidateOf sampleEnv ''org-of-user-A'' None) appsOfA\<rparr>,
        \<lparr>session = sampleSession\<lparr>csrfToken := Some ''token-user-A''\<rparr>, server = ''user-A'',
         trace = trace discoveredWorld @ extractionEvents ''token-user-0'' ''user-A''\<rparr>) \<and>
   switchOrgContext switchFailsForB (userId beta)
       (emit (Sleep 500)
          \<lparr>session = sampleSession\<lparr>csrfToken := Some ''token-user-A''\<rparr>, server = ''user-A'',
           trace = trace discoveredWorld @ extractionEvents ''token-user-0'' ''user-A''\<rparr>)
     = (Inl (SwitchOrgContextFailed 500),
        \<lparr>session = sampleSession\<lparr>csrfToken := Some ''token-user-A''\<rparr>, server = ''user-A'',
         trace = trace discoveredWorld @ extractionEvents ''token-user-0'' ''user-A'' @
                 [Sleep 500, TokenFetch (Some 200) (Some ''token-user-A''),
                  ChangeUser ''user-B'' (Some 500)]\<rparr>) \<and>
   (\<exists>res w'.
      extractCommand switchFailsForB sampleEnv (basicOptions\<lparr>detailed := True\<rparr>)
        (Some sampleSession) ''user-0'' = Some (res, w') \<and>
      exitCode res = 0 \<and> stopped res = None \<and>
      allCompanies (aggregated res) = [defaultCompany] \<and>
      allJobs (aggregated res) = [engineerJob ''job-user-A'', engineerJob ''job-1''] \<and>
      failedOrgs (aggregated res) = [] \<and>
      list_all2 sameOrEnriched (map (candidateOf sampleEnv ''org-of-user-A'' None) appsOfA)
        (allCandidates (aggregated res)) \<and>
      exported res
        = Some \<lparr>companies = [defaultCompany],
                jobs = [engineerJob ''job-user-A'', engineerJob ''job-1''],
                candidates = allCandidates (aggregated res)\<rparr>) \<and>
   (\<exists>res w'.
      extractCommand acmeWithoutApplications sampleEnv basicOptions (Some sampleSession) ''user-0''
        = Some (res, w') \<and>
      exitCode res = 1 \<and> stopped res = Some NoCandidatesExtracted \<and> exported res = None \<and>
      allCompanies (aggregated res) = [defaultCompany] \<and>
      allJobs (aggregated res) = [engineerJob ''job-user-A''] \<and>
      allCandidates (aggregated res) = [] \<and>
      failedOrgs (aggregated res) = [])"
proof -
  let ?w1 = "\<lparr>session = sampleSession\<lparr>csrfToken := Some ''token-user-A''\<rparr>, server = ''user-A'',
         trace = trace discoveredWorld @ extractionEvents ''token-user-0'' ''user-A''\<rparr>"
  let ?w2 = "\<lparr>session = sampleSession\<lparr>csrfToken := Some ''token-user-A''\<rparr>, server = ''user-A'',
         trace = trace discoveredWorld @ extractionEvents ''token-user-0'' ''user-A'' @
                 [Sleep 500, TokenFetch (Some 200) (Some ''token-user-A''),
                  ChangeUser ''user-B'' (Some 500)]\<rparr>"
  have cookie: "hasAuthCookie sampleSession"
    by (simp add: hasAuthCookie_def sampleSession_def truthy_def)
  have d: "fetchAllAvailableOrgs switchFailsForB
             \<lparr>session = sampleSession, server = ''user-0'', trace = []\<rparr>
           = (Inr [acme, beta], discoveredWorld)"
    unfolding switchFailsForB_def by (rule sample_discovery)
  have o: "orgFilter (basicOptions\<lparr>detailed := True\<rparr>) = None"
    "maxOrgs (basicOptions\<lparr>detailed := True\<rparr>) = None"
    "1 \<le> numOr (retries (basicOptions\<lparr>detailed := True\<rparr>)) 1"
    by (simp_all add: basicOptions_def numOr_def)
  have mc: "detailed (basicOptions\<lparr>detailed := True\<rparr>)
              \<longrightarrow> 0 < numOr (detailedConcurrent (basicOptions\<lparr>detailed := True\<rparr>)) 5"
    by (simp add: basicOptions_def numOr_def)
  from switch_failure_keeps_records[OF cookie d o sample_tenants sample_acme sample_beta_switch mc]
  have first: "\<exists>res w'.
      extractCommand switchFailsForB sampleEnv (basicOptions\<lparr>detailed := True\<rparr>)
        (Some sampleSession) ''user-0'' = Some (res, w') \<and>
      exitCode res = 0 \<and> stopped res = None \<and>
      allCompanies (aggregated res) = [defaultCompany] \<and>
      allJobs (aggregated res) = [engineerJob ''job-user-A'', engineerJob ''job-1''] \<and>
      failedOrgs (aggregated res) = [] \<and>
      list_all2 sameOrEnriched (map (candidateOf sampleEnv ''org-of-user-A'' None) appsOfA)
        (allCandidates (aggregated res)) \<and>
      exported res
        = Some \<lparr>companies = [defaultCompany],
                jobs = [engineerJob ''job-user-A'', engineerJob ''job-1''],
                candidates = allCandidates (aggregated res)\<rparr>"
    by (auto simp: appsOfA_def basicOptions_def truthy_def)

  have d': "fetchAllAvailableOrgs acmeWithoutApplications
             \<lparr>session = sampleSession, server = ''user-0'', trace = []\<rparr>
           = (Inr [acme, beta], discoveredWorld)"
    unfolding acmeWithoutApplications_def by (rule sample_discovery)
  have o': "orgFilter basicOptions = None" "maxOrgs basicOptions = None"
    "1 \<le> numOr (retries basicOptions) 1"
    by (simp_all add: basicOptions_def numOr_def)
  have mc': "detailed basicOptions \<longrightarrow> 0 < numOr (detailedConcurrent basicOptions) 5"
    by (simp add: basicOptions_def)
  have a': "fetchPipelineForOrg acmeWithoutApplications sampleEnv (org_id acme) (Some (userId acme))
              discoveredWorld
            = Some (Inr \<lparr>companies = [defaultCompany], jobs = [engineerJob ''job-user-A''],
                         candidates = []\<rparr>, ?w1)"
    by (simp add: client_defs run_defs acmeWithoutApplications_def data_defs)
  have b': "switchOrgContext acmeWithoutApplications (userId beta) (emit (Sleep 500) ?w1)
              = (Inl (SwitchOrgContextFailed 500), ?w2)"
    by (simp add: client_defs run_defs acmeWithoutApplications_def beta_def discoveredWorld_def
          extractionEvents_def)
  from switch_failure_keeps_records[OF cookie d' o' sample_tenants a' b' mc']
  have second: "\<exists>res w'.
      extractCommand acmeWithoutApplications sampleEnv basicOptions (Some sampleSession) ''user-0''
        = Some (res, w') \<and>
      exitCode res = 1 \<and> stopped res = Some NoCandidatesExtracted \<and> exported res = None \<and>
      allCompanies (aggregated res) = [defaultCompany] \<and>
      allJobs (aggregated res) = [engineerJob ''job-user-A''] \<and>
      allCandidates (aggregated res) = [] \<and>
      failedOrgs (aggregated res) = []"
    by auto
  from sample_acme sample_beta_switch first second show ?thesis by blast
qed

end
